theory Spec2Isabelle
  imports Main
begin

section \<open>Error objects and the runner's state\<close>

text \<open>
  \<open>syncRunner.js\<close> keeps its session in closure variables of \<open>Zotero.Sync.Runner_Module\<close>
  (\<open>_errors\<close>, \<open>_syncInProgress\<close>, \<open>_firstInSession\<close>, \<open>_lastSyncStatus\<close>,
  \<open>_storageControllers\<close>) and mutates the error objects it is handed (\<open>e.added\<close>,
  \<open>e.libraryID\<close>, \<open>e.parsed\<close>, \<open>e.errorType\<close>). Error objects are therefore kept in a
  store and named by reference; \<open>_errors\<close> is a list of references.
\<close>

text \<open>
  An error object is either handed to the runner from outside (thrown by an engine or by
  the API client) or created by the runner itself with \<open>new\<close>.
\<close>

datatype ref = Thrown nat | Created nat

type_synonym libraryID = int

text \<open>The exception classes the runner tests with \<open>instanceof\<close> or \<open>e.name\<close>.\<close>

datatype exn_class =
    UserCancelledException bool      \<comment> \<open>\<open>advanceToNextLibrary\<close>\<close>
  | UnexpectedStatusException int    \<comment> \<open>\<open>status\<close>\<close>
  | BrowserOfflineException
  | ZoteroError int                  \<comment> \<open>\<open>name == 'Zotero Error'\<close>, with \<open>e.error\<close>\<close>
  | ZoteroObjectUploadError int bool \<comment> \<open>\<open>e.code\<close>, and whether \<open>e.data.tag !== undefined\<close>\<close>
  | PlainError

text \<open>\<open>dialogButtonText\<close> is tested against both \<open>null\<close> and \<open>undefined\<close>.\<close>

datatype button_text = ButtonUndefined | ButtonNull | ButtonText string

record err =
  cls :: exn_class
  message :: string
  added :: bool                       \<comment> \<open>\<open>e.added\<close>, absent read as false\<close>
  libraryID :: "libraryID option"     \<comment> \<open>\<open>None\<close> is \<open>undefined\<close>\<close>
  parsed :: bool
  errorType :: "string option"        \<comment> \<open>\<open>None\<close> is \<open>undefined\<close>\<close>
  fatal :: bool
  frontWindowOnly :: bool
  dialogButtonText :: button_text

text \<open>
  What the runner does to the outside world is recorded in the state as well: the errors
  given to \<open>Zotero.logError\<close>, to \<open>checkError\<close> and to a caller's \<open>options.onError\<close>, the
  calls of \<open>updateIcons\<close>, of \<open>caller.stop()\<close> and of \<open>updateLastSyncTime()\<close>, every
  engine started with what its \<open>start()\<close> gave, and the phases the retry loop has run
  with their inputs and outputs.
\<close>

text \<open>
  An engine's \<open>start()\<close> resolves or rejects with an error object from outside the
  runner, \<open>Rejected n\<close> standing for the object \<open>Thrown n\<close>; the storage engine resolves
  with \<open>{syncRequired, fileSyncRequired}\<close>.
\<close>

datatype 'a promise = Resolved 'a | Rejected nat

record storage_results =
  syncRequired :: bool
  fileSyncRequired :: bool

datatype engine_event =
    DataRun libraryID "unit promise"
  | StorageRun libraryID "storage_results promise"
  | FullTextRun libraryID "unit promise"

text \<open>
  A phase the retry loop has run: the value of \<open>attempt\<close>, the libraries passed in and the
  libraries returned.
\<close>

datatype phase_call =
    DataPhase nat "libraryID list" "libraryID list"
  | FilePhase nat "libraryID list" "libraryID list"
  | FullTextPhase nat "libraryID list" "libraryID list"

text \<open>A group as the local database has it.\<close>

type_synonym groupID = int

record group =
  groupLibraryID :: libraryID
  groupVersion :: int
  groupName :: string

record runner =
  heap :: "ref \<Rightarrow> err"
  nextRef :: nat                                \<comment> \<open>the next object \<open>new\<close> creates\<close>
  errors :: "ref list"                          \<comment> \<open>\<open>_errors\<close>\<close>
  syncInProgress :: bool                        \<comment> \<open>\<open>_syncInProgress\<close>\<close>
  firstInSession :: bool                        \<comment> \<open>\<open>_firstInSession\<close>\<close>
  lastSyncStatus :: "string option"             \<comment> \<open>\<open>_lastSyncStatus\<close>\<close>
  storageControllers :: "string \<rightharpoonup> nat"        \<comment> \<open>\<open>_storageControllers\<close>\<close>
  nextController :: nat
  callerStopped :: bool                         \<comment> \<open>\<open>this.caller.stop()\<close> was called\<close>
  lastSyncTimeUpdates :: nat                    \<comment> \<open>calls of \<open>updateLastSyncTime()\<close>\<close>
  logged :: "ref list"                          \<comment> \<open>\<open>Zotero.logError(e)\<close>\<close>
  classified :: "ref list"                      \<comment> \<open>\<open>this.checkError(e)\<close>\<close>
  sunk :: "ref list"                            \<comment> \<open>the caller's \<open>options.onError(e)\<close>\<close>
  icons :: "(string option \<times> ref list) list"   \<comment> \<open>\<open>updateIcons\<close>: the state shown and the errors\<close>
  tick :: nat                                   \<comment> \<open>engines and dialogs run so far\<close>
  engineLog :: "engine_event list"
  phaseLog :: "phase_call list"
  localGroups :: "(groupID \<times> group) list"      \<comment> \<open>\<open>Zotero.Groups\<close>, in the order of \<open>getAll()\<close>\<close>
  finished :: "libraryID list list"             \<comment> \<open>\<open>Zotero.Notifier.trigger('finish', 'sync', ...)\<close>\<close>

definition alloc :: "err \<Rightarrow> runner \<Rightarrow> ref \<times> runner" where
  "alloc e s =
     (Created (nextRef s),
      s\<lparr>heap := (heap s)(Created (nextRef s) := e), nextRef := Suc (nextRef s)\<rparr>)"

definition blank_err :: err where
  "blank_err = \<lparr>cls = PlainError, message = [], added = False, libraryID = None,
     parsed = False, errorType = None, fatal = False, frontWindowOnly = False,
     dialogButtonText = ButtonUndefined\<rparr>"

section \<open>The error aggregator\<close>

text \<open>JavaScript truthiness of a string-or-undefined and of a library ID.\<close>

fun truthy_str :: "string option \<Rightarrow> bool" where
  "truthy_str None = False"
| "truthy_str (Some t) = (t \<noteq> [])"

fun truthy_lib :: "libraryID option \<Rightarrow> bool" where
  "truthy_lib None = False"
| "truthy_lib (Some n) = (n \<noteq> 0)"

text \<open>
  \<^verbatim>\<open>
  this.parseError = function (e) {
      if (!e) { return { parsed: true }; }
      if (e.parsed) { return e; }
      e.parsed = true;
      e.errorType = e.errorType ? e.errorType : 'error';
      return e;
  }
  \<close>
\<close>

definition parseError :: "ref option \<Rightarrow> runner \<Rightarrow> ref \<times> runner" where
  "parseError e s =
     (case e of
        None \<Rightarrow> alloc (blank_err\<lparr>parsed := True\<rparr>) s
      | Some r \<Rightarrow>
          if parsed (heap s r) then (r, s)
          else (r, s\<lparr>heap := (heap s)(r := (heap s r)\<lparr>parsed := True,
                  errorType := (if truthy_str (errorType (heap s r)) then errorType (heap s r)
                                else Some ''error'')\<rparr>)\<rparr>))"

text \<open>
  \<^verbatim>\<open>
  this.addError = function (e, libraryID) {
      if (e.added) return;
      e.added = true;
      if (libraryID) { e.libraryID = libraryID; }
      Zotero.logError(e);
      _errors.push(this.parseError(e));
  }
  \<close>
\<close>

definition addError :: "ref \<Rightarrow> libraryID option \<Rightarrow> runner \<Rightarrow> runner" where
  "addError e lib s =
     (if added (heap s e) then s
      else
        let s1 = s\<lparr>heap := (heap s)(e := (heap s e)\<lparr>added := True\<rparr>)\<rparr>;
            s2 = (if truthy_lib lib
                  then s1\<lparr>heap := (heap s1)(e := (heap s1 e)\<lparr>libraryID := lib\<rparr>)\<rparr>
                  else s1);
            s3 = s2\<lparr>logged := logged s2 @ [e]\<rparr>;
            (p, s4) = parseError (Some e) s3
        in s4\<lparr>errors := errors s4 @ [p]\<rparr>)"

text \<open>
  \<^verbatim>\<open>
  this.getErrorsByLibrary = function (libraryID) {
      return _errors.filter(e => e.libraryID === libraryID);
  }
  \<close>
\<close>

definition getErrorsByLibrary :: "libraryID option \<Rightarrow> runner \<Rightarrow> ref list" where
  "getErrorsByLibrary lib s = filter (\<lambda>e. libraryID (heap s e) = lib) (errors s)"

text \<open>
  The label \<open>updateErrorPanel\<close> puts over an error: none when \<open>e.libraryID\<close> is undefined,
  the user library's name when it is 0, the group's name otherwise.
  \<^verbatim>\<open>
  if (e.libraryID !== undefined) {
      label.className = "zotero-sync-error-panel-library-name";
      if (e.libraryID == 0) { var libraryName = Zotero.getString('pane.collections.library'); }
      else { let group = Zotero.Groups.getByLibraryID(e.libraryID); var libraryName = group.name; }
      label.setAttribute('value', libraryName);
  }
  \<close>
\<close>

datatype panel_label = NoLabel | UserLibraryLabel | GroupLabel libraryID

definition panelLibraryLabel :: "err \<Rightarrow> panel_label" where
  "panelLibraryLabel e =
     (case libraryID e of
        None \<Rightarrow> NoLabel
      | Some n \<Rightarrow> if n = 0 then UserLibraryLabel else GroupLabel n)"

subsection \<open>Severity of a list of errors\<close>

text \<open>
  \<^verbatim>\<open>
  var errorTypes = { info: 1, warning: 2, error: 3, upgrade: 4, animate: -1 };
  \<close>
  A name that is not in the table reads as \<open>undefined\<close>, which compares false both ways.
\<close>

definition errorTypes :: "string \<rightharpoonup> int" where
  "errorTypes =
     [''info'' \<mapsto> 1, ''warning'' \<mapsto> 2, ''error'' \<mapsto> 3, ''upgrade'' \<mapsto> 4, ''animate'' \<mapsto> - 1]"

fun js_lt :: "int option \<Rightarrow> int option \<Rightarrow> bool" where
  "js_lt (Some a) (Some b) = (a < b)"
| "js_lt _ _ = False"

fun js_gt :: "int option \<Rightarrow> int option \<Rightarrow> bool" where
  "js_gt (Some a) (Some b) = (a > b)"
| "js_gt _ _ = False"

definition lookupType :: "string option \<Rightarrow> int option" where
  "lookupType t = (case t of None \<Rightarrow> None | Some n \<Rightarrow> errorTypes n)"

text \<open>
  \<^verbatim>\<open>
  var state = false;
  for (let i = 0; i < errors.length; i++) {
      let e = errors[i];
      let errorType = e.errorType;
      if (e.fatal) { return 'error'; }
      if (!errorType || errorTypes[errorType] < 0) { continue; }
      if (!state || errorTypes[errorType] > errorTypes[state]) { state = errorType; }
  }
  return state;
  \<close>
  The result \<open>false\<close> is \<open>None\<close>.
\<close>

fun primaryLoop :: "string option \<Rightarrow> err list \<Rightarrow> string option" where
  "primaryLoop state [] = state"
| "primaryLoop state (e # es) =
     (if fatal e then Some ''error''
      else if \<not> truthy_str (errorType e) \<or> js_lt (lookupType (errorType e)) (Some 0)
        then primaryLoop state es
      else if \<not> truthy_str state \<or> js_gt (lookupType (errorType e)) (lookupType state)
        then primaryLoop (errorType e) es
      else primaryLoop state es)"

definition getPrimaryErrorType :: "err list \<Rightarrow> string option" where
  "getPrimaryErrorType errs = primaryLoop None errs"

text \<open>
  The specification's \<open>primarySeverity\<close>, in its own words: the precedence
  \<open>info(1) < warning(2) < error(3) < upgrade(4)\<close>, \<open>animate\<close> outside it; a fatal error
  anywhere gives the highest severity, otherwise the maximum, or \<open>false\<close> when nothing
  contributes.
\<close>

definition precedence :: "string option \<Rightarrow> nat" where
  "precedence t =
     (if t = Some ''info'' then 1 else if t = Some ''warning'' then 2
      else if t = Some ''error'' then 3 else if t = Some ''upgrade'' then 4 else 0)"

definition severityOfRank :: "nat \<Rightarrow> string option" where
  "severityOfRank n =
     (if n = 1 then Some ''info'' else if n = 2 then Some ''warning''
      else if n = 3 then Some ''error'' else if n = 4 then Some ''upgrade'' else None)"

definition maxPrecedence :: "err list \<Rightarrow> nat" where
  "maxPrecedence errs = foldr (\<lambda>e m. max (precedence (errorType e)) m) errs 0"

definition highestSeverity :: "string option" where
  "highestSeverity = severityOfRank 4"

definition primarySeverity_spec :: "err list \<Rightarrow> string option" where
  "primarySeverity_spec errs =
     (if list_ex fatal errs then highestSeverity else severityOfRank (maxPrecedence errs))"

text \<open>The error types of the data model: one of the five names, or none.\<close>

definition knownType :: "string option \<Rightarrow> bool" where
  "knownType t \<longleftrightarrow> t = None \<or> t = Some ''info'' \<or> t = Some ''warning'' \<or> t = Some ''error''
     \<or> t = Some ''upgrade'' \<or> t = Some ''animate''"

section \<open>The engines and the world outside the runner\<close>

text \<open>
  The data, storage and full-text engines, the preferences and the dialogs are outside
  \<open>syncRunner.js\<close>. What the \<open>n\<close>-th engine started does is given by the world, so an
  engine may answer differently each time it is run for the same library.
\<close>

text \<open>
  The key information of the API (\<open>client.getKeyInfo()\<close>), whose fields may be missing, and
  the access grant in it: \<open>access.user && access.user.library\<close>, and \<open>access.groups\<close> as
  the list of its keys, each with the truthiness of its value (\<open>None\<close> when absent).
\<close>

record access =
  userLibraryAccess :: bool
  groupAccess :: "(string \<times> bool) list option"

record keyInfo =
  userID :: int
  username :: string
  access :: access

record key_json =
  jsonUserID :: "int option"
  jsonUsername :: "string option"
  jsonAccess :: "access option"

record group_info =
  infoVersion :: int
  infoName :: string

datatype library_type = UserLibrary | PublicationsLibrary | GroupLibrary | OtherLibrary

record world =
  dataEngine :: "nat \<Rightarrow> libraryID \<Rightarrow> unit promise"
  storageEngine :: "nat \<Rightarrow> libraryID \<Rightarrow> storage_results promise"
  fullTextEngine :: "nat \<Rightarrow> libraryID \<Rightarrow> unit promise"
  fulltextEnabled :: bool                 \<comment> \<open>\<open>Zotero.Prefs.get("sync.fulltext.enabled")\<close>\<close>
  modeForLibrary :: "libraryID \<Rightarrow> string"  \<comment> \<open>\<open>Zotero.Sync.Storage.Local.getModeForLibrary\<close>\<close>
  ERROR_API_KEY_NOT_SET :: int            \<comment> \<open>\<open>Zotero.Error.ERROR_API_KEY_NOT_SET\<close>\<close>
  ERROR_API_KEY_INVALID :: int            \<comment> \<open>\<open>Zotero.Error.ERROR_API_KEY_INVALID\<close>\<close>
  longTagFixed :: "nat \<Rightarrow> bool"           \<comment> \<open>the long tag fixer ran to its end\<close>
  apiKey :: "string option"               \<comment> \<open>\<open>_apiKey || Zotero.Sync.Data.Local.getAPIKey()\<close>\<close>
  getKeyInfo :: "nat \<Rightarrow> key_json option promise"
  currentUserID :: "int option"           \<comment> \<open>\<open>Zotero.Users.getCurrentUserID()\<close>\<close>
  userLibraryHasItems :: bool
  feedCount :: nat                        \<comment> \<open>\<open>Zotero.Feeds.getAll().length\<close>\<close>
  resetDataDir :: bool                    \<comment> \<open>\<open>Zotero.resetDataDir\<close>\<close>
  confirmEx :: "nat \<Rightarrow> nat"              \<comment> \<open>the button chosen in the \<open>n\<close>-th dialog\<close>
  checkUser :: "nat \<Rightarrow> bool"              \<comment> \<open>\<open>Zotero.Sync.Data.Local.checkUser\<close>\<close>
  userLibraryID :: libraryID
  publicationsLibraryID :: libraryID
  skippedLibraries :: "libraryID list"    \<comment> \<open>\<open>Zotero.Sync.Data.Local.getSkippedLibraries()\<close>\<close>
  skippedGroups :: "groupID list"         \<comment> \<open>\<open>Zotero.Sync.Data.Local.getSkippedGroups()\<close>\<close>
  libraryType :: "libraryID \<Rightarrow> library_type"
  groupIDFromLibraryID :: "libraryID \<Rightarrow> groupID"
  getGroupVersions :: "nat \<Rightarrow> (groupID \<times> int) list promise"
  getGroup :: "nat \<Rightarrow> groupID \<Rightarrow> group_info option promise"
  checkLibraryForAccess :: "nat \<Rightarrow> libraryID \<Rightarrow> bool"
  newGroupLibraryID :: "groupID \<Rightarrow> libraryID"  \<comment> \<open>the library a new group gets when saved\<close>

text \<open>\<open>const stopOnError = false;\<close>\<close>

definition stopOnError :: bool where
  "stopOnError = False"

subsection \<open>Classifying an error\<close>

text \<open>
  \<open>checkError(e, options = {})\<close> reads \<open>options.background\<close> and, in the callback of the
  long tag fixer, \<open>options.libraries\<close>; the callback ends with
  \<open>options.restartSync = true\<close> unless a dialog was cancelled.
  \<^verbatim>\<open>
  if (e.name && e.name == 'Zotero Error') {
      switch (e.error) {
          case Zotero.Error.ERROR_API_KEY_NOT_SET:
          case Zotero.Error.ERROR_API_KEY_INVALID:
              var msg = Zotero.getString('sync.error.invalidLogin.text');
              e.message = msg;
              e.dialogButtonText = Zotero.getString('sync.openSyncPreferences');
              e.dialogButtonCallback = ...;
              if (!options.background) { setTimeout(..., 1); }
              break;
      }
  }
  else if (e.name && e.name == 'ZoteroObjectUploadError') {
      if (e.code == 413 && e.data && e.data.tag !== undefined) {
          e.dialogButtonText = Zotero.getString('general.fix');
          e.dialogButtonCallback = Zotero.Promise.coroutine(function* () {
              ...
              var editableLibraries = options.libraries.filter(...);
              ...
              options.restartSync = true;
          });
          if (!options.background) { yield e.dialogButtonCallback(); }
      }
  }
  \<close>
  The result says whether the call failed (\<open>options.libraries\<close> undefined in the callback,
  a \<open>TypeError\<close>) and whether \<open>options.restartSync\<close> was set.
\<close>

record check_options =
  chk_background :: bool
  chk_libraries :: "libraryID list option"

datatype check_result = CheckDone bool | CheckTypeError

definition checkError :: "world \<Rightarrow> ref \<Rightarrow> check_options \<Rightarrow> runner \<Rightarrow> check_result \<times> runner" where
  "checkError w e options s =
     (let s0 = s\<lparr>classified := classified s @ [e]\<rparr> in
      case cls (heap s0 e) of
        ZoteroError code \<Rightarrow>
          if code = ERROR_API_KEY_NOT_SET w \<or> code = ERROR_API_KEY_INVALID w
          then (CheckDone False,
                s0\<lparr>heap := (heap s0)(e := (heap s0 e)\<lparr>message := ''sync.error.invalidLogin.text'',
                       dialogButtonText := ButtonText ''sync.openSyncPreferences''\<rparr>)\<rparr>)
          else (CheckDone False, s0)
      | ZoteroObjectUploadError code tag \<Rightarrow>
          if code = 413 \<and> tag
          then
            let s1 = s0\<lparr>heap := (heap s0)(e := (heap s0 e)\<lparr>dialogButtonText :=
                        ButtonText ''general.fix''\<rparr>)\<rparr>
            in if chk_background options then (CheckDone False, s1)
               else (case chk_libraries options of
                       None \<Rightarrow> (CheckTypeError, s1)
                     | Some _ \<Rightarrow> (CheckDone (longTagFixed w (tick s1)), s1\<lparr>tick := Suc (tick s1)\<rparr>))
          else (CheckDone False, s0)
      | _ \<Rightarrow> (CheckDone False, s0))"

text \<open>The phases call \<open>this.checkError(e)\<close> with no options and do not wait for it.\<close>

definition checkError_unawaited :: "world \<Rightarrow> ref \<Rightarrow> runner \<Rightarrow> runner" where
  "checkError_unawaited w e s =
     snd (checkError w e \<lparr>chk_background = False, chk_libraries = None\<rparr> s)"

subsection \<open>Options of a session and of the engines\<close>

record sync_options =
  background :: bool
  libraries :: "libraryID list option"
  hasOnError :: bool                      \<comment> \<open>the caller gave \<open>options.onError\<close>\<close>
  restartSync :: bool
  optFirstInSession :: bool               \<comment> \<open>\<open>options.firstInSession\<close>\<close>

text \<open>
  \<^verbatim>\<open>
  onError: function (e) {
      if (options.onError) { options.onError(e); }
      else { this.addError(e); }
  }.bind(this),
  \<close>
\<close>

definition engineOnError :: "sync_options \<Rightarrow> ref \<Rightarrow> runner \<Rightarrow> runner" where
  "engineOnError options e s =
     (if hasOnError options then s\<lparr>sunk := sunk s @ [e]\<rparr> else addError e None s)"

record engineOptions =
  onError :: "ref \<Rightarrow> runner \<Rightarrow> runner"
  eoBackground :: bool
  eoFirstInSession :: bool

text \<open>
  \<^verbatim>\<open>
  let engineOptions = {
      apiClient: client,
      caller: this.caller,
      setStatus: this.setSyncStatus.bind(this),
      stopOnError,
      onError: ...,
      background: !!options.background,
      firstInSession: _firstInSession
  };
  \<close>
\<close>

definition engineOptionsOf :: "sync_options \<Rightarrow> runner \<Rightarrow> engineOptions" where
  "engineOptionsOf options s =
     \<lparr>onError = engineOnError options, eoBackground = background options,
      eoFirstInSession = firstInSession s\<rparr>"

text \<open>
  The handler the three phases share word for word once an engine has failed:
  \<^verbatim>\<open>
  Zotero.logError(e);
  this.checkError(e);
  options.onError(e);
  if (stopOnError || e.fatal) {
      options.caller.stop();
      break;
  }
  \<close>
  The result says whether the loop over the libraries is left.
\<close>

definition engineFailed :: "world \<Rightarrow> engineOptions \<Rightarrow> ref \<Rightarrow> runner \<Rightarrow> bool \<times> runner" where
  "engineFailed w options e s =
     (let s1 = s\<lparr>logged := logged s @ [e]\<rparr>;
          s2 = checkError_unawaited w e s1;
          s3 = onError options e s2
      in if stopOnError \<or> fatal (heap s3 e) then (True, s3\<lparr>callerStopped := True\<rparr>)
         else (False, s3))"

section \<open>The phase runners\<close>

subsection \<open>Data phase\<close>

text \<open>
  \<^verbatim>\<open>
  var successfulLibraries = [];
  for (let libraryID of libraries) {
      try {
          ...
          let engine = new Zotero.Sync.Data.Engine(opts);
          yield engine.start();
          successfulLibraries.push(libraryID);
      }
      catch (e) {
          if (e instanceof Zotero.Sync.UserCancelledException) {
              if (e.advanceToNextLibrary) { continue; }
              throw e;
          }
          ... the shared handler ...
      }
  }
  if (!libraries.length || successfulLibraries.length) {
      yield Zotero.Sync.Data.Local.updateLastSyncTime();
  }
  return successfulLibraries;
  \<close>
  \<open>Inl e\<close> is the exception \<open>e\<close> leaving the function.
\<close>

fun dataSyncLoop ::
  "world \<Rightarrow> engineOptions \<Rightarrow> libraryID list \<Rightarrow> libraryID list \<Rightarrow> runner
     \<Rightarrow> (ref + libraryID list) \<times> runner" where
  "dataSyncLoop w options [] successfulLibraries s = (Inr successfulLibraries, s)"
| "dataSyncLoop w options (lib # rest) successfulLibraries s =
     (let s1 = s\<lparr>tick := Suc (tick s),
                   engineLog := engineLog s @ [DataRun lib (dataEngine w (tick s) lib)]\<rparr> in
      case dataEngine w (tick s) lib of
        Resolved _ \<Rightarrow> dataSyncLoop w options rest (successfulLibraries @ [lib]) s1
      | Rejected n \<Rightarrow>
          (case cls (heap s1 (Thrown n)) of
             UserCancelledException advanceToNextLibrary \<Rightarrow>
               if advanceToNextLibrary then dataSyncLoop w options rest successfulLibraries s1
               else (Inl (Thrown n), s1)
           | _ \<Rightarrow>
               (case engineFailed w options (Thrown n) s1 of
                  (True, s2) \<Rightarrow> (Inr successfulLibraries, s2)
                | (False, s2) \<Rightarrow> dataSyncLoop w options rest successfulLibraries s2)))"

definition doDataSync ::
  "world \<Rightarrow> engineOptions \<Rightarrow> libraryID list \<Rightarrow> runner \<Rightarrow> (ref + libraryID list) \<times> runner" where
  "doDataSync w options libs s =
     (case dataSyncLoop w options libs [] s of
        (Inl e, s1) \<Rightarrow> (Inl e, s1)
      | (Inr successfulLibraries, s1) \<Rightarrow>
          (Inr successfulLibraries,
           if libs = [] \<or> successfulLibraries \<noteq> []
           then s1\<lparr>lastSyncTimeUpdates := Suc (lastSyncTimeUpdates s1)\<rparr> else s1))"

subsection \<open>File phase\<close>

text \<open>
  \<^verbatim>\<open>
  this.getStorageController = function (mode, options) {
      if (_storageControllers[mode]) { return _storageControllers[mode]; }
      var modeClass = Zotero.Sync.Storage.Utilities.getClassForMode(mode);
      return _storageControllers[mode] = new modeClass(options);
  }
  \<close>
\<close>

definition getStorageController :: "string \<Rightarrow> runner \<Rightarrow> nat \<times> runner" where
  "getStorageController mode s =
     (case storageControllers s mode of
        Some c \<Rightarrow> (c, s)
      | None \<Rightarrow> (nextController s,
                 s\<lparr>storageControllers := (storageControllers s)(mode \<mapsto> nextController s),
                   nextController := Suc (nextController s)\<rparr>))"

text \<open>
  A library ID is an integer, and \<open>"..." + libraryID\<close> appends its decimal digits, with a
  minus sign when it is negative.
\<close>

fun digits :: "nat \<Rightarrow> string" where
  "digits n =
     (if n < 10 then [''0123456789'' ! n]
      else digits (n div 10) @ [''0123456789'' ! (n mod 10)])"

declare digits.simps [simp del]

definition numberToString :: "int \<Rightarrow> string" where
  "numberToString i = (if i < 0 then CHR ''-'' # digits (nat (- i)) else digits (nat i))"

text \<open>
  The inner loop of one library, \<open>tries\<close> being the budget left:
  \<^verbatim>\<open>
  let tries = 3;
  while (true) {
      if (tries == 0) {
          throw new Error("Too many file sync attempts for library " + libraryID);
      }
      tries--;
      let engine = new Zotero.Sync.Storage.Engine(opts);
      let results = yield engine.start();
      if (results.syncRequired) { resyncLibraries.push(libraryID); }
      else if (results.fileSyncRequired) { continue; }
      break;
  }
  \<close>
  \<open>Inr True\<close> says that the library was pushed onto \<open>resyncLibraries\<close>.
\<close>

fun fileSyncTries :: "world \<Rightarrow> nat \<Rightarrow> libraryID \<Rightarrow> runner \<Rightarrow> (ref + bool) \<times> runner" where
  "fileSyncTries w 0 lib s =
     (case alloc (blank_err\<lparr>message :=
              ''Too many file sync attempts for library '' @ numberToString lib\<rparr>) s of
        (e, s1) \<Rightarrow> (Inl e, s1))"
| "fileSyncTries w (Suc tries) lib s =
     (let s1 = s\<lparr>tick := Suc (tick s),
                   engineLog := engineLog s @ [StorageRun lib (storageEngine w (tick s) lib)]\<rparr> in
      case storageEngine w (tick s) lib of
        Rejected n \<Rightarrow> (Inl (Thrown n), s1)
      | Resolved results \<Rightarrow>
          if syncRequired results then (Inr True, s1)
          else if fileSyncRequired results then fileSyncTries w tries lib s1
          else (Inr False, s1))"

text \<open>
  \<^verbatim>\<open>
  this.setSyncStatus(Zotero.getString('sync.status.syncingFiles'));
  var resyncLibraries = []
  for (let libraryID of libraries) {
      try {
          ...
          let mode = Zotero.Sync.Storage.Local.getModeForLibrary(libraryID);
          opts.controller = this.getStorageController(mode, opts);
          let tries = 3;
          while (true) { ... }
      }
      catch (e) { ... the shared handler ... }
  }
  return resyncLibraries;
  \<close>
\<close>

fun fileSyncLoop ::
  "world \<Rightarrow> engineOptions \<Rightarrow> libraryID list \<Rightarrow> libraryID list \<Rightarrow> runner
     \<Rightarrow> libraryID list \<times> runner" where
  "fileSyncLoop w options [] resyncLibraries s = (resyncLibraries, s)"
| "fileSyncLoop w options (lib # rest) resyncLibraries s =
     (let s1 = snd (getStorageController (modeForLibrary w lib) s) in
      case fileSyncTries w 3 lib s1 of
        (Inr pushed, s2) \<Rightarrow>
          fileSyncLoop w options rest
            (if pushed then resyncLibraries @ [lib] else resyncLibraries) s2
      | (Inl e, s2) \<Rightarrow>
          (case engineFailed w options e s2 of
             (True, s3) \<Rightarrow> (resyncLibraries, s3)
           | (False, s3) \<Rightarrow> fileSyncLoop w options rest resyncLibraries s3))"

definition doFileSync ::
  "world \<Rightarrow> engineOptions \<Rightarrow> libraryID list \<Rightarrow> runner \<Rightarrow> libraryID list \<times> runner" where
  "doFileSync w options libs s =
     fileSyncLoop w options libs [] (s\<lparr>lastSyncStatus := Some ''sync.status.syncingFiles''\<rparr>)"

subsection \<open>Full-text phase\<close>

text \<open>
  \<^verbatim>\<open>
  if (!Zotero.Prefs.get("sync.fulltext.enabled")) return [];
  this.setSyncStatus(Zotero.getString('sync.status.syncingFullText'));
  var resyncLibraries = [];
  for (let libraryID of libraries) {
      try {
          ...
          let engine = new Zotero.Sync.Data.FullTextEngine(opts);
          yield engine.start();
      }
      catch (e) {
          if (e instanceof Zotero.HTTP.UnexpectedStatusException && e.status == 412) {
              resyncLibraries.push(libraryID);
              continue;
          }
          ... the shared handler ...
      }
  }
  return resyncLibraries;
  \<close>
\<close>

definition isPreconditionFailed :: "err \<Rightarrow> bool" where
  "isPreconditionFailed e =
     (case cls e of UnexpectedStatusException status \<Rightarrow> status = 412 | _ \<Rightarrow> False)"

fun fullTextSyncLoop ::
  "world \<Rightarrow> engineOptions \<Rightarrow> libraryID list \<Rightarrow> libraryID list \<Rightarrow> runner
     \<Rightarrow> libraryID list \<times> runner" where
  "fullTextSyncLoop w options [] resyncLibraries s = (resyncLibraries, s)"
| "fullTextSyncLoop w options (lib # rest) resyncLibraries s =
     (let s1 = s\<lparr>tick := Suc (tick s),
                   engineLog := engineLog s @ [FullTextRun lib (fullTextEngine w (tick s) lib)]\<rparr> in
      case fullTextEngine w (tick s) lib of
        Resolved _ \<Rightarrow> fullTextSyncLoop w options rest resyncLibraries s1
      | Rejected n \<Rightarrow>
          if isPreconditionFailed (heap s1 (Thrown n))
          then fullTextSyncLoop w options rest (resyncLibraries @ [lib]) s1
          else (case engineFailed w options (Thrown n) s1 of
                  (True, s2) \<Rightarrow> (resyncLibraries, s2)
                | (False, s2) \<Rightarrow> fullTextSyncLoop w options rest resyncLibraries s2))"

definition doFullTextSync ::
  "world \<Rightarrow> engineOptions \<Rightarrow> libraryID list \<Rightarrow> runner \<Rightarrow> libraryID list \<times> runner" where
  "doFullTextSync w options libs s =
     (if \<not> fulltextEnabled w then ([], s)
      else fullTextSyncLoop w options libs []
             (s\<lparr>lastSyncStatus := Some ''sync.status.syncingFullText''\<rparr>))"


text \<open>
  A sequence of \<open>addError\<close> calls, and what holds of the queue throughout: no object is
  queued twice, and every queued object is marked.
\<close>

definition addErrors :: "(ref \<times> libraryID option) list \<Rightarrow> runner \<Rightarrow> runner" where
  "addErrors calls s = fold (\<lambda>(e, lib). addError e lib) calls s"

definition queueInv :: "runner \<Rightarrow> bool" where
  "queueInv s \<longleftrightarrow> distinct (errors s) \<and> (\<forall>e \<in> set (errors s). added (heap s e))"

text \<open>
  The closure variables as \<open>Runner_Module\<close> initialises them (\<open>_firstInSession = true\<close>,
  \<open>_syncInProgress = false\<close>, \<open>_errors = []\<close>, \<open>_storageControllers = {}\<close>), with a store
  of unmarked objects.
\<close>

definition init_runner :: runner where
  "init_runner = \<lparr>heap = (\<lambda>_. blank_err), nextRef = 0, errors = [], syncInProgress = False,
     firstInSession = True, lastSyncStatus = None, storageControllers = Map.empty,
     nextController = 0, callerStopped = False, lastSyncTimeUpdates = 0, logged = [],
     classified = [], sunk = [], icons = [], tick = 0, engineLog = [], phaseLog = [],
     localGroups = [], finished = []\<rparr>"

section \<open>Observing a phase\<close>

text \<open>
  The engines a phase has started are the entries it has added to the log; the libraries
  whose data engine completed are those whose \<open>start()\<close> resolved.
\<close>

definition newEvents :: "runner \<Rightarrow> runner \<Rightarrow> engine_event list" where
  "newEvents s s' = drop (length (engineLog s)) (engineLog s')"

fun dataCompleted :: "engine_event list \<Rightarrow> libraryID list" where
  "dataCompleted [] = []"
| "dataCompleted (DataRun lib (Resolved _) # evs) = lib # dataCompleted evs"
| "dataCompleted (_ # evs) = dataCompleted evs"

text \<open>
  The kind of engine an entry of the log stands for, and the error object its \<open>start()\<close>
  was rejected with, if it was; a rejection is fatal when that object has \<open>e.fatal\<close> set.
\<close>

datatype engine = DataEngine | StorageEngine | FullTextEngine

fun eventEngine :: "engine_event \<Rightarrow> engine" where
  "eventEngine (DataRun _ _) = DataEngine"
| "eventEngine (StorageRun _ _) = StorageEngine"
| "eventEngine (FullTextRun _ _) = FullTextEngine"

fun eventError :: "engine_event \<Rightarrow> ref option" where
  "eventError (DataRun lib (Rejected n)) = Some (Thrown n)"
| "eventError (StorageRun lib (Rejected n)) = Some (Thrown n)"
| "eventError (FullTextRun lib (Rejected n)) = Some (Thrown n)"
| "eventError _ = None"

definition fatalRejection :: "(ref \<Rightarrow> err) \<Rightarrow> engine_event \<Rightarrow> bool" where
  "fatalRejection h ev = (case eventError ev of Some e \<Rightarrow> fatal (h e) | None \<Rightarrow> False)"

text \<open>
  A stretch of the log in which no engine was rejected with a fatal error. Two states in
  which every error object from outside has the same class and the same \<open>fatal\<close> flag;
  the libraries whose data engine was rejected.
\<close>

definition noFatal :: "runner \<Rightarrow> engine_event list \<Rightarrow> bool" where
  "noFatal s evs \<longleftrightarrow> (\<forall>ev \<in> set evs. \<not> fatalRejection (heap s) ev)"

definition sameThrown :: "runner \<Rightarrow> runner \<Rightarrow> bool" where
  "sameThrown s s' \<longleftrightarrow>
     (\<forall>k. cls (heap s' (Thrown k)) = cls (heap s (Thrown k))
          \<and> fatal (heap s' (Thrown k)) = fatal (heap s (Thrown k)))"

fun dataRejected :: "engine_event list \<Rightarrow> libraryID list" where
  "dataRejected [] = []"
| "dataRejected (DataRun lib (Rejected n) # evs) = lib # dataRejected evs"
| "dataRejected (_ # evs) = dataRejected evs"

text \<open>Worlds, states and options to run the phases on.\<close>

definition quiet_world :: world where
  "quiet_world = \<lparr>dataEngine = (\<lambda>_ _. Resolved ()),
     storageEngine = (\<lambda>_ _. Resolved \<lparr>syncRequired = False, fileSyncRequired = False\<rparr>),
     fullTextEngine = (\<lambda>_ _. Resolved ()), fulltextEnabled = True,
     modeForLibrary = (\<lambda>_. ''zfs''), ERROR_API_KEY_NOT_SET = 1, ERROR_API_KEY_INVALID = 2,
     longTagFixed = (\<lambda>_. False), apiKey = Some ''key'',
     getKeyInfo = (\<lambda>_. Resolved (Some \<lparr>jsonUserID = Some 1, jsonUsername = Some ''user'',
        jsonAccess = Some \<lparr>userLibraryAccess = True, groupAccess = None\<rparr>\<rparr>)),
     currentUserID = Some 1, userLibraryHasItems = True, feedCount = 0, resetDataDir = False,
     confirmEx = (\<lambda>_. 0), checkUser = (\<lambda>_. True), userLibraryID = 1,
     publicationsLibraryID = 2, skippedLibraries = [], skippedGroups = [],
     libraryType = (\<lambda>l. if l = 1 then UserLibrary else if l = 2 then PublicationsLibrary
        else GroupLibrary),
     groupIDFromLibraryID = (\<lambda>l. l), getGroupVersions = (\<lambda>_. Resolved []),
     getGroup = (\<lambda>_ _. Resolved None), checkLibraryForAccess = (\<lambda>_ _. True),
     newGroupLibraryID = (\<lambda>g. g)\<rparr>"

definition plainOptions :: sync_options where
  "plainOptions = \<lparr>background = False, libraries = None, hasOnError = False,
     restartSync = False, optFirstInSession = False\<rparr>"

text \<open>
  The second data engine started is cancelled by the user, with no
  \<open>advanceToNextLibrary\<close>.
\<close>

definition cancelWorld :: world where
  "cancelWorld =
     quiet_world\<lparr>dataEngine := (\<lambda>n lib. if n = 1 then Rejected 0 else Resolved ())\<rparr>"

definition cancelState :: runner where
  "cancelState =
     init_runner\<lparr>heap := (heap init_runner)
                    (Thrown 0 := blank_err\<lparr>cls := UserCancelledException False\<rparr>),
                 syncInProgress := True\<rparr>"

section \<open>Observing the full-text phase\<close>

text \<open>
  The library an engine was started for; the rejections of the full-text engines in a
  stretch of the log; among them the libraries whose engine was rejected with status 412,
  and the error objects of every other rejection.
\<close>

fun eventLibrary :: "engine_event \<Rightarrow> libraryID" where
  "eventLibrary (DataRun lib _) = lib"
| "eventLibrary (StorageRun lib _) = lib"
| "eventLibrary (FullTextRun lib _) = lib"

fun fullTextRejected :: "engine_event list \<Rightarrow> (libraryID \<times> ref) list" where
  "fullTextRejected [] = []"
| "fullTextRejected (FullTextRun lib (Rejected n) # evs) = (lib, Thrown n) # fullTextRejected evs"
| "fullTextRejected (_ # evs) = fullTextRejected evs"

definition fullTextResync :: "runner \<Rightarrow> engine_event list \<Rightarrow> libraryID list" where
  "fullTextResync s evs =
     map fst (filter (\<lambda>(lib, e). isPreconditionFailed (heap s e)) (fullTextRejected evs))"

definition fullTextHandled :: "runner \<Rightarrow> engine_event list \<Rightarrow> ref list" where
  "fullTextHandled s evs =
     map snd (filter (\<lambda>(lib, e). \<not> isPreconditionFailed (heap s e)) (fullTextRejected evs))"

text \<open>
  What the error handlers do to the queue between two states, \<open>handled\<close> being the errors
  given to \<open>options.onError\<close> in between and \<open>sink\<close> saying that the caller takes them.
\<close>

definition queueStep :: "bool \<Rightarrow> ref list \<Rightarrow> runner \<Rightarrow> runner \<Rightarrow> bool" where
  "queueStep sink handled s s' \<longleftrightarrow>
     (\<forall>r. added (heap s r) \<longrightarrow> added (heap s' r))
     \<and> (\<forall>r. added (heap s' r) \<longrightarrow> added (heap s r) \<or> r \<in> set (errors s'))
     \<and> set (errors s) \<subseteq> set (errors s')
     \<and> set (errors s') \<subseteq> set (errors s) \<union> set handled
     \<and> (sink \<longrightarrow> errors s' = errors s)
     \<and> (\<not> sink \<longrightarrow> (\<forall>e \<in> set handled. added (heap s' e)))
     \<and> set (logged s') = set (logged s) \<union> set handled"

text \<open>
  A full-text pass over three libraries: the first engine is rejected with status 412, the
  second with an ordinary error, the third completes.
\<close>

definition fullTextWorld :: world where
  "fullTextWorld =
     quiet_world\<lparr>fullTextEngine :=
       (\<lambda>n lib. if n = 0 then Rejected 0 else if n = 1 then Rejected 1 else Resolved ())\<rparr>"

definition fullTextState :: runner where
  "fullTextState =
     init_runner\<lparr>heap := (heap init_runner)
                    (Thrown 0 := blank_err\<lparr>cls := UnexpectedStatusException 412\<rparr>),
                 syncInProgress := True\<rparr>"

section \<open>Observing the file phase\<close>

text \<open>
  A storage engine's result that asks for the file sync to be repeated (and not for a data
  sync); the libraries for which a result asked for another data sync; the error objects
  the storage engines were rejected with.
\<close>

definition repeatSignal :: "engine_event \<Rightarrow> bool" where
  "repeatSignal ev =
     (case ev of
        StorageRun lib (Resolved r) \<Rightarrow> \<not> syncRequired r \<and> fileSyncRequired r
      | _ \<Rightarrow> False)"

fun storageResync :: "engine_event list \<Rightarrow> libraryID list" where
  "storageResync [] = []"
| "storageResync (StorageRun lib (Resolved r) # evs) =
     (if syncRequired r then lib # storageResync evs else storageResync evs)"
| "storageResync (_ # evs) = storageResync evs"

fun storageRejected :: "engine_event list \<Rightarrow> ref list" where
  "storageRejected [] = []"
| "storageRejected (StorageRun lib (Rejected n) # evs) = Thrown n # storageRejected evs"
| "storageRejected (_ # evs) = storageRejected evs"

text \<open>
  A storage engine's result that asks for another data sync. The error thrown when the
  budget of a library is used up.
\<close>

definition dataSyncSignal :: "engine_event \<Rightarrow> bool" where
  "dataSyncSignal ev =
     (case ev of
        StorageRun lib (Resolved r) \<Rightarrow> syncRequired r
      | _ \<Rightarrow> False)"

definition fileSyncExhausted :: "libraryID \<Rightarrow> err" where
  "fileSyncExhausted lib =
     blank_err\<lparr>message := ''Too many file sync attempts for library '' @ numberToString lib\<rparr>"

text \<open>
  The storage engines started for one library, as the claim has them: at least one and at
  most three, all for that library; every result before the last asks for the file sync to
  be repeated; and a last result that still asks for it is the third.
\<close>

definition libraryRuns :: "libraryID \<Rightarrow> engine_event list \<Rightarrow> bool" where
  "libraryRuns lib evs \<longleftrightarrow>
     evs \<noteq> [] \<and> length evs \<le> 3
     \<and> (\<forall>ev \<in> set evs. eventEngine ev = StorageEngine \<and> eventLibrary ev = lib)
     \<and> (\<forall>ev \<in> set (butlast evs). repeatSignal ev)
     \<and> (repeatSignal (last evs) \<longrightarrow> length evs = 3)"

text \<open>
  The engines started in a file phase over \<open>libs\<close>, library by library: every library in
  turn has its engines, and the phase goes on to the next library unless the last engine
  was rejected with a fatal error, which ends it.
\<close>

fun fileRuns :: "(ref \<Rightarrow> err) \<Rightarrow> libraryID list \<Rightarrow> engine_event list list \<Rightarrow> bool" where
  "fileRuns h [] runs \<longleftrightarrow> runs = []"
| "fileRuns h (lib # libs) [] \<longleftrightarrow> False"
| "fileRuns h (lib # libs) (evs # runs) \<longleftrightarrow>
     libraryRuns lib evs
     \<and> (if fatalRejection h (last evs) then runs = [] else fileRuns h libs runs)"

text \<open>
  The libraries whose last result asked for another data sync. The errors the phase has to
  handle, each with its library, \<open>j\<close> being the next object \<open>new\<close> creates: the new error of
  a library whose last result still asked for a repeat, and the error object a last engine
  was rejected with.
\<close>

definition resyncRuns :: "engine_event list list \<Rightarrow> libraryID list" where
  "resyncRuns runs = map (eventLibrary \<circ> last) (filter (dataSyncSignal \<circ> last) runs)"

fun fileErrors :: "nat \<Rightarrow> engine_event list list \<Rightarrow> (libraryID \<times> ref) list" where
  "fileErrors j [] = []"
| "fileErrors j (evs # runs) =
     (if repeatSignal (last evs)
      then (eventLibrary (last evs), Created j) # fileErrors (Suc j) runs
      else case eventError (last evs) of
             Some e \<Rightarrow> (eventLibrary (last evs), e) # fileErrors j runs
           | None \<Rightarrow> fileErrors j runs)"

text \<open>
  A world in which the storage engine of library 1 always asks for the file sync to be
  repeated, and that of any other library asks for a data sync; and a state with a session
  in progress.
\<close>

definition exhaustWorld :: world where
  "exhaustWorld =
     quiet_world\<lparr>storageEngine :=
       (\<lambda>n lib. if lib = 1 then Resolved \<lparr>syncRequired = False, fileSyncRequired = True\<rparr>
                else Resolved \<lparr>syncRequired = True, fileSyncRequired = False\<rparr>)\<rparr>"

definition runningState :: runner where
  "runningState = init_runner\<lparr>syncInProgress := True\<rparr>"

section \<open>Resolving the libraries of a session\<close>

text \<open>\<open>throw new Error(msg)\<close>: a new error object leaves the function.\<close>

definition throwError :: "string \<Rightarrow> runner \<Rightarrow> (ref + 'a) \<times> runner" where
  "throwError msg s = (case alloc (blank_err\<lparr>message := msg\<rparr>) s of (e, s1) \<Rightarrow> (Inl e, s1))"

text \<open>
  Modelled from the spec: \<open>Zotero.Utilities.arrayDiff\<close> and \<open>Zotero.Utilities.isEmpty\<close> are
  not among the sources. The spec removes skip-listed and removed libraries from a list
  (the elements of the first array that are not in the second), and tells a group-access
  field that grants nothing (absent, or with no entry) from a non-empty one.
\<close>

definition arrayDiff :: "'a list \<Rightarrow> 'a list \<Rightarrow> 'a list" where
  "arrayDiff a b = filter (\<lambda>x. x \<notin> set b) a"

definition isEmpty :: "(string \<times> bool) list option \<Rightarrow> bool" where
  "isEmpty obj = (case obj of None \<Rightarrow> True | Some entries \<Rightarrow> entries = [])"

text \<open>\<open>access.groups.all\<close>, read where \<open>access.groups\<close> is not empty.\<close>

definition groupsAll :: "access \<Rightarrow> bool" where
  "groupsAll acc =
     (case groupAccess acc of None \<Rightarrow> False | Some entries \<Rightarrow> map_of entries ''all'' = Some True)"

text \<open>\<open>[...new Set(libraries)]\<close>: the first occurrence of each element, in order.\<close>

fun uniq :: "'a list \<Rightarrow> 'a list" where
  "uniq [] = []"
| "uniq (x # xs) = x # uniq (filter (\<lambda>y. y \<noteq> x) xs)"

text \<open>
  \<^verbatim>\<open>
  var syncAllLibraries = !libraries || !libraries.length;
  if (syncAllLibraries) {
      if (access.user && access.user.library) {
          libraries = [Zotero.Libraries.userLibraryID, Zotero.Libraries.publicationsLibraryID];
          libraries = Zotero.Utilities.arrayDiff(
              libraries, Zotero.Sync.Data.Local.getSkippedLibraries());
      }
  }
  else {
      for (let libraryID of libraries) {
          let type = Zotero.Libraries.get(libraryID).libraryType;
          if (type == 'user' || type == 'publications') {
              if (!access.user || !access.user.library) {
                  throw new Error("Key does not have access to library " + libraryID);
              }
          }
      }
  }
  \<close>
\<close>

definition checkUserAccess ::
  "world \<Rightarrow> access \<Rightarrow> libraryID list \<Rightarrow> runner \<Rightarrow> (ref + libraryID list) \<times> runner" where
  "checkUserAccess w acc libs s =
     (if libs = [] then
        (Inr (if userLibraryAccess acc
              then arrayDiff [userLibraryID w, publicationsLibraryID w] (skippedLibraries w)
              else libs), s)
      else if \<not> userLibraryAccess acc
              \<and> list_ex (\<lambda>l. libraryType w l = UserLibrary \<or> libraryType w l = PublicationsLibrary)
                    libs
      then throwError ''Key does not have access to library'' s
      else (Inr libs, s))"

text \<open>
  The loop over the remote groups, \<open>for (let gid in remoteGroupVersions)\<close>:
  \<^verbatim>\<open>
  let group = Zotero.Groups.get(id);
  if (syncAllLibraries) {
      if (!group || group.version < remoteGroupVersions[id]) { groupsToDownload.push(id); }
      else { libraries.push(group.libraryID); }
  }
  else {
      if (!group || libraries.indexOf(group.libraryID) == -1) { continue; }
      if (group.version < remoteGroupVersions[id]) { groupsToDownload.push(id); }
  }
  \<close>
\<close>

fun remoteGroupsLoop ::
  "bool \<Rightarrow> (groupID \<rightharpoonup> group) \<Rightarrow> (groupID \<times> int) list \<Rightarrow> groupID list \<times> libraryID list
     \<Rightarrow> groupID list \<times> libraryID list" where
  "remoteGroupsLoop syncAll get [] (groupsToDownload, libs) = (groupsToDownload, libs)"
| "remoteGroupsLoop syncAll get ((gid, version) # rest) (groupsToDownload, libs) =
     (case get gid of
        None \<Rightarrow>
          remoteGroupsLoop syncAll get rest
            (if syncAll then groupsToDownload @ [gid] else groupsToDownload, libs)
      | Some g \<Rightarrow>
          if syncAll then
            (if groupVersion g < version
             then remoteGroupsLoop syncAll get rest (groupsToDownload @ [gid], libs)
             else remoteGroupsLoop syncAll get rest (groupsToDownload, libs @ [groupLibraryID g]))
          else if groupLibraryID g \<notin> set libs
            then remoteGroupsLoop syncAll get rest (groupsToDownload, libs)
          else if groupVersion g < version
            then remoteGroupsLoop syncAll get rest (groupsToDownload @ [gid], libs)
          else remoteGroupsLoop syncAll get rest (groupsToDownload, libs))"

text \<open>
  The check of the group access, up to the groups that are missing remotely:
  \<^verbatim>\<open>
  if (!Zotero.Utilities.isEmpty(access.groups)) {
      // TEMP: Require all-group access for now
      if (access.groups.all) { }
      else { throw new Error("Full group access is currently required"); }
      let remoteGroupVersions = yield client.getGroupVersions(keyInfo.userID);
      let remoteGroupIDs = Object.keys(remoteGroupVersions).map(id => parseInt(id));
      let skippedGroups = Zotero.Sync.Data.Local.getSkippedGroups();
      if (syncAllLibraries) {
          let newGroups = Zotero.Utilities.arrayDiff(remoteGroupIDs, skippedGroups);
          Zotero.Utilities.arrayDiff(remoteGroupIDs, newGroups)
              .forEach(id => { delete remoteGroupVersions[id] });
          remoteGroupIDs = newGroups;
      }
      for (let id in remoteGroupVersions) { ... }
      let localGroups;
      if (syncAllLibraries) {
          localGroups = Zotero.Groups.getAll().map(g => g.id)
              .filter(id => skippedGroups.indexOf(id) == -1);
      }
      else {
          localGroups = libraries
              .filter(id => Zotero.Libraries.get(id).libraryType == 'group')
              .map(id => Zotero.Groups.getGroupIDFromLibraryID(id))
      }
      remotelyMissingGroups = Zotero.Utilities.arrayDiff(localGroups, remoteGroupIDs)
          .map(id => Zotero.Groups.get(id));
  }
  else { remotelyMissingGroups = Zotero.Groups.getAll(); }
  \<close>
  The result is \<open>remotelyMissingGroups\<close> (a group that \<open>Zotero.Groups.get\<close> does not find is
  \<open>None\<close>), \<open>groupsToDownload\<close> and \<open>libraries\<close>.
\<close>

definition checkGroupAccess ::
  "world \<Rightarrow> access \<Rightarrow> bool \<Rightarrow> libraryID list \<Rightarrow> runner
     \<Rightarrow> (ref + (groupID \<times> group option) list \<times> groupID list \<times> libraryID list) \<times> runner" where
  "checkGroupAccess w acc syncAll libs s =
     (if \<not> isEmpty (groupAccess acc) then
        if \<not> groupsAll acc then throwError ''Full group access is currently required'' s
        else
          let s1 = s\<lparr>tick := Suc (tick s)\<rparr> in
          case getGroupVersions w (tick s) of
            Rejected n \<Rightarrow> (Inl (Thrown n), s1)
          | Resolved versions \<Rightarrow>
              let remoteGroupVersions =
                    (if syncAll then filter (\<lambda>(gid, v). gid \<notin> set (skippedGroups w)) versions
                     else versions);
                  remoteGroupIDs = map fst remoteGroupVersions;
                  (groupsToDownload, libs1) =
                    remoteGroupsLoop syncAll (map_of (localGroups s1)) remoteGroupVersions ([], libs);
                  localGroupIDs =
                    (if syncAll
                     then filter (\<lambda>gid. gid \<notin> set (skippedGroups w)) (map fst (localGroups s1))
                     else map (groupIDFromLibraryID w)
                            (filter (\<lambda>l. libraryType w l = GroupLibrary) libs1));
                  remotelyMissingGroups =
                    map (\<lambda>gid. (gid, map_of (localGroups s1) gid))
                      (arrayDiff localGroupIDs remoteGroupIDs)
              in (Inr (remotelyMissingGroups, groupsToDownload, libs1), s1)
      else (Inr (map (\<lambda>(gid, g). (gid, Some g)) (localGroups s), [], libs), s))"

text \<open>
  The dialog for each group missing remotely:
  \<^verbatim>\<open>
  for (let group of remotelyMissingGroups) {
      ...
      let index = ps.confirmEx(...);
      if (index == 0) { removedGroups.push(group); }
      else if (index == 1) { Zotero.debug("Cancelling sync"); return []; }
      else if (index == 2) { }
  }
  \<close>
  \<open>None\<close> is the cancelled sync.
\<close>

fun promptMissingGroups ::
  "world \<Rightarrow> (groupID \<times> group option) list \<Rightarrow> (groupID \<times> group option) list \<Rightarrow> runner
     \<Rightarrow> (groupID \<times> group option) list option \<times> runner" where
  "promptMissingGroups w [] removedGroups s = (Some removedGroups, s)"
| "promptMissingGroups w (g # rest) removedGroups s =
     (let index = confirmEx w (tick s); s1 = s\<lparr>tick := Suc (tick s)\<rparr> in
      if index = 0 then promptMissingGroups w rest (removedGroups @ [g]) s1
      else if index = 1 then (None, s1)
      else promptMissingGroups w rest removedGroups s1)"

text \<open>
  \<^verbatim>\<open>
  let removedLibraryIDs = [];
  for (let group of removedGroups) {
      removedLibraryIDs.push(group.libraryID);
      yield Zotero.DB.executeTransaction(function* () { return group.erase(); });
  }
  libraries = Zotero.Utilities.arrayDiff(libraries, removedLibraryIDs);
  \<close>
  A group that was not found has no \<open>erase\<close>: a \<open>TypeError\<close>.
\<close>

fun eraseGroups ::
  "(groupID \<times> group option) list \<Rightarrow> libraryID list \<Rightarrow> runner \<Rightarrow> (ref + libraryID list) \<times> runner" where
  "eraseGroups [] removedLibraryIDs s = (Inr removedLibraryIDs, s)"
| "eraseGroups ((gid, None) # rest) removedLibraryIDs s =
     throwError ''TypeError: group.erase is not a function'' s"
| "eraseGroups ((gid, Some g) # rest) removedLibraryIDs s =
     eraseGroups rest (removedLibraryIDs @ [groupLibraryID g])
       (s\<lparr>localGroups := filter (\<lambda>(i, _). i \<noteq> gid) (localGroups s)\<rparr>)"

text \<open>
  \<^verbatim>\<open>
  for (let groupID of groupsToDownload) {
      let info = yield client.getGroup(groupID);
      if (!info) { throw new Error("Group " + groupID + " not found"); }
      let group = Zotero.Groups.get(groupID);
      if (group) {
          ...
          let keepGoing = yield Zotero.Sync.Data.Local.checkLibraryForAccess(
              null, group.libraryID, editable, filesEditable);
          if (!keepGoing) { continue; }
      }
      else { group = new Zotero.Group; group.id = groupID; }
      group.version = info.version;
      group.fromJSON(info.data, Zotero.Users.getCurrentUserID());
      yield group.saveTx();
      libraries.push(group.libraryID);
  }
  \<close>
\<close>

definition saveGroup :: "groupID \<Rightarrow> group \<Rightarrow> runner \<Rightarrow> runner" where
  "saveGroup gid g s =
     s\<lparr>localGroups :=
          (if gid \<in> fst ` set (localGroups s)
           then map (\<lambda>(i, old). if i = gid then (i, g) else (i, old)) (localGroups s)
           else localGroups s @ [(gid, g)])\<rparr>"

fun downloadGroups ::
  "world \<Rightarrow> groupID list \<Rightarrow> libraryID list \<Rightarrow> runner \<Rightarrow> (ref + libraryID list) \<times> runner" where
  "downloadGroups w [] libs s = (Inr libs, s)"
| "downloadGroups w (groupID # rest) libs s =
     (let s1 = s\<lparr>tick := Suc (tick s)\<rparr> in
      case getGroup w (tick s) groupID of
        Rejected n \<Rightarrow> (Inl (Thrown n), s1)
      | Resolved None \<Rightarrow> throwError ''Group not found'' s1
      | Resolved (Some info) \<Rightarrow>
          (case map_of (localGroups s1) groupID of
             Some g \<Rightarrow>
               let s2 = s1\<lparr>tick := Suc (tick s1)\<rparr> in
               if \<not> checkLibraryForAccess w (tick s1) (groupLibraryID g)
               then downloadGroups w rest libs s2
               else downloadGroups w rest (libs @ [groupLibraryID g])
                      (saveGroup groupID
                         (g\<lparr>groupVersion := infoVersion info, groupName := infoName info\<rparr>) s2)
           | None \<Rightarrow>
               downloadGroups w rest (libs @ [newGroupLibraryID w groupID])
                 (saveGroup groupID
                    \<lparr>groupLibraryID = newGroupLibraryID w groupID,
                     groupVersion = infoVersion info, groupName = infoName info\<rparr> s1)))"

text \<open>
  \<open>checkLibraries(client, options, keyInfo, libraries = [])\<close>, from the pieces above; it
  ends with \<open>return [...new Set(libraries)]\<close>.
\<close>

definition checkLibraries ::
  "world \<Rightarrow> keyInfo \<Rightarrow> libraryID list \<Rightarrow> runner \<Rightarrow> (ref + libraryID list) \<times> runner" where
  "checkLibraries w info libs0 s =
     (case checkUserAccess w (access info) libs0 s of
        (Inl e, s1) \<Rightarrow> (Inl e, s1)
      | (Inr libs1, s1) \<Rightarrow>
          (case checkGroupAccess w (access info) (libs0 = []) libs1 s1 of
             (Inl e, s2) \<Rightarrow> (Inl e, s2)
           | (Inr (remotelyMissingGroups, groupsToDownload, libs2), s2) \<Rightarrow>
               (case promptMissingGroups w remotelyMissingGroups [] s2 of
                  (None, s3) \<Rightarrow> (Inr [], s3)
                | (Some removedGroups, s3) \<Rightarrow>
                    (case eraseGroups removedGroups [] s3 of
                       (Inl e, s4) \<Rightarrow> (Inl e, s4)
                     | (Inr removedLibraryIDs, s4) \<Rightarrow>
                         (case downloadGroups w groupsToDownload
                                 (arrayDiff libs2 removedLibraryIDs) s4 of
                            (Inl e, s5) \<Rightarrow> (Inl e, s5)
                          | (Inr libs3, s5) \<Rightarrow> (Inr (uniq libs3), s5))))))"

text \<open>A key whose group access names one group and does not grant all groups.\<close>

definition enumeratedGrant :: keyInfo where
  "enumeratedGrant =
     \<lparr>userID = 1, username = ''user'',
      access = \<lparr>userLibraryAccess = True, groupAccess = Some [(''12345'', True)]\<rparr>\<rparr>"

section \<open>The session\<close>

subsection \<open>Icons, key check and confirmations\<close>

text \<open>
  \<^verbatim>\<open>
  this.updateIcons = function (errors) {
      if (typeof errors == 'string') { var state = errors; errors = []; }
      else {
          if (!Array.isArray(errors)) { errors = [errors]; }
          var state = this.getPrimaryErrorType(errors);
      }
      ... the icons of the windows ...
      this.setSyncStatus();
  }
  this.setSyncStatus = function (msg) { _lastSyncStatus = msg; ... }
  \<close>
\<close>

datatype icons_argument = IconState string | IconError ref | IconErrors "ref list"

definition updateIcons :: "icons_argument \<Rightarrow> runner \<Rightarrow> runner" where
  "updateIcons arg s =
     (let shown =
            (case arg of
               IconState state \<Rightarrow> (Some state, [])
             | IconError e \<Rightarrow> (getPrimaryErrorType [heap s e], [e])
             | IconErrors es \<Rightarrow> (getPrimaryErrorType (map (heap s) es), es))
      in s\<lparr>icons := icons s @ [shown], lastSyncStatus := None\<rparr>)"

text \<open>\<open>throw new Zotero.Error("API key not set", Zotero.Error.ERROR_API_KEY_NOT_SET)\<close>\<close>

definition throwKeyNotSet :: "world \<Rightarrow> runner \<Rightarrow> (ref + 'a) \<times> runner" where
  "throwKeyNotSet w s =
     (case alloc (blank_err\<lparr>cls := ZoteroError (ERROR_API_KEY_NOT_SET w),
                    message := ''API key not set''\<rparr>) s of
        (e, s1) \<Rightarrow> (Inl e, s1))"

text \<open>
  \<^verbatim>\<open>
  this.checkAccess = Zotero.Promise.coroutine(function* (client, options={}) {
      var json = yield client.getKeyInfo(options);
      if (!json) { throw new Zotero.Error("API key not set", ...); }
      if (!json.userID) throw new Error("userID not found in key response");
      if (!json.username) throw new Error("username not found in key response");
      if (!json.access) throw new Error("'access' not found in key response");
      return json;
  });
  \<close>
\<close>

definition checkAccess :: "world \<Rightarrow> runner \<Rightarrow> (ref + keyInfo) \<times> runner" where
  "checkAccess w s =
     (let s1 = s\<lparr>tick := Suc (tick s)\<rparr> in
      case getKeyInfo w (tick s) of
        Rejected n \<Rightarrow> (Inl (Thrown n), s1)
      | Resolved None \<Rightarrow> throwKeyNotSet w s1
      | Resolved (Some json) \<Rightarrow>
          (case jsonUserID json of
             None \<Rightarrow> throwError ''userID not found in key response'' s1
           | Some uid \<Rightarrow>
               if uid = 0 then throwError ''userID not found in key response'' s1
               else if \<not> truthy_str (jsonUsername json)
                 then throwError ''username not found in key response'' s1
               else (case jsonAccess json of
                       None \<Rightarrow> throwError ''access not found in key response'' s1
                     | Some a \<Rightarrow>
                         (Inr \<lparr>userID = uid,
                               username = (case jsonUsername json of Some n \<Rightarrow> n | None \<Rightarrow> []),
                               access = a\<rparr>, s1))))"

text \<open>
  \<^verbatim>\<open>
  this.checkEmptyLibrary = Zotero.Promise.coroutine(function* (keyInfo) {
      ...
      let userID = Zotero.Users.getCurrentUserID();
      if (!userID) {
          let hasItems = yield library.hasItems();
          if (!hasItems && feeds.length <= 0 && !Zotero.resetDataDir) {
              let index = ps.confirmEx(...);
              if (index == 1) { return false; }
              else if (index == 2) { win.openDialog(...); return false; }
          }
      }
      return true;
  });
  \<close>
\<close>

definition checkEmptyLibrary :: "world \<Rightarrow> runner \<Rightarrow> bool \<times> runner" where
  "checkEmptyLibrary w s =
     (if currentUserID w = None \<or> currentUserID w = Some 0 then
        if \<not> userLibraryHasItems w \<and> feedCount w \<le> 0 \<and> \<not> resetDataDir w then
          let index = confirmEx w (tick s); s1 = s\<lparr>tick := Suc (tick s)\<rparr> in
          if index = 1 then (False, s1)
          else if index = 2 then (False, s1)
          else (True, s1)
        else (True, s)
      else (True, s))"

subsection \<open>The end of a session\<close>

text \<open>
  \<^verbatim>\<open>
  this.checkErrors = Zotero.Promise.coroutine(function* (errors, options = {}) {
      for (let e of errors) {
          let handled = yield this.checkError(e, options);
          if (handled) { break; }
      }
  });
  \<close>
  \<open>checkError\<close> has no \<open>return\<close> with a value, so \<open>handled\<close> is never truthy. A failing
  \<open>checkError\<close> makes \<open>checkErrors\<close> fail; \<open>options.restartSync\<close> may have been set.
\<close>

fun checkErrors ::
  "world \<Rightarrow> ref list \<Rightarrow> sync_options \<Rightarrow> runner \<Rightarrow> (ref + sync_options) \<times> runner" where
  "checkErrors w [] options s = (Inr options, s)"
| "checkErrors w (e # es) options s =
     (case checkError w e
             \<lparr>chk_background = background options, chk_libraries = libraries options\<rparr> s of
        (CheckTypeError, s1) \<Rightarrow> throwError ''TypeError: options.libraries is undefined'' s1
      | (CheckDone restart, s1) \<Rightarrow>
          checkErrors w es (if restart then options\<lparr>restartSync := True\<rparr> else options) s1)"

text \<open>
  \<^verbatim>\<open>
  this.end = Zotero.Promise.coroutine(function* (options) {
      yield this.checkErrors(_errors, options);
      if (!options.restartSync) { this.updateIcons(_errors); }
      _errors = [];
      _syncInProgress = false;
  });
  \<close>
\<close>

definition endSync :: "world \<Rightarrow> sync_options \<Rightarrow> runner \<Rightarrow> (ref + sync_options) \<times> runner" where
  "endSync w options s =
     (case checkErrors w (errors s) options s of
        (Inl e, s1) \<Rightarrow> (Inl e, s1)
      | (Inr options1, s1) \<Rightarrow>
          let s2 = (if \<not> restartSync options1 then updateIcons (IconErrors (errors s1)) s1 else s1)
          in (Inr options1, s2\<lparr>errors := [], syncInProgress := False\<rparr>))"

subsection \<open>The retry loop\<close>

text \<open>
  One pass of the loop body, after the check of \<open>attempt\<close>:
  \<^verbatim>\<open>
  let nextLibraries = yield _doDataSync(librariesToSync, engineOptions);
  // Remove failed libraries from the successful set
  Zotero.Utilities.arrayDiff(librariesToSync, nextLibraries).forEach(libraryID => {
      successfulLibraries.delete(libraryID);
  });
  // Run file sync on all libraries that passed the last data sync
  librariesToSync = yield _doFileSync(nextLibraries, engineOptions);
  if (librariesToSync.length) { attempt++; continue; }
  // Run full-text sync on all libraries that haven't failed a data sync
  librariesToSync = yield _doFullTextSync([...successfulLibraries], engineOptions);
  if (librariesToSync.length) { attempt++; continue; }
  break;
  \<close>
  \<open>successfulLibraries\<close> is a \<open>Set\<close>, kept as the list of its elements in insertion order.
  The pass ends by the exception of the data phase, by \<open>continue\<close> with the libraries to
  sync again, or by \<open>break\<close>.
\<close>

datatype pass_result = PassThrew ref | PassContinue "libraryID list" | PassBreak

definition logPhase :: "phase_call \<Rightarrow> runner \<Rightarrow> runner" where
  "logPhase p s = s\<lparr>phaseLog := phaseLog s @ [p]\<rparr>"

definition syncPass ::
  "world \<Rightarrow> engineOptions \<Rightarrow> nat \<Rightarrow> libraryID list \<Rightarrow> libraryID list \<Rightarrow> runner
     \<Rightarrow> pass_result \<times> libraryID list \<times> runner" where
  "syncPass w options attempt librariesToSync successfulLibraries s =
     (case doDataSync w options librariesToSync s of
        (Inl e, s1) \<Rightarrow> (PassThrew e, successfulLibraries, s1)
      | (Inr nextLibraries, s1) \<Rightarrow>
          let successful1 =
                filter (\<lambda>l. l \<notin> set (arrayDiff librariesToSync nextLibraries)) successfulLibraries;
              s2 = logPhase (DataPhase attempt librariesToSync nextLibraries) s1
          in case doFileSync w options nextLibraries s2 of
               (fileAgain, s3) \<Rightarrow>
                 let s4 = logPhase (FilePhase attempt nextLibraries fileAgain) s3 in
                 if fileAgain \<noteq> [] then (PassContinue fileAgain, successful1, s4)
                 else
                   (case doFullTextSync w options successful1 s4 of
                      (fullTextAgain, s5) \<Rightarrow>
                        let s6 = logPhase (FullTextPhase attempt successful1 fullTextAgain) s5 in
                        if fullTextAgain \<noteq> [] then (PassContinue fullTextAgain, successful1, s6)
                        else (PassBreak, successful1, s6)))"

text \<open>
  \<^verbatim>\<open>
  let attempt = 1;
  let successfulLibraries = new Set(librariesToSync);
  while (librariesToSync.length) {
      if (attempt > 3) {
          throw new Error("Too many sync attempts -- stopping");
      }
      ... the pass ...
  }
  \<close>
  The result is the exception that left the loop, if any, with the last values of
  \<open>librariesToSync\<close> and \<open>attempt\<close>.
\<close>

function retryLoop ::
  "world \<Rightarrow> engineOptions \<Rightarrow> nat \<Rightarrow> libraryID list \<Rightarrow> libraryID list \<Rightarrow> runner
     \<Rightarrow> (ref option \<times> libraryID list \<times> nat) \<times> runner" where
  "retryLoop w options attempt librariesToSync successfulLibraries s =
     (if librariesToSync = [] then ((None, librariesToSync, attempt), s)
      else if attempt > 3 then
        (case alloc (blank_err\<lparr>message := ''Too many sync attempts -- stopping''\<rparr>) s of
           (e, s1) \<Rightarrow> ((Some e, librariesToSync, attempt), s1))
      else
        (case syncPass w options attempt librariesToSync successfulLibraries s of
           (PassThrew e, successful1, s1) \<Rightarrow> ((Some e, librariesToSync, attempt), s1)
         | (PassContinue libs1, successful1, s1) \<Rightarrow>
             retryLoop w options (attempt + 1) libs1 successful1 s1
         | (PassBreak, successful1, s1) \<Rightarrow> ((None, [], attempt), s1)))"
  by pat_completeness auto
termination
  by (relation "measure (\<lambda>(w, options, attempt, libs, successful, s). 4 - attempt)") auto

subsection \<open>\<open>sync\<close>\<close>

text \<open>
  The \<open>try\<close> block of \<open>sync\<close>:
  \<^verbatim>\<open>
  let apiKey = yield _getAPIKey();
  if (!apiKey) { throw new Zotero.Error("API key not set", ...); }
  if (_firstInSession) { options.firstInSession = true; _firstInSession = false; }
  this.updateIcons('animate');
  let client = this.getAPIClient({ apiKey });
  let keyInfo = yield this.checkAccess(client, options);
  let emptyLibraryContinue = yield this.checkEmptyLibrary(keyInfo);
  if (!emptyLibraryContinue) { yield this.end(options); ...; return false; }
  ...
  if (!(yield Zotero.Sync.Data.Local.checkUser(lastWin, keyInfo.userID, keyInfo.username))) {
      yield this.end(options); ...; return false;
  }
  let engineOptions = { ... };
  var librariesToSync = options.libraries = yield this.checkLibraries(
      client, options, keyInfo, options.libraries ? Array.from(options.libraries) : []);
  ... items of the libraries are loaded ...
  let attempt = 1;
  let successfulLibraries = new Set(librariesToSync);
  while (librariesToSync.length) { ... }
  \<close>
  The result says how the block was left, with \<open>options\<close> and \<open>librariesToSync\<close> as they
  are then (\<open>None\<close> while \<open>librariesToSync\<close> is undefined).
\<close>

datatype try_result = TryReturnedFalse | TryCompleted | TryThrew ref

definition syncTry ::
  "world \<Rightarrow> sync_options \<Rightarrow> runner
     \<Rightarrow> try_result \<times> sync_options \<times> libraryID list option \<times> runner" where
  "syncTry w options s =
     (if \<not> truthy_str (apiKey w) then
        (case throwKeyNotSet w s of
           (Inl e, s1) \<Rightarrow> (TryThrew e, options, None, s1)
         | (Inr (u :: unit), s1) \<Rightarrow> (TryCompleted, options, None, s1))
      else
        (let options1 = (if firstInSession s then options\<lparr>optFirstInSession := True\<rparr>
                         else options);
             s1 = updateIcons (IconState ''animate'') (s\<lparr>firstInSession := False\<rparr>)
         in (case checkAccess w s1 of
               (Inl e, s2) \<Rightarrow> (TryThrew e, options1, None, s2)
             | (Inr info, s2) \<Rightarrow>
                 (case checkEmptyLibrary w s2 of
                    (False, s3) \<Rightarrow>
                      (case endSync w options1 s3 of
                         (Inl e, s4) \<Rightarrow> (TryThrew e, options1, None, s4)
                       | (Inr options2, s4) \<Rightarrow> (TryReturnedFalse, options2, None, s4))
                  | (True, s3) \<Rightarrow>
                      (if \<not> checkUser w (tick s3) then
                         (case endSync w options1 (s3\<lparr>tick := Suc (tick s3)\<rparr>) of
                            (Inl e, s4) \<Rightarrow> (TryThrew e, options1, None, s4)
                          | (Inr options2, s4) \<Rightarrow> (TryReturnedFalse, options2, None, s4))
                       else
                         (case checkLibraries w info
                                 (case libraries options1 of None \<Rightarrow> [] | Some l \<Rightarrow> l)
                                 (s3\<lparr>tick := Suc (tick s3)\<rparr>) of
                            (Inl e, s5) \<Rightarrow> (TryThrew e, options1, None, s5)
                          | (Inr librariesToSync, s5) \<Rightarrow>
                              (case retryLoop w
                                      (engineOptionsOf options1 (s3\<lparr>tick := Suc (tick s3)\<rparr>))
                                      1 librariesToSync (uniq librariesToSync) s5 of
                                 ((Some e, libs, attempt), s6) \<Rightarrow>
                                   (TryThrew e, options1\<lparr>libraries := Some librariesToSync\<rparr>,
                                    Some libs, s6)
                               | ((None, libs, attempt), s6) \<Rightarrow>
                                   (TryCompleted, options1\<lparr>libraries := Some librariesToSync\<rparr>,
                                    Some libs, s6))))))))"

text \<open>
  \<^verbatim>\<open>
  catch (e) {
      if (e instanceof Zotero.HTTP.BrowserOfflineException) {
          let msg = Zotero.getString('general.browserIsOffline', Zotero.appName);
          e = new Zotero.Error(msg, 0, { dialogButtonText: null })
          Zotero.logError(e);
          _errors = [];
      }
      if (e instanceof Zotero.Sync.UserCancelledException) { ... }
      else if (options.onError) { options.onError(e); }
      else { this.addError(e); }
  }
  \<close>
\<close>

definition isUserCancelled :: "err \<Rightarrow> bool" where
  "isUserCancelled e = (case cls e of UserCancelledException _ \<Rightarrow> True | _ \<Rightarrow> False)"

definition syncCatch :: "sync_options \<Rightarrow> ref \<Rightarrow> runner \<Rightarrow> runner" where
  "syncCatch options e s =
     (case (if cls (heap s e) = BrowserOfflineException then
              (case alloc (blank_err\<lparr>cls := ZoteroError 0,
                             message := ''general.browserIsOffline'',
                             dialogButtonText := ButtonNull\<rparr>) s of
                 (e1, s1) \<Rightarrow> (e1, s1\<lparr>logged := logged s1 @ [e1], errors := []\<rparr>))
            else (e, s)) of
        (e1, s1) \<Rightarrow>
          if isUserCancelled (heap s1 e1) then s1
          else if hasOnError options then s1\<lparr>sunk := sunk s1 @ [e1]\<rparr>
          else addError e1 None s1)"

text \<open>
  \<^verbatim>\<open>
  this.sync = Zotero.Promise.coroutine(function* (options = {}) {
      // Clear message list
      _errors = [];
      // Shouldn't be possible
      if (_syncInProgress) {
          let msg = Zotero.getString('sync.error.syncInProgress');
          let e = new Zotero.Error(msg, 0, { dialogButtonText: null, frontWindowOnly: true });
          this.updateIcons(e);
          return false;
      }
      _syncInProgress = true;
      yield Zotero.purgeDataObjects(true);
      try { ... }
      catch (e) { ... }
      finally {
          yield this.end(options);
          if (options.restartSync) {
              delete options.restartSync;
              Zotero.debug("Restarting sync");
              yield this.sync(options);
              return;
          }
          Zotero.debug("Done syncing");
          Zotero.Notifier.trigger('finish', 'sync', librariesToSync || []);
      }
  });
  \<close>
  \<open>Zotero.purgeDataObjects\<close> works on the database and leaves the runner's state alone.
  A restarted session may ask for a restart again, so \<open>sync\<close> need not return: \<open>None\<close> is
  the call that never returns. A call that returns gives \<open>false\<close> or \<open>undefined\<close>, or fails
  with an exception.
\<close>

datatype sync_result = SyncFalse | SyncUndefined | SyncThrew ref

definition syncInProgressError :: err where
  "syncInProgressError =
     blank_err\<lparr>cls := ZoteroError 0, message := ''sync.error.syncInProgress'',
       dialogButtonText := ButtonNull, frontWindowOnly := True\<rparr>"

partial_function (option) sync ::
  "world \<Rightarrow> sync_options \<Rightarrow> runner \<Rightarrow> (sync_result \<times> runner) option" where
  "sync w options s =
     (let s0 = s\<lparr>errors := []\<rparr> in
      if syncInProgress s0 then
        (case alloc syncInProgressError s0 of
           (e, s1) \<Rightarrow> Some (SyncFalse, updateIcons (IconError e) s1))
      else
        (case syncTry w options (s0\<lparr>syncInProgress := True\<rparr>) of
           (left, options1, librariesToSync, s1) \<Rightarrow>
             (case endSync w options1
                     (case left of TryThrew e \<Rightarrow> syncCatch options1 e s1 | _ \<Rightarrow> s1) of
                (Inl e, s3) \<Rightarrow> Some (SyncThrew e, s3)
              | (Inr options2, s3) \<Rightarrow>
                  if restartSync options2 then
                    Option.bind (sync w (options2\<lparr>restartSync := False\<rparr>) s3)
                      (\<lambda>(r, s4). Some (case r of SyncThrew e \<Rightarrow> SyncThrew e | _ \<Rightarrow> SyncUndefined, s4))
                  else
                    Some (if left = TryReturnedFalse then SyncFalse else SyncUndefined,
                          s3\<lparr>finished := finished s3 @
                               [case librariesToSync of None \<Rightarrow> [] | Some l \<Rightarrow> l]\<rparr>))))"

section \<open>Observing the retry loop\<close>

text \<open>
  The value of \<open>attempt\<close> a phase was run with. \<open>successfulLibraries\<close> after a data phase:
  the libraries passed in and not returned are deleted from it. \<open>successfulLibraries\<close>
  after a stretch of the phase log, started from a given set.
\<close>

fun phaseAttempt :: "phase_call \<Rightarrow> nat" where
  "phaseAttempt (DataPhase a _ _) = a"
| "phaseAttempt (FilePhase a _ _) = a"
| "phaseAttempt (FullTextPhase a _ _) = a"

definition remaining :: "libraryID list \<Rightarrow> libraryID list \<Rightarrow> libraryID list \<Rightarrow> libraryID list" where
  "remaining successful input output = filter (\<lambda>l. l \<notin> set (arrayDiff input output)) successful"

fun successfulAfter :: "libraryID list \<Rightarrow> phase_call list \<Rightarrow> libraryID list" where
  "successfulAfter successful [] = successful"
| "successfulAfter successful (DataPhase a input output # ps) =
     successfulAfter (remaining successful input output) ps"
| "successfulAfter successful (_ # ps) = successfulAfter successful ps"

text \<open>
  A phase log in which every file phase comes right after a data phase of the same attempt
  and takes what it returned, and every full-text phase takes the successful libraries as
  they are then; \<open>previous\<close> is the phase logged before.
\<close>

fun wellFormed :: "libraryID list \<Rightarrow> phase_call option \<Rightarrow> phase_call list \<Rightarrow> bool" where
  "wellFormed successful previous [] = True"
| "wellFormed successful previous (DataPhase a input output # ps) =
     wellFormed (remaining successful input output) (Some (DataPhase a input output)) ps"
| "wellFormed successful previous (FilePhase a input output # ps) =
     ((\<exists>dataInput. previous = Some (DataPhase a dataInput input))
      \<and> wellFormed successful (Some (FilePhase a input output)) ps)"
| "wellFormed successful previous (FullTextPhase a input output # ps) =
     (input = successful \<and> wellFormed successful (Some (FullTextPhase a input output)) ps)"

text \<open>The phases the loop has logged between two states.\<close>

definition newPhases :: "runner \<Rightarrow> runner \<Rightarrow> phase_call list" where
  "newPhases s s' = drop (length (phaseLog s)) (phaseLog s')"

text \<open>
  What a logged phase has to do with the engines started while it ran, \<open>s\<close> being a state
  to read the error objects in. A data phase starts data engines only, for the libraries it
  was passed, in order, for all of them unless a fatal error ends it, and returns the
  libraries whose engine completed. A file phase starts storage engines only, for libraries
  it was passed, for all of them unless a fatal error ends it, and returns the libraries a
  result asked another data sync for. A full-text phase starts full-text engines only, for
  the libraries it was passed, in order, for all of them unless a fatal error ends it, and
  returns the libraries whose engine was rejected with status 412; with full-text syncing
  disabled it starts no engine and returns nothing.
\<close>

fun phaseEngines :: "world \<Rightarrow> runner \<Rightarrow> phase_call \<Rightarrow> engine_event list \<Rightarrow> bool" where
  "phaseEngines w s (DataPhase a input output) evs \<longleftrightarrow>
     (\<forall>ev \<in> set evs. eventEngine ev = DataEngine)
     \<and> map eventLibrary evs = take (length evs) input
     \<and> (noFatal s evs \<longrightarrow> map eventLibrary evs = input)
     \<and> output = dataCompleted evs"
| "phaseEngines w s (FilePhase a input output) evs \<longleftrightarrow>
     (\<forall>ev \<in> set evs. eventEngine ev = StorageEngine)
     \<and> eventLibrary ` set evs \<subseteq> set input
     \<and> (noFatal s evs \<longrightarrow> eventLibrary ` set evs = set input)
     \<and> output = storageResync evs"
| "phaseEngines w s (FullTextPhase a input output) evs \<longleftrightarrow>
     (if fulltextEnabled w
      then (\<forall>ev \<in> set evs. eventEngine ev = FullTextEngine)
           \<and> map eventLibrary evs = take (length evs) input
           \<and> (noFatal s evs \<longrightarrow> map eventLibrary evs = input)
           \<and> output = fullTextResync s evs
      else evs = [] \<and> output = [])"

text \<open>The exception of line 178: a new error "Too many sync attempts -- stopping".\<close>

definition tooManyAttempts :: "ref option \<Rightarrow> runner \<Rightarrow> bool" where
  "tooManyAttempts thrown s =
     (case thrown of
        None \<Rightarrow> False
      | Some e \<Rightarrow> heap s e = blank_err\<lparr>message := ''Too many sync attempts -- stopping''\<rparr>)"

text \<open>
  A world in which every storage engine asks for another data sync. A world in which the
  storage engine of library 2 asks for another data sync the first time it is run (the
  fourth engine started) and for nothing afterwards. A world in which the data engine of
  library 1 is rejected, with a state in which the error object it is rejected with is
  fatal. A state with a session in progress, an error in its queue and a status message;
  and options naming library 1.
\<close>

definition resyncWorld :: world where
  "resyncWorld =
     quiet_world\<lparr>storageEngine :=
       (\<lambda>n lib. Resolved \<lparr>syncRequired = True, fileSyncRequired = False\<rparr>)\<rparr>"

definition secondPassWorld :: world where
  "secondPassWorld =
     quiet_world\<lparr>storageEngine :=
       (\<lambda>n lib. if n = 3 then Resolved \<lparr>syncRequired = True, fileSyncRequired = False\<rparr>
                else Resolved \<lparr>syncRequired = False, fileSyncRequired = False\<rparr>)\<rparr>"

definition fatalDataWorld :: world where
  "fatalDataWorld =
     quiet_world\<lparr>dataEngine := (\<lambda>n lib. if lib = 1 then Rejected 0 else Resolved ())\<rparr>"

definition fatalState :: runner where
  "fatalState =
     init_runner\<lparr>heap := (heap init_runner)(Thrown 0 := blank_err\<lparr>fatal := True\<rparr>),
                 syncInProgress := True\<rparr>"

definition busyState :: runner where
  "busyState =
     init_runner\<lparr>syncInProgress := True, errors := [Thrown 0],
       lastSyncStatus := Some ''sync.status.syncingFiles''\<rparr>"

definition explicitOptions :: sync_options where
  "explicitOptions = plainOptions\<lparr>libraries := Some [1]\<rparr>"

section \<open>Properties of the error aggregator\<close>

subsection \<open>Severity precedence\<close>

lemma lookupType_simps:
  "lookupType None = None"
  "lookupType (Some ''info'') = Some 1"
  "lookupType (Some ''warning'') = Some 2"
  "lookupType (Some ''error'') = Some 3"
  "lookupType (Some ''upgrade'') = Some 4"
  "lookupType (Some ''animate'') = Some (- 1)"
  by (simp_all add: lookupType_def errorTypes_def)

lemma precedence_simps:
  "precedence None = 0"
  "precedence (Some ''info'') = 1"
  "precedence (Some ''warning'') = 2"
  "precedence (Some ''error'') = 3"
  "precedence (Some ''upgrade'') = 4"
  "precedence (Some ''animate'') = 0"
  by (simp_all add: precedence_def)

lemma severityOfRank_simps:
  "severityOfRank 0 = None"
  "severityOfRank (Suc 0) = Some ''info''"
  "severityOfRank 2 = Some ''warning''"
  "severityOfRank 3 = Some ''error''"
  "severityOfRank 4 = Some ''upgrade''"
  by (simp_all add: severityOfRank_def)

lemma skip_iff_no_precedence:
  assumes "knownType t"
  shows "\<not> truthy_str t \<or> js_lt (lookupType t) (Some 0) \<longleftrightarrow> precedence t = 0"
  using assms unfolding knownType_def
  by (elim disjE) (simp_all add: precedence_simps lookupType_simps)

lemma contributing_cases:
  assumes "knownType t" "precedence t \<noteq> 0"
  shows "t = Some ''info'' \<or> t = Some ''warning'' \<or> t = Some ''error'' \<or> t = Some ''upgrade''"
  using assms unfolding knownType_def
  by (elim disjE) (simp_all add: precedence_simps)

lemma state_cases:
  assumes "knownType st" "st \<noteq> Some ''animate''"
  shows "st = None \<or> st = Some ''info'' \<or> st = Some ''warning'' \<or> st = Some ''error''
     \<or> st = Some ''upgrade''"
  using assms unfolding knownType_def by (elim disjE) simp_all

lemma replace_iff_higher:
  assumes "knownType t" "precedence t \<noteq> 0" "knownType st" "st \<noteq> Some ''animate''"
  shows "(\<not> truthy_str st \<or> js_gt (lookupType t) (lookupType st))
           \<longleftrightarrow> precedence st < precedence t"
  using contributing_cases[OF assms(1,2)] state_cases[OF assms(3,4)]
  by (elim disjE) (simp_all add: precedence_simps lookupType_simps)

lemma contributing_is_state:
  assumes "knownType t" "precedence t \<noteq> 0"
  shows "t \<noteq> Some ''animate''"
  using assms by (auto simp: precedence_simps)

lemma severityOfRank_precedence:
  assumes "knownType st" "st \<noteq> Some ''animate''"
  shows "severityOfRank (precedence st) = st"
  using state_cases[OF assms]
  by (elim disjE) (simp_all add: precedence_simps severityOfRank_simps)

lemma maxPrecedence_Cons:
  "maxPrecedence (e # es) = max (precedence (errorType e)) (maxPrecedence es)"
  by (simp add: maxPrecedence_def)

text \<open>The loop, started in any state it can be in: the running maximum.\<close>

lemma primaryLoop_spec:
  "knownType st \<Longrightarrow> st \<noteq> Some ''animate'' \<Longrightarrow> \<forall>e \<in> set es. knownType (errorType e) \<Longrightarrow>
   primaryLoop st es =
     (if list_ex fatal es then Some ''error''
      else severityOfRank (max (precedence st) (maxPrecedence es)))"
proof (induction es arbitrary: st)
  case Nil
  then show ?case by (simp add: maxPrecedence_def severityOfRank_precedence)
next
  case (Cons e es)
  have kt: "knownType (errorType e)" using Cons.prems by simp
  have rest: "\<forall>e \<in> set es. knownType (errorType e)" using Cons.prems by simp
  note skip = skip_iff_no_precedence[OF kt]
  show ?case
  proof (cases "fatal e")
    case True
    then show ?thesis by simp
  next
    case nf: False
    show ?thesis
    proof (cases "precedence (errorType e) = 0")
      case True
      with nf skip Cons.IH[OF Cons.prems(1,2) rest]
      show ?thesis by (simp add: maxPrecedence_Cons)
    next
      case nz: False
      note repl = replace_iff_higher[OF kt nz Cons.prems(1,2)]
      show ?thesis
      proof (cases "precedence st < precedence (errorType e)")
        case True
        with nf nz skip repl Cons.IH[OF kt contributing_is_state[OF kt nz] rest]
        show ?thesis by (simp add: maxPrecedence_Cons max_def)
      next
        case False
        with nf nz skip repl Cons.IH[OF Cons.prems(1,2) rest]
        show ?thesis by (simp add: maxPrecedence_Cons max_def)
      qed
    qed
  qed
qed

text \<open>
  Claim C4, as the code has it. For every list of errors whose types are those of the data
  model, \<open>getPrimaryErrorType\<close> returns \<open>'error'\<close> as soon as one error of the list is fatal
  (not the top of the precedence, which is \<open>'upgrade'\<close>); otherwise the type of greatest
  precedence under \<open>info(1) < warning(2) < error(3) < upgrade(4)\<close>, with \<open>animate\<close> and
  missing types contributing nothing; and \<open>false\<close> when no error contributes.
\<close>

theorem getPrimaryErrorType_precedence:
  assumes "\<forall>e \<in> set errs. knownType (errorType e)"
  shows "getPrimaryErrorType errs =
     (if list_ex fatal errs then Some ''error'' else severityOfRank (maxPrecedence errs))"
  using primaryLoop_spec[of None errs] assms
  by (simp add: getPrimaryErrorType_def knownType_def precedence_simps)

theorem getPrimaryErrorType_precedence_witness:
  "knownType (Some ''warning'') \<and> knownType (Some ''info'')
   \<and> getPrimaryErrorType [blank_err\<lparr>parsed := True, errorType := Some ''warning''\<rparr>,
                 blank_err\<lparr>parsed := True, errorType := Some ''info''\<rparr>] = Some ''warning''"
  using getPrimaryErrorType_precedence[of "[blank_err\<lparr>parsed := True, errorType := Some ''warning''\<rparr>,
                 blank_err\<lparr>parsed := True, errorType := Some ''info''\<rparr>]"]
  by (simp add: knownType_def blank_err_def maxPrecedence_def precedence_simps severityOfRank_def)

text \<open>
  The claim as worded gives a fatal error the highest severity. With a non-fatal
  \<open>upgrade\<close> error followed by a fatal \<open>info\<close> error the code answers \<open>'error'\<close>, which is
  neither the top of the precedence nor the greatest type present.
\<close>

theorem getPrimaryErrorType_fatal_counterexample:
  "getPrimaryErrorType
     [blank_err\<lparr>parsed := True, errorType := Some ''upgrade''\<rparr>,
      blank_err\<lparr>parsed := True, errorType := Some ''info'', fatal := True\<rparr>] = Some ''error''
   \<and> primarySeverity_spec
     [blank_err\<lparr>parsed := True, errorType := Some ''upgrade''\<rparr>,
      blank_err\<lparr>parsed := True, errorType := Some ''info'', fatal := True\<rparr>] = Some ''upgrade''
   \<and> getPrimaryErrorType
     [blank_err\<lparr>parsed := True, errorType := Some ''upgrade''\<rparr>,
      blank_err\<lparr>parsed := True, errorType := Some ''info'', fatal := True\<rparr>]
     \<noteq> primarySeverity_spec
     [blank_err\<lparr>parsed := True, errorType := Some ''upgrade''\<rparr>,
      blank_err\<lparr>parsed := True, errorType := Some ''info'', fatal := True\<rparr>]"
  by (simp add: getPrimaryErrorType_def primarySeverity_spec_def highestSeverity_def
      severityOfRank_simps blank_err_def lookupType_simps)

subsection \<open>Deduplication and library context\<close>

lemma addError_marked: "added (heap s e) \<Longrightarrow> addError e lib s = s"
  by (simp add: addError_def)

lemma addError_marks: "added (heap (addError e lib s) e)"
  by (simp add: addError_def parseError_def Let_def)

lemma addError_errors:
  "errors (addError e lib s) = (if added (heap s e) then errors s else errors s @ [e])"
  by (simp add: addError_def parseError_def Let_def)

lemma addError_added_mono: "added (heap s r) \<Longrightarrow> added (heap (addError e lib s) r)"
  by (simp add: addError_def parseError_def Let_def)

lemma addError_libraryID:
  "libraryID (heap (addError e lib s) e) =
     (if \<not> added (heap s e) \<and> truthy_lib lib then lib else libraryID (heap s e))"
  by (simp add: addError_def parseError_def Let_def)

lemma queueInv_addError: "queueInv s \<Longrightarrow> queueInv (addError e lib s)"
  unfolding queueInv_def
  by (auto simp: addError_errors addError_marks addError_added_mono)

lemma queueInv_addErrors: "queueInv s \<Longrightarrow> queueInv (addErrors calls s)"
  unfolding addErrors_def
  by (induction calls arbitrary: s) (auto simp: queueInv_addError)

text \<open>
  Claim C5. Calling \<open>addError\<close> again with an object it has already taken changes nothing,
  whatever library is given; on any marked object \<open>addError\<close> is the identity; an unmarked
  object not yet in the queue is in it exactly once after two calls; and starting from an
  empty queue no sequence of calls queues an object twice.
\<close>

theorem addError_idempotent:
  "addError e lib2 (addError e lib1 s) = addError e lib1 s
   \<and> (added (heap s e) \<longrightarrow> addError e lib s = s)
   \<and> (\<not> added (heap s e) \<and> e \<notin> set (errors s) \<longrightarrow>
        count_list (errors (addError e lib2 (addError e lib1 s))) e = 1)
   \<and> (errors s = [] \<longrightarrow> distinct (errors (addErrors calls s)))"
proof (intro conjI impI)
  show twice: "addError e lib2 (addError e lib1 s) = addError e lib1 s"
    by (rule addError_marked) (rule addError_marks)
  show "addError e lib s = s" if "added (heap s e)"
    using that by (rule addError_marked)
  show "count_list (errors (addError e lib2 (addError e lib1 s))) e = 1"
    if "\<not> added (heap s e) \<and> e \<notin> set (errors s)"
    using that by (simp add: twice addError_errors count_list_0_iff)
  show "distinct (errors (addErrors calls s))" if "errors s = []"
  proof -
    from that have "queueInv s" by (simp add: queueInv_def)
    then have "queueInv (addErrors calls s)" by (rule queueInv_addErrors)
    then show ?thesis by (simp add: queueInv_def)
  qed
qed

theorem addError_idempotent_witness:
  "\<not> added (heap init_runner (Thrown 0)) \<and> Thrown 0 \<notin> set (errors init_runner) \<and> errors init_runner = []
   \<and> errors (addError (Thrown 0) (Some 2) (addError (Thrown 0) (Some 1) init_runner)) = [Thrown 0]
   \<and> added (heap (addError (Thrown 0) (Some 1) init_runner) (Thrown 0))
   \<and> addError (Thrown 0) (Some 2) (addError (Thrown 0) (Some 1) init_runner) = addError (Thrown 0) (Some 1) init_runner
   \<and> distinct (errors (addErrors [(Thrown 0, None), (Thrown 1, Some 1), (Thrown 0, Some 2)] init_runner))"
  using addError_idempotent[of "Thrown 0" "Some 2" "Some 1" init_runner None
      "[(Thrown 0, None), (Thrown 1, Some 1), (Thrown 0, Some 2)]"]
    addError_idempotent[of "Thrown 0" "Some 2" "Some 1" "addError (Thrown 0) (Some 1) init_runner" "Some 2" "[]"]
  by (simp add: init_runner_def addError_def parseError_def Let_def blank_err_def)

text \<open>
  Claim C10. \<open>addError(e, L)\<close> stores \<open>L\<close> in \<open>e.libraryID\<close> only when the object is not yet
  marked and \<open>L\<close> is truthy, and leaves \<open>e.libraryID\<close> as it was otherwise. So an error with
  no library context that is added with library ID 0 is queued without one:
  \<open>getErrorsByLibrary(0)\<close> does not return it, and the error panel shows it with no
  library name.
\<close>

theorem addError_library_context:
  "libraryID (heap (addError e lib s) e) =
     (if \<not> added (heap s e) \<and> truthy_lib lib then lib else libraryID (heap s e))
   \<and> (\<not> added (heap s e) \<and> libraryID (heap s e) = None \<longrightarrow>
        e \<in> set (errors (addError e (Some 0) s))
        \<and> libraryID (heap (addError e (Some 0) s) e) = None
        \<and> e \<notin> set (getErrorsByLibrary (Some 0) (addError e (Some 0) s))
        \<and> panelLibraryLabel (heap (addError e (Some 0) s) e) = NoLabel)"
  by (simp add: addError_libraryID addError_errors getErrorsByLibrary_def panelLibraryLabel_def)

theorem addError_library_context_witness:
  "\<not> added (heap init_runner (Thrown 0)) \<and> libraryID (heap init_runner (Thrown 0)) = None
   \<and> errors (addError (Thrown 0) (Some 0) init_runner) = [Thrown 0]
   \<and> getErrorsByLibrary (Some 0) (addError (Thrown 0) (Some 0) init_runner) = []
   \<and> getErrorsByLibrary (Some 5) (addError (Thrown 0) (Some 5) init_runner) = [Thrown 0]"
  using addError_library_context[of "Thrown 0" "Some 0" init_runner]
  by (simp add: init_runner_def addError_def parseError_def Let_def blank_err_def
      getErrorsByLibrary_def)

section \<open>Properties of the phase runners\<close>

subsection \<open>What the error handlers leave alone\<close>

lemma dataCompleted_append: "dataCompleted (xs @ ys) = dataCompleted xs @ dataCompleted ys"
  by (induction xs rule: dataCompleted.induct) simp_all


lemma addError_frame:
  "engineLog (addError e lib s) = engineLog s"
  "lastSyncTimeUpdates (addError e lib s) = lastSyncTimeUpdates s"
  "tick (addError e lib s) = tick s"
  "callerStopped (addError e lib s) = callerStopped s"
  "classified (addError e lib s) = classified s"
  "sunk (addError e lib s) = sunk s"
  "nextRef (addError e lib s) = nextRef s"
  "phaseLog (addError e lib s) = phaseLog s"
  "syncInProgress (addError e lib s) = syncInProgress s"
  "storageControllers (addError e lib s) = storageControllers s"
  "nextController (addError e lib s) = nextController s"
  by (simp_all add: addError_def parseError_def Let_def)

lemma addError_heap:
  "cls (heap (addError e lib s) r) = cls (heap s r)"
  "fatal (heap (addError e lib s) r) = fatal (heap s r)"
  by (simp_all add: addError_def parseError_def Let_def)

lemma checkError_unawaited_frame:
  "engineLog (checkError_unawaited w e s) = engineLog s"
  "lastSyncTimeUpdates (checkError_unawaited w e s) = lastSyncTimeUpdates s"
  "tick (checkError_unawaited w e s) = tick s"
  "callerStopped (checkError_unawaited w e s) = callerStopped s"
  "classified (checkError_unawaited w e s) = classified s @ [e]"
  "sunk (checkError_unawaited w e s) = sunk s"
  "logged (checkError_unawaited w e s) = logged s"
  "errors (checkError_unawaited w e s) = errors s"
  "nextRef (checkError_unawaited w e s) = nextRef s"
  "phaseLog (checkError_unawaited w e s) = phaseLog s"
  "syncInProgress (checkError_unawaited w e s) = syncInProgress s"
  "storageControllers (checkError_unawaited w e s) = storageControllers s"
  "nextController (checkError_unawaited w e s) = nextController s"
  by (simp_all add: checkError_unawaited_def checkError_def Let_def split: exn_class.split)

lemma checkError_unawaited_heap:
  "cls (heap (checkError_unawaited w e s) r) = cls (heap s r)"
  "fatal (heap (checkError_unawaited w e s) r) = fatal (heap s r)"
  "added (heap (checkError_unawaited w e s) r) = added (heap s r)"
  by (simp_all add: checkError_unawaited_def checkError_def Let_def split: exn_class.split)

lemma engineOnError_frame:
  "engineLog (engineOnError options e s) = engineLog s"
  "lastSyncTimeUpdates (engineOnError options e s) = lastSyncTimeUpdates s"
  "tick (engineOnError options e s) = tick s"
  "callerStopped (engineOnError options e s) = callerStopped s"
  "classified (engineOnError options e s) = classified s"
  "nextRef (engineOnError options e s) = nextRef s"
  "phaseLog (engineOnError options e s) = phaseLog s"
  "syncInProgress (engineOnError options e s) = syncInProgress s"
  "storageControllers (engineOnError options e s) = storageControllers s"
  "nextController (engineOnError options e s) = nextController s"
  by (simp_all add: engineOnError_def addError_frame)

lemma engineOnError_heap:
  "cls (heap (engineOnError options e s) r) = cls (heap s r)"
  "fatal (heap (engineOnError options e s) r) = fatal (heap s r)"
  by (simp_all add: engineOnError_def addError_heap)

lemma engineFailed_frame:
  assumes "engineFailed w (engineOptionsOf options fs) e s = (b, s')"
  shows "engineLog s' = engineLog s"
    and "lastSyncTimeUpdates s' = lastSyncTimeUpdates s"
    and "tick s' = tick s"
    and "classified s' = classified s @ [e]"
    and "nextRef s' = nextRef s"
    and "phaseLog s' = phaseLog s"
    and "syncInProgress s' = syncInProgress s"
    and "cls (heap s' r) = cls (heap s r)"
    and "fatal (heap s' r) = fatal (heap s r)"
    and "b = fatal (heap s e)"
    and "callerStopped s' = (callerStopped s \<or> fatal (heap s e))"
  using assms
  by (auto simp: engineFailed_def engineOptionsOf_def Let_def stopOnError_def
      engineOnError_frame engineOnError_heap checkError_unawaited_frame checkError_unawaited_heap
      split: if_splits)


subsection \<open>Data phase\<close>

lemma dataSyncLoop_spec:
  "dataSyncLoop w (engineOptionsOf options fs) libs acc s = (r, s') \<Longrightarrow>
     lastSyncTimeUpdates s' = lastSyncTimeUpdates s
     \<and> (\<exists>new. engineLog s' = engineLog s @ new
            \<and> (case r of Inr succ \<Rightarrow> succ = acc @ dataCompleted new
                | Inl e \<Rightarrow> cls (heap s' e) = UserCancelledException False))"
proof (induction libs arbitrary: acc s)
  case Nil
  then show ?case by auto
next
  case (Cons lib rest)
  let ?s1 = "s\<lparr>tick := Suc (tick s),
                engineLog := engineLog s @ [DataRun lib (dataEngine w (tick s) lib)]\<rparr>"
  show ?case
  proof (cases "dataEngine w (tick s) lib")
    case (Resolved u)
    with Cons.prems have "dataSyncLoop w (engineOptionsOf options fs) rest (acc @ [lib]) ?s1 = (r, s')"
      by simp
    from Cons.IH[OF this] Resolved show ?thesis
      by (auto simp: dataCompleted_append split: sum.splits)
  next
    case (Rejected n)
    show ?thesis
    proof (cases "\<exists>adv. cls (heap s (Thrown n)) = UserCancelledException adv")
      case True
      then obtain adv where adv: "cls (heap s (Thrown n)) = UserCancelledException adv" by blast
      show ?thesis
      proof (cases adv)
        case True
        with Cons.prems Rejected adv
        have "dataSyncLoop w (engineOptionsOf options fs) rest acc ?s1 = (r, s')" by simp
        from Cons.IH[OF this] Rejected show ?thesis
          by (auto simp: dataCompleted_append split: sum.splits)
      next
        case False
        with Cons.prems Rejected adv show ?thesis by auto
      qed
    next
      case False
      obtain b s2 where ef: "engineFailed w (engineOptionsOf options fs) (Thrown n) ?s1 = (b, s2)"
        by (cases "engineFailed w (engineOptionsOf options fs) (Thrown n) ?s1") 
      from False Cons.prems Rejected ef
      have step: "(if b then (Inr acc, s2) else dataSyncLoop w (engineOptionsOf options fs) rest acc s2) = (r, s')"
        by (cases "cls (heap s (Thrown n))") (auto split: bool.splits)
      note fr = engineFailed_frame(1,2)[OF ef]
      show ?thesis
      proof (cases b)
        case True
        with step fr Rejected show ?thesis by auto
      next
        case False
        with step have "dataSyncLoop w (engineOptionsOf options fs) rest acc s2 = (r, s')" by simp
        from Cons.IH[OF this] fr Rejected show ?thesis
          by (auto simp: dataCompleted_append split: sum.splits)
      qed
    qed
  qed
qed

text \<open>
  Claim C9, as the code has it. When a Data-phase pass returns, what it returns is the
  list of the libraries whose data engine completed in this pass, and the last-sync
  timestamp has been refreshed, once, if and only if the input list was empty or at least
  one library's engine completed. A pass that a cancellation without
  \<open>advanceToNextLibrary\<close> leaves by an exception never refreshes the timestamp, whatever
  completed before.
\<close>

theorem doDataSync_lastSyncTime:
  assumes "doDataSync w (engineOptionsOf options fs) libs s = (r, s')"
  shows "case r of
           Inr succ \<Rightarrow>
             succ = dataCompleted (newEvents s s')
             \<and> lastSyncTimeUpdates s' =
                 (if libs = [] \<or> dataCompleted (newEvents s s') \<noteq> []
                  then Suc (lastSyncTimeUpdates s) else lastSyncTimeUpdates s)
         | Inl e \<Rightarrow>
             cls (heap s' e) = UserCancelledException False
             \<and> lastSyncTimeUpdates s' = lastSyncTimeUpdates s"
proof -
  obtain r0 s0 where loop: "dataSyncLoop w (engineOptionsOf options fs) libs [] s = (r0, s0)"
    by (cases "dataSyncLoop w (engineOptionsOf options fs) libs [] s")
  from dataSyncLoop_spec[OF loop] obtain new where
    ts: "lastSyncTimeUpdates s0 = lastSyncTimeUpdates s" and
    log: "engineLog s0 = engineLog s @ new" and
    res: "case r0 of Inr succ \<Rightarrow> succ = [] @ dataCompleted new
                | Inl e \<Rightarrow> cls (heap s0 e) = UserCancelledException False"
    by blast
  show ?thesis
  proof (cases r0)
    case (Inl e)
    with assms loop have "r = Inl e" "s' = s0" by (simp_all add: doDataSync_def)
    with ts res Inl show ?thesis by simp
  next
    case (Inr succ)
    with assms loop have r: "r = Inr succ"
      and s': "s' = (if libs = [] \<or> succ \<noteq> []
           then s0\<lparr>lastSyncTimeUpdates := Suc (lastSyncTimeUpdates s0)\<rparr> else s0)"
      by (simp_all add: doDataSync_def)
    from s' log have "newEvents s s' = new" by (simp add: newEvents_def)
    with r s' ts res Inr show ?thesis by simp
  qed
qed

text \<open>
  The claim as worded covers every pass: with libraries 1 and 2, the engine of library 1
  completes, the engine of library 2 is cancelled, and the timestamp is left as it was.
\<close>

theorem doDataSync_cancelled_counterexample:
  "fst (doDataSync cancelWorld (engineOptionsOf plainOptions cancelState) [1, 2] cancelState) = Inl (Thrown 0)
   \<and> engineLog (snd (doDataSync cancelWorld (engineOptionsOf plainOptions cancelState) [1, 2] cancelState))
       = [DataRun 1 (Resolved ()), DataRun 2 (Rejected 0)]
   \<and> lastSyncTimeUpdates (snd (doDataSync cancelWorld (engineOptionsOf plainOptions cancelState) [1, 2] cancelState))
       = lastSyncTimeUpdates cancelState"
  by (simp add: doDataSync_def cancelWorld_def quiet_world_def cancelState_def init_runner_def
      blank_err_def Let_def)

theorem doDataSync_lastSyncTime_witness:
  "doDataSync quiet_world (engineOptionsOf plainOptions init_runner) [1, 2] init_runner
     = (Inr [1, 2], init_runner\<lparr>tick := 2,
          engineLog := [DataRun 1 (Resolved ()), DataRun 2 (Resolved ())],
          lastSyncTimeUpdates := 1\<rparr>)
   \<and> [1, 2] = dataCompleted (newEvents init_runner (init_runner\<lparr>tick := 2,
          engineLog := [DataRun 1 (Resolved ()), DataRun 2 (Resolved ())],
          lastSyncTimeUpdates := 1\<rparr>))
   \<and> lastSyncTimeUpdates (init_runner\<lparr>tick := 2,
          engineLog := [DataRun 1 (Resolved ()), DataRun 2 (Resolved ())],
          lastSyncTimeUpdates := 1\<rparr>) = Suc (lastSyncTimeUpdates init_runner)"
proof -
  let ?S = "init_runner\<lparr>tick := 2,
          engineLog := [DataRun 1 (Resolved ()), DataRun 2 (Resolved ())],
          lastSyncTimeUpdates := 1\<rparr>"
  have run: "doDataSync quiet_world (engineOptionsOf plainOptions init_runner) [1, 2] init_runner
     = (Inr [1, 2], ?S)"
    by (simp add: doDataSync_def quiet_world_def init_runner_def Let_def)
  note t = doDataSync_lastSyncTime[OF run]
  from t have a: "[1, 2] = dataCompleted (newEvents init_runner ?S)"
    by (simp only: sum.case)
  from t have b: "lastSyncTimeUpdates ?S =
                 (if [1, 2::int] = [] \<or> dataCompleted (newEvents init_runner ?S) \<noteq> []
                  then Suc (lastSyncTimeUpdates init_runner) else lastSyncTimeUpdates init_runner)"
    by (simp only: sum.case)
  from b have "lastSyncTimeUpdates ?S = Suc (lastSyncTimeUpdates init_runner)"
    unfolding a[symmetric] by simp
  with run a show ?thesis by blast
qed

subsection \<open>Full-text phase\<close>

lemma fullTextRejected_append:
  "fullTextRejected (xs @ ys) = fullTextRejected xs @ fullTextRejected ys"
  by (induction xs rule: fullTextRejected.induct) simp_all

lemma fullTextResync_simps:
  "fullTextResync s [] = []"
  "fullTextResync s (FullTextRun lib (Resolved u) # evs) = fullTextResync s evs"
  "fullTextResync s (FullTextRun lib (Rejected n) # evs) =
     (if isPreconditionFailed (heap s (Thrown n)) then lib # fullTextResync s evs
      else fullTextResync s evs)"
  by (simp_all add: fullTextResync_def)

lemma fullTextHandled_simps:
  "fullTextHandled s [] = []"
  "fullTextHandled s (FullTextRun lib (Resolved u) # evs) = fullTextHandled s evs"
  "fullTextHandled s (FullTextRun lib (Rejected n) # evs) =
     (if isPreconditionFailed (heap s (Thrown n)) then fullTextHandled s evs
      else Thrown n # fullTextHandled s evs)"
  by (simp_all add: fullTextHandled_def)

lemma fullText_cong:
  assumes "\<And>x. cls (heap a x) = cls (heap b x)"
  shows "fullTextResync a evs = fullTextResync b evs" "fullTextHandled a evs = fullTextHandled b evs"
  using assms by (simp_all add: fullTextResync_def fullTextHandled_def isPreconditionFailed_def)

lemma engineFailed_sink:
  assumes "engineFailed w (engineOptionsOf options fs) e s = (b, s')"
  shows "sunk s' = sunk s @ (if hasOnError options then [e] else [])"
    and "hasOnError options \<Longrightarrow> errors s' = errors s"
    and "set (errors s) \<subseteq> set (errors s')"
    and "set (errors s') \<subseteq> insert e (set (errors s))"
    and "\<not> hasOnError options \<Longrightarrow> added (heap s' e) \<and> (added (heap s e) \<or> e \<in> set (errors s'))"
    and "added (heap s r) \<Longrightarrow> added (heap s' r)"
    and "set (logged s') = insert e (set (logged s))"
  using assms
  by (auto simp: engineFailed_def engineOptionsOf_def Let_def stopOnError_def
      engineOnError_def addError_errors addError_marks addError_added_mono
      checkError_unawaited_frame checkError_unawaited_heap addError_def parseError_def
      split: if_splits)

lemma fullText_started:
  "fullTextResync (s\<lparr>tick := t, engineLog := l\<rparr>) evs = fullTextResync s evs"
  "fullTextHandled (s\<lparr>tick := t, engineLog := l\<rparr>) evs = fullTextHandled s evs"
  by (simp_all add: fullTextResync_def fullTextHandled_def)

lemma fullTextSyncLoop_trace:
  "fullTextSyncLoop w (engineOptionsOf options fs) libs acc s = (resync, s') \<Longrightarrow>
   \<exists>new. engineLog s' = engineLog s @ new
     \<and> resync = acc @ fullTextResync s new
     \<and> classified s' = classified s @ fullTextHandled s new
     \<and> sunk s' = sunk s @ (if hasOnError options then fullTextHandled s new else [])
     \<and> callerStopped s' = (callerStopped s \<or> (\<exists>e \<in> set (fullTextHandled s new). fatal (heap s e)))
     \<and> map eventLibrary new = take (length new) libs
     \<and> ((\<forall>e \<in> set (fullTextHandled s new). \<not> fatal (heap s e)) \<longrightarrow> length new = length libs)
     \<and> (\<forall>e \<in> set (fullTextHandled s (butlast new)). \<not> fatal (heap s e))
     \<and> (\<forall>x. cls (heap s' x) = cls (heap s x) \<and> fatal (heap s' x) = fatal (heap s x))"
proof (induction libs arbitrary: acc s)
  case Nil
  then show ?case by (simp add: fullTextResync_simps fullTextHandled_simps)
next
  case (Cons lib rest)
  let ?ev = "FullTextRun lib (fullTextEngine w (tick s) lib)"
  let ?s1 = "s\<lparr>tick := Suc (tick s), engineLog := engineLog s @ [?ev]\<rparr>"
  note c1 = fullText_started
  show ?case
  proof (cases "fullTextEngine w (tick s) lib")
    case (Resolved u)
    with Cons.prems have "fullTextSyncLoop w (engineOptionsOf options fs) rest acc ?s1 = (resync, s')"
      by simp
    from Cons.IH[OF this] obtain new where
      n: "engineLog s' = engineLog ?s1 @ new"
         "resync = acc @ fullTextResync ?s1 new"
         "classified s' = classified ?s1 @ fullTextHandled ?s1 new"
         "sunk s' = sunk ?s1 @ (if hasOnError options then fullTextHandled ?s1 new else [])"
         "callerStopped s' = (callerStopped ?s1 \<or> (\<exists>e \<in> set (fullTextHandled ?s1 new). fatal (heap ?s1 e)))"
         "map eventLibrary new = take (length new) rest"
         "(\<forall>e \<in> set (fullTextHandled ?s1 new). \<not> fatal (heap ?s1 e)) \<longrightarrow> length new = length rest"
         "\<forall>e \<in> set (fullTextHandled ?s1 (butlast new)). \<not> fatal (heap ?s1 e)"
         "\<forall>x. cls (heap s' x) = cls (heap ?s1 x) \<and> fatal (heap s' x) = fatal (heap ?s1 x)"
      by blast
    have bl: "fullTextHandled s (butlast (?ev # new)) = fullTextHandled s (butlast new)"
      using Resolved by (cases new) (simp_all add: fullTextHandled_simps)
    show ?thesis
      apply (rule exI[of _ "?ev # new"])
      using n Resolved unfolding bl
      by (simp add: c1 fullTextResync_simps fullTextHandled_simps)
  next
    case (Rejected n)
    show ?thesis
    proof (cases "isPreconditionFailed (heap s (Thrown n))")
      case True
      with Cons.prems Rejected
      have "fullTextSyncLoop w (engineOptionsOf options fs) rest (acc @ [lib]) ?s1 = (resync, s')"
        by simp
      from Cons.IH[OF this] obtain new where
        n: "engineLog s' = engineLog ?s1 @ new"
         "resync = (acc @ [lib]) @ fullTextResync ?s1 new"
         "classified s' = classified ?s1 @ fullTextHandled ?s1 new"
         "sunk s' = sunk ?s1 @ (if hasOnError options then fullTextHandled ?s1 new else [])"
         "callerStopped s' = (callerStopped ?s1 \<or> (\<exists>e \<in> set (fullTextHandled ?s1 new). fatal (heap ?s1 e)))"
         "map eventLibrary new = take (length new) rest"
         "(\<forall>e \<in> set (fullTextHandled ?s1 new). \<not> fatal (heap ?s1 e)) \<longrightarrow> length new = length rest"
         "\<forall>e \<in> set (fullTextHandled ?s1 (butlast new)). \<not> fatal (heap ?s1 e)"
         "\<forall>x. cls (heap s' x) = cls (heap ?s1 x) \<and> fatal (heap s' x) = fatal (heap ?s1 x)"
        by blast
      have bl: "fullTextHandled s (butlast (?ev # new)) = fullTextHandled s (butlast new)"
        using Rejected True by (cases new) (simp_all add: fullTextHandled_simps)
      show ?thesis
        apply (rule exI[of _ "?ev # new"])
        using n Rejected True unfolding bl
        by (simp add: c1 fullTextResync_simps fullTextHandled_simps)
    next
      case False
      obtain b s2 where ef: "engineFailed w (engineOptionsOf options fs) (Thrown n) ?s1 = (b, s2)"
        by (cases "engineFailed w (engineOptionsOf options fs) (Thrown n) ?s1")
      note fr = engineFailed_frame[OF ef] engineFailed_sink(1)[OF ef]
      have same2: "\<And>x. cls (heap s2 x) = cls (heap s x)" using fr by simp
      note c2 = fullText_cong[of s2 s, OF same2]
      from False Cons.prems Rejected ef
      have step: "(if b then (acc, s2) else fullTextSyncLoop w (engineOptionsOf options fs) rest acc s2)
                  = (resync, s')"
        by (auto split: bool.splits)
      show ?thesis
      proof (cases b)
        case True
        with step have "resync = acc" "s' = s2" by simp_all
        moreover from True fr have "fatal (heap s (Thrown n))" by simp
        ultimately show ?thesis
          apply -
          apply (rule exI[of _ "[?ev]"])
          using fr Rejected False
          by (simp add: fullTextResync_simps fullTextHandled_simps)
      next
        case nb: False
        with step have "fullTextSyncLoop w (engineOptionsOf options fs) rest acc s2 = (resync, s')"
          by simp
        from Cons.IH[OF this] obtain new where
          n: "engineLog s' = engineLog s2 @ new"
           "resync = acc @ fullTextResync s2 new"
           "classified s' = classified s2 @ fullTextHandled s2 new"
           "sunk s' = sunk s2 @ (if hasOnError options then fullTextHandled s2 new else [])"
           "callerStopped s' = (callerStopped s2 \<or> (\<exists>e \<in> set (fullTextHandled s2 new). fatal (heap s2 e)))"
           "map eventLibrary new = take (length new) rest"
           "(\<forall>e \<in> set (fullTextHandled s2 new). \<not> fatal (heap s2 e)) \<longrightarrow> length new = length rest"
           "\<forall>e \<in> set (fullTextHandled s2 (butlast new)). \<not> fatal (heap s2 e)"
           "\<forall>x. cls (heap s' x) = cls (heap s2 x) \<and> fatal (heap s' x) = fatal (heap s2 x)"
          by blast
        from nb fr have nf: "\<not> fatal (heap s (Thrown n))" by simp
        have bl: "set (fullTextHandled s (butlast (?ev # new))) \<subseteq> insert (Thrown n) (set (fullTextHandled s (butlast new)))"
          using Rejected False by (cases new) (simp_all add: fullTextHandled_simps)
        have last: "\<forall>e \<in> set (fullTextHandled s (butlast (?ev # new))). \<not> fatal (heap s e)"
          using bl n(8) nf fr(9) unfolding c2 by auto
        show ?thesis
          apply (rule exI[of _ "?ev # new"])
          apply (intro conjI)
                  apply (use n fr Rejected False nf in \<open>simp_all add: c2 fullTextResync_simps fullTextHandled_simps\<close>)[7]
           apply (rule last)
          using n fr by simp
      qed
    qed
  qed
qed

lemma engineFailed_added_origin:
  assumes "engineFailed w (engineOptionsOf options fs) e s = (b, s')"
  shows "added (heap s' r) \<Longrightarrow> added (heap s r) \<or> r \<in> set (errors s')"
  using assms
  by (auto simp: engineFailed_def engineOptionsOf_def Let_def stopOnError_def
      engineOnError_def checkError_unawaited_frame checkError_unawaited_heap addError_def parseError_def
      split: if_splits)

lemma queueStep_refl: "queueStep sink [] s s"
  by (simp add: queueStep_def)

lemma queueStep_started: "queueStep sink hs (s\<lparr>tick := t, engineLog := l\<rparr>) s' = queueStep sink hs s s'"
  by (simp add: queueStep_def)

lemma queueStep_engineFailed:
  assumes "engineFailed w (engineOptionsOf options fs) e s = (b, s')"
  shows "queueStep (hasOnError options) [e] s s'"
  unfolding queueStep_def
  using engineFailed_sink[OF assms] engineFailed_added_origin[OF assms]
  by auto

lemma queueStep_trans:
  assumes "queueStep sink h1 s s1" "queueStep sink h2 s1 s2"
  shows "queueStep sink (h1 @ h2) s s2"
  using assms unfolding queueStep_def
  apply (intro conjI)
        apply blast
       apply blast
      apply blast
     apply auto[1]
    apply auto[1]
   apply auto[1]
  apply auto[1]
  done

lemma fullTextSyncLoop_queue:
  "fullTextSyncLoop w (engineOptionsOf options fs) libs acc s = (resync, s') \<Longrightarrow>
   \<exists>new. engineLog s' = engineLog s @ new
     \<and> queueStep (hasOnError options) (fullTextHandled s new) s s'"
proof (induction libs arbitrary: acc s)
  case Nil
  then show ?case by (simp add: fullTextHandled_simps queueStep_refl)
next
  case (Cons lib rest)
  let ?ev = "FullTextRun lib (fullTextEngine w (tick s) lib)"
  let ?s1 = "s\<lparr>tick := Suc (tick s), engineLog := engineLog s @ [?ev]\<rparr>"
  show ?case
  proof (cases "fullTextEngine w (tick s) lib")
    case (Resolved u)
    with Cons.prems have "fullTextSyncLoop w (engineOptionsOf options fs) rest acc ?s1 = (resync, s')"
      by simp
    from Cons.IH[OF this] obtain new where
      n: "engineLog s' = engineLog ?s1 @ new"
         "queueStep (hasOnError options) (fullTextHandled ?s1 new) ?s1 s'"
      by blast
    show ?thesis
      apply (rule exI[of _ "?ev # new"])
      using n Resolved
      by (simp add: fullText_started fullTextHandled_simps queueStep_started)
  next
    case (Rejected n)
    show ?thesis
    proof (cases "isPreconditionFailed (heap s (Thrown n))")
      case True
      with Cons.prems Rejected
      have "fullTextSyncLoop w (engineOptionsOf options fs) rest (acc @ [lib]) ?s1 = (resync, s')"
        by simp
      from Cons.IH[OF this] obtain new where
        n: "engineLog s' = engineLog ?s1 @ new"
           "queueStep (hasOnError options) (fullTextHandled ?s1 new) ?s1 s'"
        by blast
      show ?thesis
        apply (rule exI[of _ "?ev # new"])
        using n Rejected True
        by (simp add: fullText_started fullTextHandled_simps queueStep_started)
    next
      case False
      obtain b s2 where ef: "engineFailed w (engineOptionsOf options fs) (Thrown n) ?s1 = (b, s2)"
        by (cases "engineFailed w (engineOptionsOf options fs) (Thrown n) ?s1")
      note fr = engineFailed_frame[OF ef]
      have same2: "\<And>x. cls (heap s2 x) = cls (heap s x)" using fr by simp
      note c2 = fullText_cong[of s2 s, OF same2]
      have q1: "queueStep (hasOnError options) [Thrown n] s s2"
        using queueStep_engineFailed[OF ef] by (simp add: queueStep_started)
      from False Cons.prems Rejected ef
      have step: "(if b then (acc, s2) else fullTextSyncLoop w (engineOptionsOf options fs) rest acc s2)
                  = (resync, s')"
        by (auto split: bool.splits)
      show ?thesis
      proof (cases b)
        case True
        with step have "resync = acc" "s' = s2" by simp_all
        then show ?thesis
          apply -
          apply (rule exI[of _ "[?ev]"])
          using fr Rejected False q1
          by (simp add: fullTextHandled_simps)
      next
        case nb: False
        with step have "fullTextSyncLoop w (engineOptionsOf options fs) rest acc s2 = (resync, s')"
          by simp
        from Cons.IH[OF this] obtain new where
          n: "engineLog s' = engineLog s2 @ new"
             "queueStep (hasOnError options) (fullTextHandled s2 new) s2 s'"
          by blast
        from queueStep_trans[OF q1 n(2)]
        have "queueStep (hasOnError options) (Thrown n # fullTextHandled s new) s s'"
          by (simp add: c2)
        then show ?thesis
          apply -
          apply (rule exI[of _ "?ev # new"])
          using n fr Rejected False
          by (simp add: fullTextHandled_simps)
      qed
    qed
  qed
qed

lemma fullTextHandled_not_412:
  "e \<in> set (fullTextHandled s evs) \<Longrightarrow> \<not> isPreconditionFailed (heap s e)"
  by (auto simp: fullTextHandled_def)

lemma fullTextResync_mem:
  "(lib, e) \<in> set (fullTextRejected evs) \<Longrightarrow> isPreconditionFailed (heap s e)
     \<Longrightarrow> lib \<in> set (fullTextResync s evs)"
  by (force simp: fullTextResync_def)

text \<open>
  Claim C7. In a full-text pass, the libraries returned for resync are exactly those whose
  engine was rejected with status 412, and such a rejection is silent: its error object is
  not given to \<open>checkError\<close>, to \<open>Zotero.logError\<close> or to \<open>options.onError\<close>, and is not
  queued (it is in none of these afterwards unless it was before). The error of every other
  rejection is logged, classified and given to \<open>options.onError\<close>, which forwards it to
  the caller's sink or else queues it with \<open>addError\<close>. \<open>caller.stop()\<close> is called exactly
  when one of these errors is fatal; no engine is started after a fatal one, and when none
  is fatal every library's engine is run.
\<close>

theorem doFullTextSync_precondition_failed:
  assumes run: "doFullTextSync w (engineOptionsOf options fs) libs s = (resync, s')"
  shows "resync = fullTextResync s (newEvents s s')
     \<and> (\<forall>(lib, e) \<in> set (fullTextRejected (newEvents s s')).
           isPreconditionFailed (heap s e) \<longrightarrow>
             lib \<in> set resync
             \<and> (e \<in> set (classified s') \<longrightarrow> e \<in> set (classified s))
             \<and> (e \<in> set (sunk s') \<longrightarrow> e \<in> set (sunk s))
             \<and> (e \<in> set (errors s') \<longrightarrow> e \<in> set (errors s))
             \<and> (e \<in> set (logged s') \<longrightarrow> e \<in> set (logged s)))
     \<and> classified s' = classified s @ fullTextHandled s (newEvents s s')
     \<and> set (logged s') = set (logged s) \<union> set (fullTextHandled s (newEvents s s'))
     \<and> sunk s' = sunk s @ (if hasOnError options then fullTextHandled s (newEvents s s') else [])
     \<and> (hasOnError options \<longrightarrow> errors s' = errors s)
     \<and> (\<not> hasOnError options \<longrightarrow>
          (\<forall>e \<in> set (fullTextHandled s (newEvents s s')).
             added (heap s' e) \<and> (added (heap s e) \<or> e \<in> set (errors s'))))
     \<and> callerStopped s' =
          (callerStopped s \<or> (\<exists>e \<in> set (fullTextHandled s (newEvents s s')). fatal (heap s e)))
     \<and> map eventLibrary (newEvents s s') = take (length (newEvents s s')) libs
     \<and> (fulltextEnabled w \<and> (\<forall>e \<in> set (fullTextHandled s (newEvents s s')). \<not> fatal (heap s e))
          \<longrightarrow> map eventLibrary (newEvents s s') = libs)
     \<and> (\<forall>e \<in> set (fullTextHandled s (butlast (newEvents s s'))). \<not> fatal (heap s e))"
proof (cases "fulltextEnabled w")
  case False
  with run have "resync = []" "s' = s" by (simp_all add: doFullTextSync_def)
  with False show ?thesis
    by (simp add: newEvents_def fullTextResync_simps fullTextHandled_simps)
next
  case True
  let ?s0 = "s\<lparr>lastSyncStatus := Some ''sync.status.syncingFullText''\<rparr>"
  from True run have loop: "fullTextSyncLoop w (engineOptionsOf options fs) libs [] ?s0 = (resync, s')"
    by (simp add: doFullTextSync_def)
  have h0: "\<And>evs. fullTextHandled ?s0 evs = fullTextHandled s evs"
    "\<And>evs. fullTextResync ?s0 evs = fullTextResync s evs"
    by (simp_all add: fullTextResync_def fullTextHandled_def)
  from fullTextSyncLoop_trace[OF loop] obtain new where
    t: "engineLog s' = engineLog s @ new"
       "resync = fullTextResync s new"
       "classified s' = classified s @ fullTextHandled s new"
       "sunk s' = sunk s @ (if hasOnError options then fullTextHandled s new else [])"
       "callerStopped s' = (callerStopped s \<or> (\<exists>e \<in> set (fullTextHandled s new). fatal (heap s e)))"
       "map eventLibrary new = take (length new) libs"
       "(\<forall>e \<in> set (fullTextHandled s new). \<not> fatal (heap s e)) \<longrightarrow> length new = length libs"
       "\<forall>e \<in> set (fullTextHandled s (butlast new)). \<not> fatal (heap s e)"
    unfolding h0 by auto
  from fullTextSyncLoop_queue[OF loop] obtain new2 where
    "engineLog s' = engineLog ?s0 @ new2"
    "queueStep (hasOnError options) (fullTextHandled ?s0 new2) ?s0 s'"
    by blast
  with t(1) have "new2 = new" and "queueStep (hasOnError options) (fullTextHandled s new) ?s0 s'"
    unfolding h0 by simp_all
  then have q: "\<forall>r. added (heap s' r) \<longrightarrow> added (heap s r) \<or> r \<in> set (errors s')"
      "set (errors s') \<subseteq> set (errors s) \<union> set (fullTextHandled s new)"
      "hasOnError options \<longrightarrow> errors s' = errors s"
      "\<not> hasOnError options \<longrightarrow> (\<forall>e \<in> set (fullTextHandled s new). added (heap s' e))"
      "set (logged s') = set (logged s) \<union> set (fullTextHandled s new)"
    by (simp_all add: queueStep_def)
  have ne: "newEvents s s' = new" using t(1) by (simp add: newEvents_def)
  have silent: "\<forall>(lib, e) \<in> set (fullTextRejected new).
           isPreconditionFailed (heap s e) \<longrightarrow>
             lib \<in> set resync
             \<and> (e \<in> set (classified s') \<longrightarrow> e \<in> set (classified s))
             \<and> (e \<in> set (sunk s') \<longrightarrow> e \<in> set (sunk s))
             \<and> (e \<in> set (errors s') \<longrightarrow> e \<in> set (errors s))
             \<and> (e \<in> set (logged s') \<longrightarrow> e \<in> set (logged s))"
  proof (clarify, intro conjI impI)
    fix lib e
    assume mem: "(lib, e) \<in> set (fullTextRejected new)" and p: "isPreconditionFailed (heap s e)"
    from p have nh: "e \<notin> set (fullTextHandled s new)" using fullTextHandled_not_412 by blast
    show "lib \<in> set resync" using fullTextResync_mem[OF mem p] t(2) by simp
    show "e \<in> set (classified s)" if "e \<in> set (classified s')" using that nh t(3) by simp
    show "e \<in> set (sunk s)" if "e \<in> set (sunk s')" using that nh t(4) by (simp split: if_splits)
    show "e \<in> set (errors s)" if "e \<in> set (errors s')" using that nh q(2) by blast
    show "e \<in> set (logged s)" if "e \<in> set (logged s')" using that nh q(5) by blast
  qed
  have full: "(\<forall>e \<in> set (fullTextHandled s new). \<not> fatal (heap s e)) \<longrightarrow> map eventLibrary new = libs"
    using t(6,7) by auto
  have queued: "\<not> hasOnError options \<longrightarrow>
          (\<forall>e \<in> set (fullTextHandled s new). added (heap s' e) \<and> (added (heap s e) \<or> e \<in> set (errors s')))"
    using q(1,4) by blast
  show ?thesis
    unfolding ne
    using t(2,3,4,5,6,8) silent full q(3,5) queued by blast
qed

lemma fullTextRun:
  "doFullTextSync fullTextWorld (engineOptionsOf plainOptions fullTextState) [1, 2, 3] fullTextState
   = ([1], fullTextState\<lparr>
        heap := (heap fullTextState)(Thrown 1 := blank_err\<lparr>added := True, parsed := True,
                   errorType := Some ''error''\<rparr>),
        errors := [Thrown 1],
        lastSyncStatus := Some ''sync.status.syncingFullText'',
        logged := [Thrown 1, Thrown 1],
        classified := [Thrown 1],
        tick := 3,
        engineLog := [FullTextRun 1 (Rejected 0), FullTextRun 2 (Rejected 1),
                      FullTextRun 3 (Resolved ())]\<rparr>)"
  by (simp add: doFullTextSync_def fullTextWorld_def quiet_world_def fullTextState_def
      init_runner_def blank_err_def Let_def isPreconditionFailed_def engineFailed_def
      engineOptionsOf_def engineOnError_def plainOptions_def checkError_unawaited_def
      checkError_def addError_def parseError_def stopOnError_def)

theorem doFullTextSync_precondition_failed_witness:
  "fst (doFullTextSync fullTextWorld (engineOptionsOf plainOptions fullTextState) [1, 2, 3]
          fullTextState) = [1]
   \<and> fullTextResync fullTextState (newEvents fullTextState
         (snd (doFullTextSync fullTextWorld (engineOptionsOf plainOptions fullTextState) [1, 2, 3]
            fullTextState))) = [1]
   \<and> errors (snd (doFullTextSync fullTextWorld (engineOptionsOf plainOptions fullTextState)
         [1, 2, 3] fullTextState)) = [Thrown 1]
   \<and> classified (snd (doFullTextSync fullTextWorld (engineOptionsOf plainOptions fullTextState)
         [1, 2, 3] fullTextState)) = [Thrown 1]
   \<and> \<not> callerStopped (snd (doFullTextSync fullTextWorld
         (engineOptionsOf plainOptions fullTextState) [1, 2, 3] fullTextState))"
proof -
  let ?R = "doFullTextSync fullTextWorld (engineOptionsOf plainOptions fullTextState) [1, 2, 3]
          fullTextState"
  have "?R = (fst ?R, snd ?R)" by simp
  note t = doFullTextSync_precondition_failed[OF this]
  from t have a: "fst ?R = fullTextResync fullTextState (newEvents fullTextState (snd ?R))"
    by (rule conjunct1)
  have b: "fst ?R = [1]" by (simp add: fullTextRun)
  from a b have c: "fullTextResync fullTextState (newEvents fullTextState (snd ?R)) = [1]"
    by simp
  have d: "errors (snd ?R) = [Thrown 1]" "classified (snd ?R) = [Thrown 1]"
    "\<not> callerStopped (snd ?R)"
    unfolding fullTextRun by (simp_all add: fullTextState_def init_runner_def)
  from b c d show ?thesis by blast
qed

subsection \<open>File phase\<close>

lemma storageResync_append: "storageResync (xs @ ys) = storageResync xs @ storageResync ys"
  by (induction xs rule: storageResync.induct) simp_all

lemma storageRejected_append: "storageRejected (xs @ ys) = storageRejected xs @ storageRejected ys"
  by (induction xs rule: storageRejected.induct) simp_all

lemma getStorageController_frame:
  "engineLog (snd (getStorageController mode s)) = engineLog s"
  "callerStopped (snd (getStorageController mode s)) = callerStopped s"
  "heap (snd (getStorageController mode s)) = heap s"
  "nextRef (snd (getStorageController mode s)) = nextRef s"
  "tick (snd (getStorageController mode s)) = tick s"
  "errors (snd (getStorageController mode s)) = errors s"
  "classified (snd (getStorageController mode s)) = classified s"
  "logged (snd (getStorageController mode s)) = logged s"
  "sunk (snd (getStorageController mode s)) = sunk s"
  by (simp_all add: getStorageController_def split: option.split)

lemma fileSyncTries_trace:
  "fileSyncTries w n lib s = (res, s') \<Longrightarrow>
   \<exists>new. engineLog s' = engineLog s @ new
     \<and> length new \<le> n
     \<and> (\<forall>ev \<in> set new. \<exists>r. ev = StorageRun lib r)
     \<and> (\<forall>ev \<in> set (butlast new). repeatSignal ev)
     \<and> storageResync new = (if res = Inr True then [lib] else [])
     \<and> callerStopped s' = callerStopped s
     \<and> errors s' = errors s \<and> classified s' = classified s \<and> logged s' = logged s
     \<and> sunk s' = sunk s
     \<and> (\<forall>k. heap s' (Thrown k) = heap s (Thrown k))
     \<and> (case res of
           Inr pushed \<Rightarrow> new \<noteq> [] \<and> \<not> repeatSignal (last new) \<and> storageRejected new = []
                          \<and> (\<exists>r. last new = StorageRun lib (Resolved r) \<and> pushed = syncRequired r)
                          \<and> nextRef s' = nextRef s \<and> heap s' = heap s
         | Inl e \<Rightarrow>
             (\<exists>k. new \<noteq> [] \<and> last new = StorageRun lib (Rejected k) \<and> e = Thrown k
                  \<and> storageRejected new = [e] \<and> nextRef s' = nextRef s \<and> heap s' = heap s)
             \<or> (length new = n \<and> (\<forall>ev \<in> set new. repeatSignal ev) \<and> storageRejected new = []
                  \<and> e = Created (nextRef s) \<and> nextRef s' = Suc (nextRef s)
                  \<and> heap s' = (heap s)(e := fileSyncExhausted lib)))"
proof (induction n arbitrary: s)
  case 0
  then show ?case by (auto simp: alloc_def fileSyncExhausted_def)
next
  case (Suc n)
  let ?ev = "StorageRun lib (storageEngine w (tick s) lib)"
  let ?s1 = "s\<lparr>tick := Suc (tick s), engineLog := engineLog s @ [?ev]\<rparr>"
  show ?case
  proof (cases "storageEngine w (tick s) lib")
    case (Rejected k)
    with Suc.prems have "res = Inl (Thrown k)" "s' = ?s1" by simp_all
    then show ?thesis
      apply -
      apply (rule exI[of _ "[?ev]"])
      using Rejected by (simp add: repeatSignal_def)
  next
    case (Resolved r)
    show ?thesis
    proof (cases "syncRequired r")
      case True
      with Suc.prems Resolved have "res = Inr True" "s' = ?s1" by simp_all
      then show ?thesis
        apply -
        apply (rule exI[of _ "[?ev]"])
        using Resolved True by (simp add: repeatSignal_def)
    next
      case ns: False
      show ?thesis
      proof (cases "fileSyncRequired r")
        case False
        with Suc.prems Resolved ns have "res = Inr False" "s' = ?s1" by simp_all
        then show ?thesis
          apply -
          apply (rule exI[of _ "[?ev]"])
          using Resolved ns False by (simp add: repeatSignal_def)
      next
        case True
        with Suc.prems Resolved ns have "fileSyncTries w n lib ?s1 = (res, s')" by simp
        from Suc.IH[OF this] obtain new where
          n: "engineLog s' = engineLog ?s1 @ new"
             "length new \<le> n"
             "\<forall>ev \<in> set new. \<exists>r. ev = StorageRun lib r"
             "\<forall>ev \<in> set (butlast new). repeatSignal ev"
             "storageResync new = (if res = Inr True then [lib] else [])"
             "callerStopped s' = callerStopped ?s1"
             "errors s' = errors ?s1 \<and> classified s' = classified ?s1 \<and> logged s' = logged ?s1"
             "sunk s' = sunk ?s1"
             "\<forall>k. heap s' (Thrown k) = heap ?s1 (Thrown k)"
             "case res of
               Inr pushed \<Rightarrow> new \<noteq> [] \<and> \<not> repeatSignal (last new) \<and> storageRejected new = []
                          \<and> (\<exists>r. last new = StorageRun lib (Resolved r) \<and> pushed = syncRequired r)
                          \<and> nextRef s' = nextRef ?s1 \<and> heap s' = heap ?s1
             | Inl e \<Rightarrow>
                 (\<exists>k. new \<noteq> [] \<and> last new = StorageRun lib (Rejected k) \<and> e = Thrown k
                      \<and> storageRejected new = [e] \<and> nextRef s' = nextRef ?s1 \<and> heap s' = heap ?s1)
                 \<or> (length new = n \<and> (\<forall>ev \<in> set new. repeatSignal ev) \<and> storageRejected new = []
                      \<and> e = Created (nextRef ?s1) \<and> nextRef s' = Suc (nextRef ?s1)
                      \<and> heap s' = (heap ?s1)(e := fileSyncExhausted lib))"
          by blast
        have rep: "repeatSignal ?ev" using Resolved ns True by (simp add: repeatSignal_def)
        have bl: "\<forall>ev \<in> set (butlast (?ev # new)). repeatSignal ev"
          using rep n(4) by (cases new) auto
        show ?thesis
          apply (rule exI[of _ "?ev # new"])
          apply (intro conjI)
          subgoal using n(1) by simp
          subgoal using n(2) by simp
          subgoal using n(3) by auto
          subgoal by (rule bl)
          subgoal using n(5) Resolved ns by simp
          subgoal using n(6) by simp
          subgoal using n(7) by simp
          subgoal using n(7) by simp
          subgoal using n(7) by simp
          subgoal using n(8) by simp
          subgoal using n(9) by simp
          subgoal using n(10) rep Resolved ns by (cases res) auto
          done
      qed
    qed
  qed
qed

lemma fileSyncTries_summary:
  assumes "fileSyncTries w 3 lib s = (res, s')"
  shows "\<exists>new. engineLog s' = engineLog s @ new
     \<and> length new \<le> 3
     \<and> (\<forall>ev \<in> set new. \<exists>r. ev = StorageRun lib r)
     \<and> storageResync new = (if res = Inr True then [lib] else [])
     \<and> callerStopped s' = callerStopped s
     \<and> (\<forall>k. heap s' (Thrown k) = heap s (Thrown k))
     \<and> (case res of
           Inr pushed \<Rightarrow> new \<noteq> [] \<and> storageRejected new = [] \<and> heap s' = heap s
         | Inl e \<Rightarrow>
             (\<exists>k. new \<noteq> [] \<and> e = Thrown k \<and> storageRejected new = [e])
             \<or> (length new = 3 \<and> storageRejected new = []
                  \<and> (\<exists>j. e = Created j) \<and> \<not> fatal (heap s' e)))"
proof -
  from fileSyncTries_trace[OF assms] obtain new where
    a: "engineLog s' = engineLog s @ new" "length new \<le> 3"
       "\<forall>ev \<in> set new. \<exists>r. ev = StorageRun lib r"
       "storageResync new = (if res = Inr True then [lib] else [])"
       "callerStopped s' = callerStopped s"
       "\<forall>k. heap s' (Thrown k) = heap s (Thrown k)"
    and c: "case res of
           Inr pushed \<Rightarrow> new \<noteq> [] \<and> \<not> repeatSignal (last new) \<and> storageRejected new = []
                          \<and> (\<exists>r. last new = StorageRun lib (Resolved r) \<and> pushed = syncRequired r)
                          \<and> nextRef s' = nextRef s \<and> heap s' = heap s
         | Inl e \<Rightarrow>
             (\<exists>k. new \<noteq> [] \<and> last new = StorageRun lib (Rejected k) \<and> e = Thrown k
                  \<and> storageRejected new = [e] \<and> nextRef s' = nextRef s \<and> heap s' = heap s)
             \<or> (length new = 3 \<and> (\<forall>ev \<in> set new. repeatSignal ev) \<and> storageRejected new = []
                  \<and> e = Created (nextRef s) \<and> nextRef s' = Suc (nextRef s)
                  \<and> heap s' = (heap s)(e := fileSyncExhausted lib))"
    by blast
  have "case res of
           Inr pushed \<Rightarrow> new \<noteq> [] \<and> storageRejected new = [] \<and> heap s' = heap s
         | Inl e \<Rightarrow>
             (\<exists>k. new \<noteq> [] \<and> e = Thrown k \<and> storageRejected new = [e])
             \<or> (length new = 3 \<and> storageRejected new = []
                  \<and> (\<exists>j. e = Created j) \<and> \<not> fatal (heap s' e))"
  proof (cases res)
    case (Inr pushed)
    with c show ?thesis by simp
  next
    case (Inl e)
    with c have "(\<exists>k. new \<noteq> [] \<and> e = Thrown k \<and> storageRejected new = [e])
             \<or> (length new = 3 \<and> storageRejected new = [] \<and> e = Created (nextRef s)
                  \<and> heap s' = (heap s)(e := fileSyncExhausted lib))"
      by auto
    then show ?thesis
    proof
      assume "\<exists>k. new \<noteq> [] \<and> e = Thrown k \<and> storageRejected new = [e]"
      with Inl show ?thesis by simp
    next
      assume x: "length new = 3 \<and> storageRejected new = [] \<and> e = Created (nextRef s)
                  \<and> heap s' = (heap s)(e := fileSyncExhausted lib)"
      then have "\<not> fatal (heap s' e)" by (simp add: fileSyncExhausted_def blank_err_def)
      with x Inl show ?thesis by simp
    qed
  qed
  with a show ?thesis by blast
qed

lemma fileSyncLoop_trace:
  "fileSyncLoop w (engineOptionsOf options fs) libs acc s = (resync, s') \<Longrightarrow>
   \<exists>new. engineLog s' = engineLog s @ new
     \<and> resync = acc @ storageResync new
     \<and> length new \<le> 3 * length libs
     \<and> callerStopped s' = (callerStopped s \<or> (\<exists>e \<in> set (storageRejected new). fatal (heap s e)))
     \<and> ((\<forall>e \<in> set (storageRejected new). \<not> fatal (heap s e)) \<longrightarrow> set libs \<subseteq> eventLibrary ` set new)
     \<and> eventLibrary ` set new \<subseteq> set libs
     \<and> (\<forall>k. fatal (heap s' (Thrown k)) = fatal (heap s (Thrown k)))"
proof (induction libs arbitrary: acc s)
  case Nil
  then show ?case by simp
next
  case (Cons lib rest)
  let ?s1 = "snd (getStorageController (modeForLibrary w lib) s)"
  note g = getStorageController_frame[of "modeForLibrary w lib" s]
  obtain res s2 where tr: "fileSyncTries w 3 lib ?s1 = (res, s2)"
    by (cases "fileSyncTries w 3 lib ?s1")
  from fileSyncTries_summary[OF tr] obtain new1 where
    t: "engineLog s2 = engineLog s @ new1"
       "length new1 \<le> 3"
       "\<forall>ev \<in> set new1. \<exists>r. ev = StorageRun lib r"
       "storageResync new1 = (if res = Inr True then [lib] else [])"
       "callerStopped s2 = callerStopped s"
       "\<forall>k. heap s2 (Thrown k) = heap s (Thrown k)"
       "case res of
           Inr pushed \<Rightarrow> new1 \<noteq> [] \<and> storageRejected new1 = [] \<and> heap s2 = heap s
         | Inl e \<Rightarrow>
             (\<exists>k. new1 \<noteq> [] \<and> e = Thrown k \<and> storageRejected new1 = [e])
             \<or> (length new1 = 3 \<and> storageRejected new1 = []
                  \<and> (\<exists>j. e = Created j) \<and> \<not> fatal (heap s2 e))"
    unfolding g by blast
  have ne: "new1 \<noteq> []" using t(7) by (cases res) auto
  have libs1: "eventLibrary ` set new1 = {lib}"
    using t(3) ne by (cases new1) force+
  have thrown_fatal: "\<And>e. e \<in> set (storageRejected new1) \<Longrightarrow> fatal (heap s2 e) = fatal (heap s e)"
    using t(6,7) by (cases res) auto
  show ?case
  proof (cases res)
    case (Inr pushed)
    with Cons.prems tr have
      "fileSyncLoop w (engineOptionsOf options fs) rest (if pushed then acc @ [lib] else acc) s2
         = (resync, s')"
      by (simp add: Let_def)
    from Cons.IH[OF this] obtain new where
      n: "engineLog s' = engineLog s2 @ new"
         "resync = (if pushed then acc @ [lib] else acc) @ storageResync new"
         "length new \<le> 3 * length rest"
         "callerStopped s' = (callerStopped s2 \<or> (\<exists>e \<in> set (storageRejected new). fatal (heap s2 e)))"
         "(\<forall>e \<in> set (storageRejected new). \<not> fatal (heap s2 e)) \<longrightarrow> set rest \<subseteq> eventLibrary ` set new"
         "eventLibrary ` set new \<subseteq> set rest"
         "\<forall>k. fatal (heap s' (Thrown k)) = fatal (heap s2 (Thrown k))"
      by blast
    from Inr t(7) have rj: "storageRejected new1 = []" by simp
    have hp: "heap s2 = heap s" using t(7) Inr by simp
    show ?thesis
      apply (rule exI[of _ "new1 @ new"])
      apply (intro conjI)
      subgoal using n(1) t(1) by simp
      subgoal using n(2) t(4) Inr by (cases pushed) (simp_all add: storageResync_append)
      subgoal using n(3) t(2) by simp
      subgoal using n(4) t(5) rj hp by (simp add: storageRejected_append)
      subgoal using n(5) rj hp libs1 by (auto simp: storageRejected_append)
      subgoal using n(6) libs1 by auto
      subgoal using n(7) hp by simp
      done
  next
    case (Inl e)
    obtain b s3 where ef: "engineFailed w (engineOptionsOf options fs) e s2 = (b, s3)"
      by (cases "engineFailed w (engineOptionsOf options fs) e s2")
    note fr = engineFailed_frame[OF ef]
    from Cons.prems tr Inl ef
    have step: "(if b then (acc, s3) else fileSyncLoop w (engineOptionsOf options fs) rest acc s3)
                  = (resync, s')"
      by (auto simp: Let_def split: bool.splits)
    from Inl t(4) have rs: "storageResync new1 = []" by simp
    from Inl t(7) have kinds:
      "(\<exists>k. e = Thrown k \<and> storageRejected new1 = [e])
       \<or> (storageRejected new1 = [] \<and> \<not> fatal (heap s2 e))"
      by auto
    have stop_iff: "fatal (heap s2 e) \<longleftrightarrow> (\<exists>x \<in> set (storageRejected new1). fatal (heap s x))"
      using kinds t(6) by auto
    show ?thesis
    proof (cases b)
      case True
      with step have "resync = acc" "s' = s3" by simp_all
      moreover from True fr have "fatal (heap s2 e)" by simp
      ultimately show ?thesis
        apply -
        apply (rule exI[of _ new1])
        using fr t(1,2,5,6) rs stop_iff libs1 by auto
    next
      case nb: False
      with step have "fileSyncLoop w (engineOptionsOf options fs) rest acc s3 = (resync, s')"
        by simp
      from Cons.IH[OF this] obtain new where
        n: "engineLog s' = engineLog s3 @ new"
           "resync = acc @ storageResync new"
           "length new \<le> 3 * length rest"
           "callerStopped s' = (callerStopped s3 \<or> (\<exists>e \<in> set (storageRejected new). fatal (heap s3 e)))"
           "(\<forall>e \<in> set (storageRejected new). \<not> fatal (heap s3 e)) \<longrightarrow> set rest \<subseteq> eventLibrary ` set new"
           "eventLibrary ` set new \<subseteq> set rest"
           "\<forall>k. fatal (heap s' (Thrown k)) = fatal (heap s3 (Thrown k))"
        by blast
      from nb fr have nf: "\<not> fatal (heap s2 e)" by simp
      have thr: "\<And>x. x \<in> set (storageRejected new) \<Longrightarrow> \<exists>k. x = Thrown k"
      proof -
        fix x show "x \<in> set (storageRejected new) \<Longrightarrow> \<exists>k. x = Thrown k"
          by (induction new rule: storageRejected.induct) auto
      qed
      have f3: "\<And>x. x \<in> set (storageRejected new) \<Longrightarrow> fatal (heap s3 x) = fatal (heap s x)"
        using thr fr(9) t(6) by fastforce
      have nf1: "\<forall>x \<in> set (storageRejected new1). \<not> fatal (heap s x)"
        using nf stop_iff by simp
      show ?thesis
        apply (rule exI[of _ "new1 @ new"])
        apply (intro conjI)
        subgoal using n(1) t(1) fr by simp
        subgoal using n(2) rs by (simp add: storageResync_append)
        subgoal using n(3) t(2) by simp
        subgoal using n(4) t(5) fr nf nf1 f3 by (auto simp: storageRejected_append)
        subgoal using n(5) nf1 f3 libs1 by (auto simp: storageRejected_append)
        subgoal using n(6) libs1 by auto
        subgoal using n(7) fr(9) t(6) by simp
        done
    qed
  qed
qed

lemma repeatSignal_plain:
  "repeatSignal ev \<Longrightarrow> \<not> dataSyncSignal ev \<and> eventError ev = None"
  by (cases ev rule: eventError.cases) (simp_all add: repeatSignal_def dataSyncSignal_def)

lemma eventError_Thrown: "eventError ev = Some e \<Longrightarrow> \<exists>k. e = Thrown k"
  by (cases ev rule: eventError.cases) auto

lemma fatalRejection_cong:
  "(\<And>k. fatal (h (Thrown k)) = fatal (h' (Thrown k))) \<Longrightarrow> fatalRejection h ev = fatalRejection h' ev"
  by (cases ev rule: eventError.cases) (simp_all add: fatalRejection_def)

lemma fileRuns_cong:
  "(\<And>k. fatal (h (Thrown k)) = fatal (h' (Thrown k))) \<Longrightarrow>
     fileRuns h libs runs = fileRuns h' libs runs"
proof (induction h libs runs rule: fileRuns.induct)
  case (1 h runs)
  show ?case by simp
next
  case (2 h lib libs)
  show ?case by simp
next
  case (3 h lib libs evs runs)
  have f: "fatalRejection h (last evs) = fatalRejection h' (last evs)"
    by (rule fatalRejection_cong) (rule "3.prems")
  show ?case using "3.IH" "3.prems" f by simp
qed

lemma checkError_unawaited_message:
  "cls (heap s r) = PlainError \<Longrightarrow>
     message (heap (checkError_unawaited w e s) r) = message (heap s r)"
  by (cases "r = e") (auto simp: checkError_unawaited_def checkError_def Let_def split: exn_class.split)

lemma addError_message: "message (heap (addError e lib s) r) = message (heap s r)"
  by (simp add: addError_def parseError_def Let_def)

lemma engineFailed_message:
  assumes "engineFailed w (engineOptionsOf options fs) e s = (b, s')"
      and "cls (heap s r) = PlainError"
  shows "message (heap s' r) = message (heap s r)"
  using assms
  by (auto simp: engineFailed_def engineOptionsOf_def Let_def stopOnError_def engineOnError_def
      addError_message checkError_unawaited_message split: if_splits)

lemma fileSyncTries_run:
  assumes "fileSyncTries w 3 lib s = (res, s')"
  shows "\<exists>evs. engineLog s' = engineLog s @ evs \<and> libraryRuns lib evs
     \<and> classified s' = classified s \<and> sunk s' = sunk s \<and> logged s' = logged s
     \<and> errors s' = errors s
     \<and> (case res of
           Inr pushed \<Rightarrow>
             pushed = dataSyncSignal (last evs) \<and> \<not> repeatSignal (last evs)
             \<and> eventError (last evs) = None \<and> heap s' = heap s \<and> nextRef s' = nextRef s
         | Inl e \<Rightarrow>
             (eventError (last evs) = Some e \<and> \<not> repeatSignal (last evs)
                \<and> \<not> dataSyncSignal (last evs) \<and> heap s' = heap s \<and> nextRef s' = nextRef s)
             \<or> (repeatSignal (last evs) \<and> e = Created (nextRef s)
                  \<and> nextRef s' = Suc (nextRef s)
                  \<and> heap s' = (heap s)(e := fileSyncExhausted lib)))"
proof -
  from fileSyncTries_trace[OF assms] obtain new where
    a: "engineLog s' = engineLog s @ new" "length new \<le> 3"
       "\<forall>ev \<in> set new. \<exists>r. ev = StorageRun lib r"
       "\<forall>ev \<in> set (butlast new). repeatSignal ev"
       "errors s' = errors s \<and> classified s' = classified s \<and> logged s' = logged s"
       "sunk s' = sunk s"
    and c: "case res of
           Inr pushed \<Rightarrow> new \<noteq> [] \<and> \<not> repeatSignal (last new) \<and> storageRejected new = []
                          \<and> (\<exists>r. last new = StorageRun lib (Resolved r) \<and> pushed = syncRequired r)
                          \<and> nextRef s' = nextRef s \<and> heap s' = heap s
         | Inl e \<Rightarrow>
             (\<exists>k. new \<noteq> [] \<and> last new = StorageRun lib (Rejected k) \<and> e = Thrown k
                  \<and> storageRejected new = [e] \<and> nextRef s' = nextRef s \<and> heap s' = heap s)
             \<or> (length new = 3 \<and> (\<forall>ev \<in> set new. repeatSignal ev) \<and> storageRejected new = []
                  \<and> e = Created (nextRef s) \<and> nextRef s' = Suc (nextRef s)
                  \<and> heap s' = (heap s)(e := fileSyncExhausted lib))"
    by blast
  have ne: "new \<noteq> []" using c by (cases res) auto
  then have lastmem: "last new \<in> set new" by simp
  have kind: "\<forall>ev \<in> set new. eventEngine ev = StorageEngine \<and> eventLibrary ev = lib"
    using a(3) by auto
  have full: "repeatSignal (last new) \<longrightarrow> length new = 3"
    using c by (cases res) (auto simp: repeatSignal_def)
  have runs: "libraryRuns lib new"
    unfolding libraryRuns_def using ne a(2,4) kind full by blast
  have out: "case res of
           Inr pushed \<Rightarrow>
             pushed = dataSyncSignal (last new) \<and> \<not> repeatSignal (last new)
             \<and> eventError (last new) = None \<and> heap s' = heap s \<and> nextRef s' = nextRef s
         | Inl e \<Rightarrow>
             (eventError (last new) = Some e \<and> \<not> repeatSignal (last new)
                \<and> \<not> dataSyncSignal (last new) \<and> heap s' = heap s \<and> nextRef s' = nextRef s)
             \<or> (repeatSignal (last new) \<and> e = Created (nextRef s)
                  \<and> nextRef s' = Suc (nextRef s)
                  \<and> heap s' = (heap s)(e := fileSyncExhausted lib))"
  proof (cases res)
    case (Inr pushed)
    with c obtain r where "last new = StorageRun lib (Resolved r)" "pushed = syncRequired r"
      "\<not> repeatSignal (last new)" "nextRef s' = nextRef s" "heap s' = heap s"
      by auto
    with Inr show ?thesis by (simp add: dataSyncSignal_def)
  next
    case (Inl e)
    with c consider
      (rejected) k where "last new = StorageRun lib (Rejected k)" "e = Thrown k"
        "nextRef s' = nextRef s" "heap s' = heap s"
      | (exhausted) "\<forall>ev \<in> set new. repeatSignal ev" "e = Created (nextRef s)"
        "nextRef s' = Suc (nextRef s)" "heap s' = (heap s)(e := fileSyncExhausted lib)"
      by auto
    then show ?thesis
    proof cases
      case rejected
      with Inl show ?thesis by (simp add: repeatSignal_def dataSyncSignal_def)
    next
      case exhausted
      with lastmem have "repeatSignal (last new)" by blast
      with exhausted Inl show ?thesis by simp
    qed
  qed
  from a(1,5,6) runs out show ?thesis by blast
qed

lemma fileSyncLoop_keeps:
  "fileSyncLoop w (engineOptionsOf options fs) libs acc s = (resync, s') \<Longrightarrow>
   nextRef s \<le> nextRef s'
   \<and> set (errors s) \<subseteq> set (errors s')
   \<and> (\<forall>r. (\<forall>j. r = Created j \<longrightarrow> j < nextRef s) \<longrightarrow>
          (added (heap s r) \<longrightarrow> added (heap s' r))
          \<and> cls (heap s' r) = cls (heap s r) \<and> fatal (heap s' r) = fatal (heap s r)
          \<and> (cls (heap s r) = PlainError \<longrightarrow> message (heap s' r) = message (heap s r)))"
proof (induction libs arbitrary: acc s)
  case Nil
  then show ?case by simp
next
  case (Cons lib rest)
  let ?s1 = "snd (getStorageController (modeForLibrary w lib) s)"
  note g = getStorageController_frame[of "modeForLibrary w lib" s]
  obtain res s2 where tr: "fileSyncTries w 3 lib ?s1 = (res, s2)"
    by (cases "fileSyncTries w 3 lib ?s1")
  from fileSyncTries_run[OF tr] obtain evs where
    t: "errors s2 = errors s"
       "case res of
           Inr pushed \<Rightarrow> heap s2 = heap s \<and> nextRef s2 = nextRef s
         | Inl e \<Rightarrow>
             (heap s2 = heap s \<and> nextRef s2 = nextRef s)
             \<or> (e = Created (nextRef s) \<and> nextRef s2 = Suc (nextRef s)
                  \<and> heap s2 = (heap s)(e := fileSyncExhausted lib))"
    unfolding g by (cases res) auto
  have step2: "nextRef s \<le> nextRef s2"
    "\<And>r. (\<forall>j. r = Created j \<longrightarrow> j < nextRef s) \<Longrightarrow> heap s2 r = heap s r"
    using t(2) by (cases res; auto)+
  show ?case
  proof (cases res)
    case (Inr pushed)
    with Cons.prems tr have
      "fileSyncLoop w (engineOptionsOf options fs) rest (if pushed then acc @ [lib] else acc) s2
         = (resync, s')"
      by (simp add: Let_def)
    note ih = Cons.IH[OF this]
    note n = ih[THEN conjunct1] ih[THEN conjunct2, THEN conjunct1]
      ih[THEN conjunct2, THEN conjunct2, THEN spec, THEN mp]
    show ?thesis
    proof (intro conjI allI impI)
      show "nextRef s \<le> nextRef s'" using n(1) step2(1) by simp
      show "set (errors s) \<subseteq> set (errors s')" using n(2) t(1) by simp
    next
      fix r assume old: "\<forall>j. r = Created j \<longrightarrow> j < nextRef s"
      then have old2: "\<forall>j. r = Created j \<longrightarrow> j < nextRef s2" using step2(1) by auto
      note k = n(3)[OF old2] step2(2)[OF old]
      show "added (heap s' r)" if "added (heap s r)" using that k by simp
      show "cls (heap s' r) = cls (heap s r)" using k by simp
      show "message (heap s' r) = message (heap s r)" if "cls (heap s r) = PlainError"
        using that k by simp
      show "fatal (heap s' r) = fatal (heap s r)" using k by simp
    qed
  next
    case (Inl e)
    obtain b s3 where ef: "engineFailed w (engineOptionsOf options fs) e s2 = (b, s3)"
      by (cases "engineFailed w (engineOptionsOf options fs) e s2")
    note fr = engineFailed_frame[OF ef]
    note sk = engineFailed_sink[OF ef]
    from Cons.prems tr Inl ef
    have step: "(if b then (acc, s3) else fileSyncLoop w (engineOptionsOf options fs) rest acc s3)
                  = (resync, s')"
      by (auto simp: Let_def split: bool.splits)
    have k3: "\<And>r. (\<forall>j. r = Created j \<longrightarrow> j < nextRef s) \<Longrightarrow>
          (added (heap s r) \<longrightarrow> added (heap s3 r))
          \<and> cls (heap s3 r) = cls (heap s r) \<and> fatal (heap s3 r) = fatal (heap s r)
          \<and> (cls (heap s r) = PlainError \<longrightarrow> message (heap s3 r) = message (heap s r))"
    proof -
      fix r assume old: "\<forall>j. r = Created j \<longrightarrow> j < nextRef s"
      note h2 = step2(2)[OF old]
      show "(added (heap s r) \<longrightarrow> added (heap s3 r))
          \<and> cls (heap s3 r) = cls (heap s r) \<and> fatal (heap s3 r) = fatal (heap s r)
          \<and> (cls (heap s r) = PlainError \<longrightarrow> message (heap s3 r) = message (heap s r))"
        using sk(6)[of r] fr(8)[of r] fr(9)[of r] engineFailed_message[OF ef, of r] h2
        by simp
    qed
    have e3: "set (errors s) \<subseteq> set (errors s3)" using sk(3) t(1) by simp
    have n3: "nextRef s \<le> nextRef s3" using fr(5) step2(1) by simp
    show ?thesis
    proof (cases b)
      case True
      with step have "s' = s3" by simp
      with k3 e3 n3 show ?thesis by simp
    next
      case False
      with step have "fileSyncLoop w (engineOptionsOf options fs) rest acc s3 = (resync, s')"
        by simp
      note ih = Cons.IH[OF this]
      note n = ih[THEN conjunct1] ih[THEN conjunct2, THEN conjunct1]
        ih[THEN conjunct2, THEN conjunct2, THEN spec, THEN mp]
      show ?thesis
      proof (intro conjI allI impI)
        show "nextRef s \<le> nextRef s'" using n(1) n3 by simp
        show "set (errors s) \<subseteq> set (errors s')" using n(2) e3 by blast
      next
        fix r assume old: "\<forall>j. r = Created j \<longrightarrow> j < nextRef s"
        then have old3: "\<forall>j. r = Created j \<longrightarrow> j < nextRef s3" using n3 by auto
        note k = n(3)[OF old3] k3[OF old]
        show "added (heap s' r)" if "added (heap s r)" using that k by simp
        show "cls (heap s' r) = cls (heap s r)" using k by simp
        show "message (heap s' r) = message (heap s r)" if "cls (heap s r) = PlainError"
          using that k by simp
        show "fatal (heap s' r) = fatal (heap s r)" using k by simp
      qed
    qed
  qed
qed

lemma resyncRuns_simps:
  "resyncRuns [] = []"
  "resyncRuns (evs # runs) =
     (if dataSyncSignal (last evs) then eventLibrary (last evs) # resyncRuns runs
      else resyncRuns runs)"
  by (simp_all add: resyncRuns_def)

lemma libraryRuns_last: "libraryRuns lib evs \<Longrightarrow> eventLibrary (last evs) = lib"
  unfolding libraryRuns_def using last_in_set by blast

lemma fileSyncLoop_runs:
  "fileSyncLoop w (engineOptionsOf options fs) libs acc s = (resync, s') \<Longrightarrow>
   \<exists>runs. engineLog s' = engineLog s @ concat runs
     \<and> fileRuns (heap s) libs runs
     \<and> resync = acc @ resyncRuns runs
     \<and> classified s' = classified s @ map snd (fileErrors (nextRef s) runs)
     \<and> sunk s' = sunk s @ (if hasOnError options then map snd (fileErrors (nextRef s) runs) else [])
     \<and> set (logged s') = set (logged s) \<union> snd ` set (fileErrors (nextRef s) runs)
     \<and> (hasOnError options \<longrightarrow> errors s' = errors s)
     \<and> (\<forall>(l, e) \<in> set (fileErrors (nextRef s) runs).
           (\<not> hasOnError options \<longrightarrow> added (heap s' e))
           \<and> (case e of
                 Thrown k \<Rightarrow> True
               | Created j \<Rightarrow>
                   nextRef s \<le> j \<and> j < nextRef s'
                   \<and> cls (heap s' e) = PlainError
                   \<and> message (heap s' e) = message (fileSyncExhausted l)
                   \<and> \<not> fatal (heap s' e)
                   \<and> (\<not> hasOnError options \<longrightarrow> e \<in> set (errors s'))))"
proof (induction libs arbitrary: acc s)
  case Nil
  then show ?case by (simp add: resyncRuns_simps)
next
  case (Cons lib rest)
  let ?s1 = "snd (getStorageController (modeForLibrary w lib) s)"
  note g = getStorageController_frame[of "modeForLibrary w lib" s]
  obtain res s2 where tr: "fileSyncTries w 3 lib ?s1 = (res, s2)"
    by (cases "fileSyncTries w 3 lib ?s1")
  from fileSyncTries_run[OF tr] obtain evs where
    t: "engineLog s2 = engineLog s @ evs" "libraryRuns lib evs"
       "classified s2 = classified s" "sunk s2 = sunk s" "logged s2 = logged s"
       "errors s2 = errors s"
    and out: "case res of
           Inr pushed \<Rightarrow>
             pushed = dataSyncSignal (last evs) \<and> \<not> repeatSignal (last evs)
             \<and> eventError (last evs) = None \<and> heap s2 = heap s \<and> nextRef s2 = nextRef s
         | Inl e \<Rightarrow>
             (eventError (last evs) = Some e \<and> \<not> repeatSignal (last evs)
                \<and> \<not> dataSyncSignal (last evs) \<and> heap s2 = heap s \<and> nextRef s2 = nextRef s)
             \<or> (repeatSignal (last evs) \<and> e = Created (nextRef s)
                  \<and> nextRef s2 = Suc (nextRef s)
                  \<and> heap s2 = (heap s)(e := fileSyncExhausted lib))"
    unfolding g by blast
  note lastlib = libraryRuns_last[OF t(2)]
  show ?case
  proof (cases res)
    case (Inr pushed)
    with out have o: "pushed = dataSyncSignal (last evs)" "\<not> repeatSignal (last evs)"
      "eventError (last evs) = None" "heap s2 = heap s" "nextRef s2 = nextRef s"
      by simp_all
    from Inr Cons.prems tr have
      "fileSyncLoop w (engineOptionsOf options fs) rest (if pushed then acc @ [lib] else acc) s2
         = (resync, s')"
      by (simp add: Let_def)
    from Cons.IH[OF this] obtain runs where
      n: "engineLog s' = engineLog s2 @ concat runs"
         "fileRuns (heap s2) rest runs"
         "resync = (if pushed then acc @ [lib] else acc) @ resyncRuns runs"
         "classified s' = classified s2 @ map snd (fileErrors (nextRef s2) runs)"
         "sunk s' = sunk s2 @ (if hasOnError options then map snd (fileErrors (nextRef s2) runs) else [])"
         "set (logged s') = set (logged s2) \<union> snd ` set (fileErrors (nextRef s2) runs)"
         "hasOnError options \<longrightarrow> errors s' = errors s2"
         "\<forall>(l, e) \<in> set (fileErrors (nextRef s2) runs).
           (\<not> hasOnError options \<longrightarrow> added (heap s' e))
           \<and> (case e of
                 Thrown k \<Rightarrow> True
               | Created j \<Rightarrow>
                   nextRef s2 \<le> j \<and> j < nextRef s'
                   \<and> cls (heap s' e) = PlainError
                   \<and> message (heap s' e) = message (fileSyncExhausted l)
                   \<and> \<not> fatal (heap s' e)
                   \<and> (\<not> hasOnError options \<longrightarrow> e \<in> set (errors s')))"
      by blast
    have nf: "\<not> fatalRejection (heap s) (last evs)" using o(3) by (simp add: fatalRejection_def)
    have fe: "fileErrors (nextRef s) (evs # runs) = fileErrors (nextRef s) runs"
      using o(2,3) by simp
    show ?thesis
      apply (rule exI[of _ "evs # runs"])
      unfolding fe
      apply (intro conjI)
      subgoal using n(1) t(1) by simp
      subgoal using n(2) t(2) nf o(4) by simp
      subgoal using n(3) o(1) lastlib by (simp add: resyncRuns_simps)
      subgoal using n(4) t(3) o(5) by simp
      subgoal using n(5) t(4) o(5) by simp
      subgoal using n(6) t(5) o(5) by simp
      subgoal using n(7) t(6) by simp
      subgoal using n(8)[unfolded o(5)] .
      done
  next
    case (Inl e)
    obtain b s3 where ef: "engineFailed w (engineOptionsOf options fs) e s2 = (b, s3)"
      by (cases "engineFailed w (engineOptionsOf options fs) e s2")
    note fr = engineFailed_frame[OF ef]
    note sk = engineFailed_sink[OF ef]
    from Cons.prems tr Inl ef
    have step: "(if b then (acc, s3) else fileSyncLoop w (engineOptionsOf options fs) rest acc s3)
                  = (resync, s')"
      by (auto simp: Let_def split: bool.splits)
    have cl3: "classified s3 = classified s @ [e]" using fr(4) t(3) by simp
    have sn3: "sunk s3 = sunk s @ (if hasOnError options then [e] else [])" using sk(1) t(4) by simp
    have lg3: "set (logged s3) = insert e (set (logged s))" using sk(7) t(5) by simp
    have er3: "hasOnError options \<longrightarrow> errors s3 = errors s" using sk(2) t(6) by simp
    have ad3: "\<not> hasOnError options \<longrightarrow> added (heap s3 e)" using sk(5) by simp
    from Inl out consider
      (rejected) "eventError (last evs) = Some e" "\<not> repeatSignal (last evs)"
        "\<not> dataSyncSignal (last evs)" "heap s2 = heap s" "nextRef s2 = nextRef s"
      | (exhausted) "repeatSignal (last evs)" "e = Created (nextRef s)"
        "nextRef s2 = Suc (nextRef s)" "heap s2 = (heap s)(e := fileSyncExhausted lib)"
      by auto
    then show ?thesis
    proof cases
      case rejected
      from eventError_Thrown[OF rejected(1)] obtain k where k: "e = Thrown k" by blast
      have fe: "\<And>rs. fileErrors (nextRef s) (evs # rs) = (lib, e) # fileErrors (nextRef s) rs"
        using rejected(1,2) lastlib by simp
      have fat: "fatalRejection (heap s) (last evs) = b"
        using rejected(1,4) fr(10) by (simp add: fatalRejection_def)
      have rs: "\<And>rs. resyncRuns (evs # rs) = resyncRuns rs"
        using rejected(3) by (simp add: resyncRuns_simps)
      show ?thesis
      proof (cases b)
        case True
        with step have r: "resync = acc" "s' = s3" by simp_all
        show ?thesis
          apply (rule exI[of _ "[evs]"])
          unfolding fe rs r
          apply (intro conjI)
          subgoal using fr(1) t(1) by simp
          subgoal using t(2) fat True by simp
          subgoal by (simp add: resyncRuns_simps)
          subgoal using cl3 by simp
          subgoal using sn3 by simp
          subgoal using lg3 by simp
          subgoal using er3 by simp
          subgoal using ad3 k by simp
          done
      next
        case False
        with step have "fileSyncLoop w (engineOptionsOf options fs) rest acc s3 = (resync, s')"
          by simp
        note loop = this
        from Cons.IH[OF loop] obtain runs where
          n: "engineLog s' = engineLog s3 @ concat runs"
             "fileRuns (heap s3) rest runs"
             "resync = acc @ resyncRuns runs"
             "classified s' = classified s3 @ map snd (fileErrors (nextRef s3) runs)"
             "sunk s' = sunk s3 @ (if hasOnError options then map snd (fileErrors (nextRef s3) runs) else [])"
             "set (logged s') = set (logged s3) \<union> snd ` set (fileErrors (nextRef s3) runs)"
             "hasOnError options \<longrightarrow> errors s' = errors s3"
             "\<forall>(l, e) \<in> set (fileErrors (nextRef s3) runs).
               (\<not> hasOnError options \<longrightarrow> added (heap s' e))
               \<and> (case e of
                     Thrown k \<Rightarrow> True
                   | Created j \<Rightarrow>
                       nextRef s3 \<le> j \<and> j < nextRef s'
                       \<and> cls (heap s' e) = PlainError
                       \<and> message (heap s' e) = message (fileSyncExhausted l)
                       \<and> \<not> fatal (heap s' e)
                       \<and> (\<not> hasOnError options \<longrightarrow> e \<in> set (errors s')))"
          by blast
        note keep = fileSyncLoop_keeps[OF loop, THEN conjunct2, THEN conjunct2, THEN spec, THEN mp, of e]
        have ad: "\<not> hasOnError options \<longrightarrow> added (heap s' e)"
          using ad3 keep k by simp
        have n3: "nextRef s3 = nextRef s" using fr(5) rejected(5) by simp
        have fr2: "fileRuns (heap s) rest runs"
          using n(2) fileRuns_cong[of "heap s3" "heap s" rest runs] fr(9) rejected(4) by simp
        show ?thesis
          apply (rule exI[of _ "evs # runs"])
          unfolding fe rs
          apply (intro conjI)
          subgoal using n(1) fr(1) t(1) by simp
          subgoal using fr2 t(2) fat False by simp
          subgoal using n(3) by simp
          subgoal using n(4) cl3 n3 by simp
          subgoal using n(5) sn3 n3 by simp
          subgoal using n(6) lg3 n3 by auto
          subgoal using n(7) er3 by simp
          subgoal using n(8)[unfolded n3] ad k by simp
          done
      qed
    next
      case exhausted
      have h2: "heap s2 e = fileSyncExhausted lib" using exhausted(4) by simp
      have nb: "\<not> b" using fr(10) h2 by (simp add: fileSyncExhausted_def blank_err_def)
      with step have loop: "fileSyncLoop w (engineOptionsOf options fs) rest acc s3 = (resync, s')"
        by simp
      from Cons.IH[OF loop] obtain runs where
        n: "engineLog s' = engineLog s3 @ concat runs"
           "fileRuns (heap s3) rest runs"
           "resync = acc @ resyncRuns runs"
           "classified s' = classified s3 @ map snd (fileErrors (nextRef s3) runs)"
           "sunk s' = sunk s3 @ (if hasOnError options then map snd (fileErrors (nextRef s3) runs) else [])"
           "set (logged s') = set (logged s3) \<union> snd ` set (fileErrors (nextRef s3) runs)"
           "hasOnError options \<longrightarrow> errors s' = errors s3"
           "\<forall>(l, e) \<in> set (fileErrors (nextRef s3) runs).
             (\<not> hasOnError options \<longrightarrow> added (heap s' e))
             \<and> (case e of
                   Thrown k \<Rightarrow> True
                 | Created j \<Rightarrow>
                     nextRef s3 \<le> j \<and> j < nextRef s'
                     \<and> cls (heap s' e) = PlainError
                     \<and> message (heap s' e) = message (fileSyncExhausted l)
                     \<and> \<not> fatal (heap s' e)
                     \<and> (\<not> hasOnError options \<longrightarrow> e \<in> set (errors s')))"
        by blast
      have n3: "nextRef s3 = Suc (nextRef s)" using fr(5) exhausted(3) by simp
      have old: "\<forall>j. e = Created j \<longrightarrow> j < nextRef s3" using exhausted(2) n3 by simp
      note keeps = fileSyncLoop_keeps[OF loop]
      note keepr = keeps[THEN conjunct2, THEN conjunct2, THEN spec, THEN mp, of e]
      have keep: "nextRef s3 \<le> nextRef s'" "set (errors s3) \<subseteq> set (errors s')"
        "added (heap s3 e) \<longrightarrow> added (heap s' e)"
        "cls (heap s3 e) = PlainError \<longrightarrow>
           cls (heap s' e) = PlainError \<and> message (heap s' e) = message (heap s3 e)
           \<and> fatal (heap s' e) = fatal (heap s3 e)"
        using keeps[THEN conjunct1] keeps[THEN conjunct2, THEN conjunct1] keepr old
        by simp_all
      have c2: "cls (heap s2 e) = PlainError" "\<not> fatal (heap s2 e)" "\<not> added (heap s2 e)"
        using h2 by (simp_all add: fileSyncExhausted_def blank_err_def)
      have c3: "cls (heap s3 e) = PlainError" "\<not> fatal (heap s3 e)"
        "message (heap s3 e) = message (fileSyncExhausted lib)"
        using c2 fr(8)[of e] fr(9)[of e] engineFailed_message[OF ef c2(1)] h2 by simp_all
      have q3: "\<not> hasOnError options \<longrightarrow> e \<in> set (errors s3)" using sk(5) c2(3) by blast
      have head: "(\<not> hasOnError options \<longrightarrow> added (heap s' e))
            \<and> nextRef s \<le> nextRef s \<and> nextRef s < nextRef s'
            \<and> cls (heap s' e) = PlainError
            \<and> message (heap s' e) = message (fileSyncExhausted lib)
            \<and> \<not> fatal (heap s' e)
            \<and> (\<not> hasOnError options \<longrightarrow> e \<in> set (errors s'))"
        using keep c3 q3 ad3 n3 by auto
      have tail: "\<forall>(l, e) \<in> set (fileErrors (Suc (nextRef s)) runs).
             (\<not> hasOnError options \<longrightarrow> added (heap s' e))
             \<and> (case e of
                   Thrown k \<Rightarrow> True
                 | Created j \<Rightarrow>
                     nextRef s \<le> j \<and> j < nextRef s'
                     \<and> cls (heap s' e) = PlainError
                     \<and> message (heap s' e) = message (fileSyncExhausted l)
                     \<and> \<not> fatal (heap s' e)
                     \<and> (\<not> hasOnError options \<longrightarrow> e \<in> set (errors s')))"
        using n(8)[unfolded n3] by (auto split: ref.splits)
      have fe: "fileErrors (nextRef s) (evs # runs)
                  = (lib, e) # fileErrors (Suc (nextRef s)) runs"
        using exhausted(1,2) lastlib by simp
      have nf: "\<not> fatalRejection (heap s) (last evs)"
        using repeatSignal_plain[OF exhausted(1)] by (simp add: fatalRejection_def)
      have rs: "resyncRuns (evs # runs) = resyncRuns runs"
        using repeatSignal_plain[OF exhausted(1)] by (simp add: resyncRuns_simps)
      have fat3: "\<And>k. fatal (heap s3 (Thrown k)) = fatal (heap s (Thrown k))"
        using fr(9) exhausted(2,4) by simp
      have fr2: "fileRuns (heap s) rest runs"
        using n(2) fileRuns_cong[of "heap s3" "heap s" rest runs, OF fat3] by simp
      show ?thesis
        apply (rule exI[of _ "evs # runs"])
        unfolding fe rs
        apply (intro conjI)
        subgoal using n(1) fr(1) t(1) by simp
        subgoal using fr2 t(2) nf by simp
        subgoal using n(3) by simp
        subgoal using n(4) cl3 n3 by simp
        subgoal using n(5) sn3 n3 by simp
        subgoal using n(6) lg3 n3 by auto
        subgoal using n(7) er3 by simp
        subgoal using head tail exhausted(2) by simp
        done
    qed
  qed
qed

lemma fileSyncExhausted_message:
  "message (fileSyncExhausted lib)
     = ''Too many file sync attempts for library '' @ numberToString lib"
  by (simp add: fileSyncExhausted_def)

text \<open>
  Claim C6, as the code has it. The engines a file phase starts fall into one run per
  library, in the order of the libraries: one to three storage engines, started for that
  library, where every result before the last asks for the file sync to be repeated (and
  for no data sync), and a last result that still asks for it is the third. The phase goes
  on to the next library after every run but one that ends with a rejection by a fatal
  error, which ends the phase. The list returned holds the libraries whose last result
  asked for a data sync. The errors handled are, in order, the error objects last engines
  were rejected with and, for every library whose third result still asked for a repeat, a
  new error "Too many file sync attempts for library " followed by the library ID: each is
  logged, classified and given to \<open>options.onError\<close>, which forwards it to the caller's
  sink or else queues it with \<open>addError\<close>. The new error is a plain error that is not
  fatal, so it never ends the phase: \<open>caller.stop()\<close> is called exactly when an error an
  engine was rejected with is fatal, and when none is, every library is processed.
\<close>

theorem doFileSync_attempts:
  assumes phase: "doFileSync w (engineOptionsOf options fs) libs s = (resync, s')"
  shows "\<exists>runs.
       newEvents s s' = concat runs
     \<and> fileRuns (heap s) libs runs
     \<and> resync = resyncRuns runs
     \<and> classified s' = classified s @ map snd (fileErrors (nextRef s) runs)
     \<and> sunk s' = sunk s @ (if hasOnError options then map snd (fileErrors (nextRef s) runs) else [])
     \<and> set (logged s') = set (logged s) \<union> snd ` set (fileErrors (nextRef s) runs)
     \<and> (hasOnError options \<longrightarrow> errors s' = errors s)
     \<and> (\<forall>(lib, e) \<in> set (fileErrors (nextRef s) runs).
           (\<not> hasOnError options \<longrightarrow> added (heap s' e))
           \<and> (case e of
                 Thrown k \<Rightarrow> True
               | Created j \<Rightarrow>
                   nextRef s \<le> j \<and> j < nextRef s'
                   \<and> cls (heap s' e) = PlainError
                   \<and> message (heap s' e)
                        = ''Too many file sync attempts for library '' @ numberToString lib
                   \<and> \<not> fatal (heap s' e)
                   \<and> (\<not> hasOnError options \<longrightarrow> e \<in> set (errors s'))))
     \<and> resync = storageResync (newEvents s s')
     \<and> length (newEvents s s') \<le> 3 * length libs
     \<and> callerStopped s' =
          (callerStopped s \<or> (\<exists>e \<in> set (storageRejected (newEvents s s')). fatal (heap s e)))
     \<and> ((\<forall>e \<in> set (storageRejected (newEvents s s')). \<not> fatal (heap s e)) \<longrightarrow>
          eventLibrary ` set (newEvents s s') = set libs)"
proof -
  let ?s0 = "s\<lparr>lastSyncStatus := Some ''sync.status.syncingFiles''\<rparr>"
  from phase have loop: "fileSyncLoop w (engineOptionsOf options fs) libs [] ?s0 = (resync, s')"
    by (simp add: doFileSync_def)
  have start: "engineLog ?s0 = engineLog s" "heap ?s0 = heap s" "nextRef ?s0 = nextRef s"
    "classified ?s0 = classified s" "sunk ?s0 = sunk s" "logged ?s0 = logged s"
    "errors ?s0 = errors s" "callerStopped ?s0 = callerStopped s"
    by simp_all
  from fileSyncLoop_runs[OF loop, unfolded start] obtain runs where
    r: "engineLog s' = engineLog s @ concat runs"
       "fileRuns (heap s) libs runs"
       "resync = resyncRuns runs"
       "classified s' = classified s @ map snd (fileErrors (nextRef s) runs)"
       "sunk s' = sunk s @ (if hasOnError options then map snd (fileErrors (nextRef s) runs) else [])"
       "set (logged s') = set (logged s) \<union> snd ` set (fileErrors (nextRef s) runs)"
       "hasOnError options \<longrightarrow> errors s' = errors s"
       "\<forall>(lib, e) \<in> set (fileErrors (nextRef s) runs).
           (\<not> hasOnError options \<longrightarrow> added (heap s' e))
           \<and> (case e of
                 Thrown k \<Rightarrow> True
               | Created j \<Rightarrow>
                   nextRef s \<le> j \<and> j < nextRef s'
                   \<and> cls (heap s' e) = PlainError
                   \<and> message (heap s' e) = message (fileSyncExhausted lib)
                   \<and> \<not> fatal (heap s' e)
                   \<and> (\<not> hasOnError options \<longrightarrow> e \<in> set (errors s')))"
    by blast
  from fileSyncLoop_trace[OF loop, unfolded start] obtain new where
    p: "engineLog s' = engineLog s @ new"
       "resync = storageResync new"
       "length new \<le> 3 * length libs"
       "callerStopped s' = (callerStopped s \<or> (\<exists>e \<in> set (storageRejected new). fatal (heap s e)))"
       "(\<forall>e \<in> set (storageRejected new). \<not> fatal (heap s e)) \<longrightarrow> set libs \<subseteq> eventLibrary ` set new"
       "eventLibrary ` set new \<subseteq> set libs"
    by blast
  have ne: "newEvents s s' = new" using p(1) by (simp add: newEvents_def)
  have cr: "new = concat runs" using p(1) r(1) by simp
  have all: "(\<forall>e \<in> set (storageRejected new). \<not> fatal (heap s e)) \<longrightarrow> eventLibrary ` set new = set libs"
    using p(5,6) by blast
  note r8 = r(8)[unfolded fileSyncExhausted_message]
  show ?thesis
    unfolding ne
    apply (rule exI[of _ runs])
    apply (intro conjI)
    subgoal by (rule cr)
    subgoal by (rule r(2))
    subgoal by (rule r(3))
    subgoal by (rule r(4))
    subgoal by (rule r(5))
    subgoal by (rule r(6))
    subgoal by (rule r(7))
    subgoal by (rule r8)
    subgoal by (rule p(2))
    subgoal by (rule p(3))
    subgoal by (rule p(4))
    subgoal by (rule all)
    done
qed

lemma exhaustRun:
  "doFileSync exhaustWorld (engineOptionsOf plainOptions runningState) [1, 2] runningState
   = ([2], runningState\<lparr>
        heap := (heap runningState)(Created 0 :=
                   blank_err\<lparr>message := ''Too many file sync attempts for library 1'',
                     added := True, parsed := True, errorType := Some ''error''\<rparr>),
        nextRef := 1,
        errors := [Created 0],
        lastSyncStatus := Some ''sync.status.syncingFiles'',
        storageControllers := [''zfs'' \<mapsto> 0],
        nextController := 1,
        logged := [Created 0, Created 0],
        classified := [Created 0],
        tick := 4,
        engineLog := [StorageRun 1 (Resolved \<lparr>syncRequired = False, fileSyncRequired = True\<rparr>),
                      StorageRun 1 (Resolved \<lparr>syncRequired = False, fileSyncRequired = True\<rparr>),
                      StorageRun 1 (Resolved \<lparr>syncRequired = False, fileSyncRequired = True\<rparr>),
                      StorageRun 2 (Resolved \<lparr>syncRequired = True, fileSyncRequired = False\<rparr>)]\<rparr>)"
  by (simp add: doFileSync_def numeral_3_eq_3 exhaustWorld_def quiet_world_def runningState_def
      init_runner_def alloc_def Let_def getStorageController_def blank_err_def
      engineFailed_def engineOptionsOf_def engineOnError_def plainOptions_def
      checkError_unawaited_def checkError_def addError_def parseError_def stopOnError_def
      numberToString_def digits.simps)

text \<open>
  The claim as worded makes the exhaustion of the budget fatal. With libraries 1 and 2,
  the budget of library 1 is exhausted after three engines; the error queued for it is not
  fatal, the caller is not stopped, and library 2 is processed and returned.
\<close>

theorem doFileSync_exhausted_counterexample:
  "fst (doFileSync exhaustWorld (engineOptionsOf plainOptions runningState) [1, 2] runningState)
     = [2]
   \<and> engineLog (snd (doFileSync exhaustWorld (engineOptionsOf plainOptions runningState) [1, 2]
        runningState))
     = [StorageRun 1 (Resolved \<lparr>syncRequired = False, fileSyncRequired = True\<rparr>),
        StorageRun 1 (Resolved \<lparr>syncRequired = False, fileSyncRequired = True\<rparr>),
        StorageRun 1 (Resolved \<lparr>syncRequired = False, fileSyncRequired = True\<rparr>),
        StorageRun 2 (Resolved \<lparr>syncRequired = True, fileSyncRequired = False\<rparr>)]
   \<and> errors (snd (doFileSync exhaustWorld (engineOptionsOf plainOptions runningState) [1, 2]
        runningState)) = [Created 0]
   \<and> message (heap (snd (doFileSync exhaustWorld (engineOptionsOf plainOptions runningState)
        [1, 2] runningState)) (Created 0)) = ''Too many file sync attempts for library 1''
   \<and> \<not> fatal (heap (snd (doFileSync exhaustWorld (engineOptionsOf plainOptions runningState)
        [1, 2] runningState)) (Created 0))
   \<and> \<not> callerStopped (snd (doFileSync exhaustWorld (engineOptionsOf plainOptions runningState)
        [1, 2] runningState))"
  unfolding exhaustRun by (simp add: runningState_def init_runner_def blank_err_def)

theorem doFileSync_attempts_witness:
  "(\<exists>runs.
       newEvents runningState
         (snd (doFileSync exhaustWorld (engineOptionsOf plainOptions runningState) [1, 2]
            runningState)) = concat runs
     \<and> fileRuns (heap runningState) [1, 2] runs
     \<and> fst (doFileSync exhaustWorld (engineOptionsOf plainOptions runningState) [1, 2]
          runningState) = resyncRuns runs
     \<and> classified (snd (doFileSync exhaustWorld (engineOptionsOf plainOptions runningState)
          [1, 2] runningState))
         = classified runningState @ map snd (fileErrors (nextRef runningState) runs))
   \<and> fst (doFileSync exhaustWorld (engineOptionsOf plainOptions runningState) [1, 2] runningState)
       = [2]
   \<and> newEvents runningState
       (snd (doFileSync exhaustWorld (engineOptionsOf plainOptions runningState) [1, 2]
          runningState))
       = concat [[StorageRun 1 (Resolved \<lparr>syncRequired = False, fileSyncRequired = True\<rparr>),
                  StorageRun 1 (Resolved \<lparr>syncRequired = False, fileSyncRequired = True\<rparr>),
                  StorageRun 1 (Resolved \<lparr>syncRequired = False, fileSyncRequired = True\<rparr>)],
                 [StorageRun 2 (Resolved \<lparr>syncRequired = True, fileSyncRequired = False\<rparr>)]]
   \<and> fileRuns (heap runningState) [1, 2]
       [[StorageRun 1 (Resolved \<lparr>syncRequired = False, fileSyncRequired = True\<rparr>),
         StorageRun 1 (Resolved \<lparr>syncRequired = False, fileSyncRequired = True\<rparr>),
         StorageRun 1 (Resolved \<lparr>syncRequired = False, fileSyncRequired = True\<rparr>)],
        [StorageRun 2 (Resolved \<lparr>syncRequired = True, fileSyncRequired = False\<rparr>)]]
   \<and> fileErrors (nextRef runningState)
       [[StorageRun 1 (Resolved \<lparr>syncRequired = False, fileSyncRequired = True\<rparr>),
         StorageRun 1 (Resolved \<lparr>syncRequired = False, fileSyncRequired = True\<rparr>),
         StorageRun 1 (Resolved \<lparr>syncRequired = False, fileSyncRequired = True\<rparr>)],
        [StorageRun 2 (Resolved \<lparr>syncRequired = True, fileSyncRequired = False\<rparr>)]]
       = [(1, Created 0)]
   \<and> classified (snd (doFileSync exhaustWorld (engineOptionsOf plainOptions runningState)
        [1, 2] runningState)) = [Created 0]
   \<and> errors (snd (doFileSync exhaustWorld (engineOptionsOf plainOptions runningState)
        [1, 2] runningState)) = [Created 0]"
proof -
  let ?P = "doFileSync exhaustWorld (engineOptionsOf plainOptions runningState) [1, 2] runningState"
  have ph: "?P = (fst ?P, snd ?P)" by simp
  from doFileSync_attempts[OF ph] obtain runs where
    "newEvents runningState (snd ?P) = concat runs"
    "fileRuns (heap runningState) [1, 2] runs"
    "fst ?P = resyncRuns runs"
    "classified (snd ?P) = classified runningState @ map snd (fileErrors (nextRef runningState) runs)"
    by blast
  then have a: "\<exists>runs.
       newEvents runningState (snd ?P) = concat runs
     \<and> fileRuns (heap runningState) [1, 2] runs
     \<and> fst ?P = resyncRuns runs
     \<and> classified (snd ?P) = classified runningState @ map snd (fileErrors (nextRef runningState) runs)"
    by blast
  have b: "fst ?P = [2]" unfolding exhaustRun by simp
  have c: "newEvents runningState (snd ?P)
       = concat [[StorageRun 1 (Resolved \<lparr>syncRequired = False, fileSyncRequired = True\<rparr>),
                  StorageRun 1 (Resolved \<lparr>syncRequired = False, fileSyncRequired = True\<rparr>),
                  StorageRun 1 (Resolved \<lparr>syncRequired = False, fileSyncRequired = True\<rparr>)],
                 [StorageRun 2 (Resolved \<lparr>syncRequired = True, fileSyncRequired = False\<rparr>)]]"
    unfolding exhaustRun by (simp add: newEvents_def runningState_def init_runner_def)
  have d: "fileRuns (heap runningState) [1, 2]
       [[StorageRun 1 (Resolved \<lparr>syncRequired = False, fileSyncRequired = True\<rparr>),
         StorageRun 1 (Resolved \<lparr>syncRequired = False, fileSyncRequired = True\<rparr>),
         StorageRun 1 (Resolved \<lparr>syncRequired = False, fileSyncRequired = True\<rparr>)],
        [StorageRun 2 (Resolved \<lparr>syncRequired = True, fileSyncRequired = False\<rparr>)]]"
    by (simp add: libraryRuns_def repeatSignal_def fatalRejection_def)
  have e: "fileErrors (nextRef runningState)
       [[StorageRun 1 (Resolved \<lparr>syncRequired = False, fileSyncRequired = True\<rparr>),
         StorageRun 1 (Resolved \<lparr>syncRequired = False, fileSyncRequired = True\<rparr>),
         StorageRun 1 (Resolved \<lparr>syncRequired = False, fileSyncRequired = True\<rparr>)],
        [StorageRun 2 (Resolved \<lparr>syncRequired = True, fileSyncRequired = False\<rparr>)]]
       = [(1, Created 0)]"
    by (simp add: repeatSignal_def runningState_def init_runner_def)
  have f: "classified (snd ?P) = [Created 0]" "errors (snd ?P) = [Created 0]"
    unfolding exhaustRun by (simp_all add: runningState_def init_runner_def)
  from a b c d e f show ?thesis by blast
qed

section \<open>Properties of the library set resolution\<close>

lemma throwError_result:
  "fst (throwError msg s) = Inl (Created (nextRef s))"
  "localGroups (snd (throwError msg s)) = localGroups s"
  "tick (snd (throwError msg s)) = tick s"
  "engineLog (snd (throwError msg s)) = engineLog s"
  "message (heap (snd (throwError msg s)) (Created (nextRef s))) = msg"
  "fatal (heap (snd (throwError msg s)) (Created (nextRef s))) = False"
  by (simp_all add: throwError_def alloc_def blank_err_def)

lemma checkLibraries_throws:
  assumes "\<not> isEmpty (groupAccess (access info))" "\<not> groupsAll (access info)"
  shows "checkLibraries w info libs s =
     throwError
       (if libs \<noteq> [] \<and> \<not> userLibraryAccess (access info)
           \<and> list_ex (\<lambda>l. libraryType w l = UserLibrary \<or> libraryType w l = PublicationsLibrary) libs
        then ''Key does not have access to library''
        else ''Full group access is currently required'') s"
proof (cases "libs \<noteq> [] \<and> \<not> userLibraryAccess (access info)
           \<and> list_ex (\<lambda>l. libraryType w l = UserLibrary \<or> libraryType w l = PublicationsLibrary) libs")
  case True
  then show ?thesis
    by (simp add: checkLibraries_def checkUserAccess_def throwError_def split: prod.split)
next
  case False
  define libs1 where "libs1 =
    (if libs = [] \<and> userLibraryAccess (access info)
     then arrayDiff [userLibraryID w, publicationsLibraryID w] (skippedLibraries w) else libs)"
  from False have u: "checkUserAccess w (access info) libs s = (Inr libs1, s)"
    unfolding libs1_def checkUserAccess_def by (cases "libs = []") auto
  have g: "checkGroupAccess w (access info) (libs = []) libs1 s
             = throwError ''Full group access is currently required'' s"
    using assms by (simp add: checkGroupAccess_def)
  have "checkLibraries w info libs s = throwError ''Full group access is currently required'' s"
    by (simp add: checkLibraries_def u g throwError_def alloc_def)
  then show ?thesis unfolding if_not_P[OF False] .
qed

text \<open>
  Claim C8. With a group-access field that is not empty and does not grant all groups,
  \<open>checkLibraries\<close> throws a new error whatever libraries were asked for: the groups'
  versions are not fetched, no dialog is shown, no local group is erased or saved and no
  engine is started. The error is "Full group access is currently required", unless the
  libraries asked for include a user or publications library the key has no access to,
  in which case that access error is thrown first.
\<close>

theorem checkLibraries_partial_group_access:
  assumes "\<not> isEmpty (groupAccess (access info))" "\<not> groupsAll (access info)"
  shows "fst (checkLibraries w info libs s) = Inl (Created (nextRef s))
     \<and> localGroups (snd (checkLibraries w info libs s)) = localGroups s
     \<and> tick (snd (checkLibraries w info libs s)) = tick s
     \<and> engineLog (snd (checkLibraries w info libs s)) = engineLog s
     \<and> message (heap (snd (checkLibraries w info libs s)) (Created (nextRef s))) =
         (if libs \<noteq> [] \<and> \<not> userLibraryAccess (access info)
             \<and> list_ex (\<lambda>l. libraryType w l = UserLibrary \<or> libraryType w l = PublicationsLibrary)
                   libs
          then ''Key does not have access to library''
          else ''Full group access is currently required'')"
  unfolding checkLibraries_throws[OF assms]
  by (simp only: throwError_result simp_thms)

theorem checkLibraries_partial_group_access_witness:
  "\<not> isEmpty (groupAccess (access enumeratedGrant)) \<and> \<not> groupsAll (access enumeratedGrant)
   \<and> fst (checkLibraries quiet_world enumeratedGrant [] init_runner) = Inl (Created 0)
   \<and> message (heap (snd (checkLibraries quiet_world enumeratedGrant [] init_runner)) (Created 0))
       = ''Full group access is currently required''"
proof -
  have a: "\<not> isEmpty (groupAccess (access enumeratedGrant))"
    and b: "\<not> groupsAll (access enumeratedGrant)"
    by (simp_all add: isEmpty_def groupsAll_def enumeratedGrant_def)
  note t = checkLibraries_partial_group_access[OF a b, of quiet_world "[]" init_runner]
  have n: "nextRef init_runner = 0" by (simp add: init_runner_def)
  from t have c: "fst (checkLibraries quiet_world enumeratedGrant [] init_runner) = Inl (Created 0)"
    unfolding n by (rule conjunct1)
  from t have d: "message (heap (snd (checkLibraries quiet_world enumeratedGrant [] init_runner)) (Created 0))
       = ''Full group access is currently required''"
    unfolding n by simp
  from a b c d show ?thesis by (intro conjI)
qed

section \<open>Properties of the session\<close>

subsection \<open>The phase log\<close>

lemma engineFailed_phaseLog:
  "phaseLog (snd (engineFailed w (engineOptionsOf options fs) e s)) = phaseLog s"
  using engineFailed_frame(6)[of w options fs e s]
  by (cases "engineFailed w (engineOptionsOf options fs) e s") simp

lemma dataSyncLoop_phaseLog:
  "phaseLog (snd (dataSyncLoop w (engineOptionsOf options fs) libs acc s)) = phaseLog s"
proof (induction libs arbitrary: acc s)
  case Nil
  show ?case by simp
next
  case (Cons lib rest)
  let ?s1 = "s\<lparr>tick := Suc (tick s),
               engineLog := engineLog s @ [DataRun lib (dataEngine w (tick s) lib)]\<rparr>"
  show ?case
  proof (cases "dataEngine w (tick s) lib")
    case (Resolved u)
    then show ?thesis using Cons.IH[of "acc @ [lib]" ?s1] by simp
  next
    case (Rejected n)
    obtain b s2 where ef: "engineFailed w (engineOptionsOf options fs) (Thrown n) ?s1 = (b, s2)"
      by (cases "engineFailed w (engineOptionsOf options fs) (Thrown n) ?s1")
    have p2: "phaseLog s2 = phaseLog s" using engineFailed_phaseLog[of w options fs "Thrown n" ?s1] ef by simp
    show ?thesis
      using Rejected ef p2 Cons.IH[of acc ?s1] Cons.IH[of acc s2]
      by (cases "cls (heap s (Thrown n))"; cases b) (simp_all add: Let_def)
  qed
qed

lemma doDataSync_phaseLog:
  "phaseLog (snd (doDataSync w (engineOptionsOf options fs) libs s)) = phaseLog s"
  using dataSyncLoop_phaseLog[of w options fs libs "[]" s]
  by (cases "dataSyncLoop w (engineOptionsOf options fs) libs [] s")
     (auto simp: doDataSync_def split: sum.splits)

lemma fileSyncTries_phaseLog:
  "phaseLog (snd (fileSyncTries w n lib s)) = phaseLog s"
proof (induction n arbitrary: s)
  case 0
  show ?case by (simp add: alloc_def)
next
  case (Suc n)
  let ?s1 = "s\<lparr>tick := Suc (tick s),
               engineLog := engineLog s @ [StorageRun lib (storageEngine w (tick s) lib)]\<rparr>"
  show ?case using Suc.IH[of ?s1]
    by (cases "storageEngine w (tick s) lib") (simp_all add: Let_def)
qed

lemma getStorageController_phaseLog:
  "phaseLog (snd (getStorageController mode s)) = phaseLog s"
  by (simp add: getStorageController_def split: option.split)

lemma fileSyncLoop_phaseLog:
  "phaseLog (snd (fileSyncLoop w (engineOptionsOf options fs) libs acc s)) = phaseLog s"
proof (induction libs arbitrary: acc s)
  case Nil
  show ?case by simp
next
  case (Cons lib rest)
  let ?s1 = "snd (getStorageController (modeForLibrary w lib) s)"
  obtain res s2 where tr: "fileSyncTries w 3 lib ?s1 = (res, s2)"
    by (cases "fileSyncTries w 3 lib ?s1")
  have p2: "phaseLog s2 = phaseLog s"
    using fileSyncTries_phaseLog[of w 3 lib ?s1] tr getStorageController_phaseLog by simp
  show ?case
  proof (cases res)
    case (Inr pushed)
    then show ?thesis using tr p2 Cons.IH[of _ s2] by (simp add: Let_def)
  next
    case (Inl e)
    obtain b s3 where ef: "engineFailed w (engineOptionsOf options fs) e s2 = (b, s3)"
      by (cases "engineFailed w (engineOptionsOf options fs) e s2")
    have p3: "phaseLog s3 = phaseLog s" using engineFailed_phaseLog[of w options fs e s2] ef p2 by simp
    show ?thesis using Inl tr ef p3 Cons.IH[of acc s3] by (cases b) (simp_all add: Let_def)
  qed
qed

lemma doFileSync_phaseLog:
  "phaseLog (snd (doFileSync w (engineOptionsOf options fs) libs s)) = phaseLog s"
  by (simp add: doFileSync_def fileSyncLoop_phaseLog)

lemma fullTextSyncLoop_phaseLog:
  "phaseLog (snd (fullTextSyncLoop w (engineOptionsOf options fs) libs acc s)) = phaseLog s"
proof (induction libs arbitrary: acc s)
  case Nil
  show ?case by simp
next
  case (Cons lib rest)
  let ?s1 = "s\<lparr>tick := Suc (tick s),
               engineLog := engineLog s @ [FullTextRun lib (fullTextEngine w (tick s) lib)]\<rparr>"
  show ?case
  proof (cases "fullTextEngine w (tick s) lib")
    case (Resolved u)
    then show ?thesis using Cons.IH[of acc ?s1] by simp
  next
    case (Rejected n)
    obtain b s2 where ef: "engineFailed w (engineOptionsOf options fs) (Thrown n) ?s1 = (b, s2)"
      by (cases "engineFailed w (engineOptionsOf options fs) (Thrown n) ?s1")
    have p2: "phaseLog s2 = phaseLog s" using engineFailed_phaseLog[of w options fs "Thrown n" ?s1] ef by simp
    show ?thesis
      using Rejected ef p2 Cons.IH[of "acc @ [lib]" ?s1] Cons.IH[of acc s2]
      by (cases b) (simp_all add: Let_def)
  qed
qed

lemma doFullTextSync_phaseLog:
  "phaseLog (snd (doFullTextSync w (engineOptionsOf options fs) libs s)) = phaseLog s"
  by (simp add: doFullTextSync_def fullTextSyncLoop_phaseLog)

lemma syncPass_log:
  assumes "syncPass w (engineOptionsOf options fs) a libs succ s = (r, succ1, s')"
  shows "(\<exists>e. r = PassThrew e \<and> phaseLog s' = phaseLog s
            \<and> cls (heap s' e) = UserCancelledException False)
     \<or> (\<exists>nextLibs again. r = PassContinue again \<and> again \<noteq> [] \<and> succ1 = remaining succ libs nextLibs
           \<and> phaseLog s' = phaseLog s @ [DataPhase a libs nextLibs, FilePhase a nextLibs again])
     \<or> (\<exists>nextLibs again. (r = (if again = [] then PassBreak else PassContinue again))
           \<and> succ1 = remaining succ libs nextLibs
           \<and> phaseLog s' = phaseLog s @ [DataPhase a libs nextLibs, FilePhase a nextLibs [],
                                          FullTextPhase a succ1 again])"
proof -
  obtain dres s1 where d: "doDataSync w (engineOptionsOf options fs) libs s = (dres, s1)"
    by (cases "doDataSync w (engineOptionsOf options fs) libs s")
  have p1: "phaseLog s1 = phaseLog s"
    using doDataSync_phaseLog[of w options fs libs s] d by simp
  show ?thesis
  proof (cases dres)
    case (Inl e)
    from dataSyncLoop_spec[of w options fs libs "[]" s "Inl e"] d Inl
    have "cls (heap s1 e) = UserCancelledException False"
      by (cases "dataSyncLoop w (engineOptionsOf options fs) libs [] s")
         (auto simp: doDataSync_def split: sum.splits)
    with Inl assms d p1 show ?thesis by (auto simp: syncPass_def)
  next
    case (Inr nextLibs)
    let ?succ1 = "remaining succ libs nextLibs"
    let ?s2 = "logPhase (DataPhase a libs nextLibs) s1"
    obtain again s3 where f: "doFileSync w (engineOptionsOf options fs) nextLibs ?s2 = (again, s3)"
      by (cases "doFileSync w (engineOptionsOf options fs) nextLibs ?s2")
    have p3: "phaseLog s3 = phaseLog s @ [DataPhase a libs nextLibs]"
      using doFileSync_phaseLog[of w options fs nextLibs ?s2] f p1 by (simp add: logPhase_def)
    let ?s4 = "logPhase (FilePhase a nextLibs again) s3"
    show ?thesis
    proof (cases "again = []")
      case False
      with assms d Inr f have "r = PassContinue again" "succ1 = ?succ1" "s' = ?s4"
        by (simp_all add: syncPass_def Let_def remaining_def)
      with False p3 show ?thesis by (simp add: logPhase_def)
    next
      case True
      obtain ft s5 where t: "doFullTextSync w (engineOptionsOf options fs) ?succ1 ?s4 = (ft, s5)"
        by (cases "doFullTextSync w (engineOptionsOf options fs) ?succ1 ?s4")
      have p5: "phaseLog s5 = phaseLog s @ [DataPhase a libs nextLibs, FilePhase a nextLibs again]"
        using doFullTextSync_phaseLog[of w options fs ?succ1 ?s4] t p3 by (simp add: logPhase_def)
      from assms d Inr f True t
      have "r = (if ft = [] then PassBreak else PassContinue ft)" "succ1 = ?succ1"
        "s' = logPhase (FullTextPhase a ?succ1 ft) s5"
        by (auto simp: syncPass_def Let_def remaining_def split: if_splits)
      with True p5 show ?thesis by (simp add: logPhase_def)
    qed
  qed
qed

lemma wellFormed_any_previous:
  "wellFormed succ None ps \<Longrightarrow> wellFormed succ previous ps"
  by (cases ps) (auto elim: wellFormed.elims)

lemma retryLoop_log:
  "eo = engineOptionsOf options fs \<Longrightarrow>
   retryLoop w eo a libs succ s = ((thr, lo, ao), s') \<Longrightarrow>
   \<exists>new. phaseLog s' = phaseLog s @ new \<and> wellFormed succ None new
     \<and> (\<forall>p \<in> set new. a \<le> phaseAttempt p \<and> phaseAttempt p \<le> 3 \<and> phaseAttempt p \<le> ao)
     \<and> a \<le> ao \<and> (a \<le> 4 \<longrightarrow> ao \<le> 4)
     \<and> (3 < ao \<and> (a \<le> 3 \<or> libs \<noteq> []) \<longrightarrow> tooManyAttempts thr s' \<and> lo \<noteq> [])
     \<and> (tooManyAttempts thr s' \<longrightarrow> 3 < ao)"
proof (induction w eo a libs succ s arbitrary: thr lo ao s' rule: retryLoop.induct)
  case (1 w eo a libs succ s)
  note eo = "1.prems"(1)
  note run = "1.prems"(2)
  show ?case
  proof (cases "libs = []")
    case True
    with run have "thr = None" "lo = libs" "ao = a" "s' = s" by simp_all
    with True show ?thesis by (simp add: tooManyAttempts_def)
  next
    case ne: False
    show ?thesis
    proof (cases "3 < a")
      case True
      with ne run have "thr = Some (Created (nextRef s))" "lo = libs" "ao = a"
        "s' = snd (alloc (blank_err\<lparr>message := ''Too many sync attempts -- stopping''\<rparr>) s)"
        by (simp_all add: alloc_def)
      with True ne show ?thesis by (simp add: tooManyAttempts_def alloc_def)
    next
      case le: False
      obtain r succ1 s1 where p: "syncPass w eo a libs succ s = (r, succ1, s1)"
        by (cases "syncPass w eo a libs succ s") auto
      note pl = syncPass_log[OF p[unfolded eo]]
      show ?thesis
      proof (cases r)
        case (PassThrew e)
        with ne le run p have res: "thr = Some e" "lo = libs" "ao = a" "s' = s1" by simp_all
        from pl PassThrew have "phaseLog s1 = phaseLog s"
          and c: "cls (heap s1 e) = UserCancelledException False"
          by (auto split: if_splits)
        moreover have "\<not> tooManyAttempts (Some e) s1"
        proof
          assume "tooManyAttempts (Some e) s1"
          then have "cls (heap s1 e) = PlainError"
            by (simp add: tooManyAttempts_def blank_err_def)
          with c show False by simp
        qed
        ultimately show ?thesis using res le by simp
      next
        case PassBreak
        with ne le run p have res: "thr = None" "lo = []" "ao = a" "s' = s1" by simp_all
        from pl PassBreak obtain nextLibs where
          "succ1 = remaining succ libs nextLibs"
          "phaseLog s1 = phaseLog s @ [DataPhase a libs nextLibs, FilePhase a nextLibs [],
                                          FullTextPhase a succ1 []]"
          by (auto split: if_splits)
        then show ?thesis using res le
          by (simp add: tooManyAttempts_def)
      next
        case (PassContinue libs1)
        with ne le run p have rec: "retryLoop w eo (a + 1) libs1 succ1 s1 = ((thr, lo, ao), s')"
          by simp
        from "1.IH"[OF ne le p[symmetric] PassContinue refl eo rec] obtain new where
          n: "phaseLog s' = phaseLog s1 @ new" "wellFormed succ1 None new"
             "\<forall>p \<in> set new. a + 1 \<le> phaseAttempt p \<and> phaseAttempt p \<le> 3 \<and> phaseAttempt p \<le> ao"
             "a + 1 \<le> ao" "a + 1 \<le> 4 \<longrightarrow> ao \<le> 4"
             "3 < ao \<and> (a + 1 \<le> 3 \<or> libs1 \<noteq> []) \<longrightarrow> tooManyAttempts thr s' \<and> lo \<noteq> []"
             "tooManyAttempts thr s' \<longrightarrow> 3 < ao"
          by blast
        from pl PassContinue have l1: "libs1 \<noteq> []" by (auto split: if_splits)
        from pl PassContinue consider
          (afterFile) nextLibs where "succ1 = remaining succ libs nextLibs"
            "phaseLog s1 = phaseLog s @ [DataPhase a libs nextLibs, FilePhase a nextLibs libs1]"
          | (afterFullText) nextLibs where "succ1 = remaining succ libs nextLibs"
            "phaseLog s1 = phaseLog s @ [DataPhase a libs nextLibs, FilePhase a nextLibs [],
                                          FullTextPhase a succ1 libs1]"
          by (auto split: if_splits)
        then show ?thesis
        proof cases
          case afterFile
          show ?thesis
            apply (rule exI[of _ "[DataPhase a libs nextLibs, FilePhase a nextLibs libs1] @ new"])
            using n afterFile le l1 wellFormed_any_previous[OF n(2)]
            by auto
        next
          case afterFullText
          show ?thesis
            apply (rule exI[of _ "[DataPhase a libs nextLibs, FilePhase a nextLibs [],
                                          FullTextPhase a succ1 libs1] @ new"])
            using n afterFullText le l1 wellFormed_any_previous[OF n(2)]
            by auto
        qed
      qed
    qed
  qed
qed

lemma successfulAfter_mem:
  "l \<in> set (successfulAfter succ ps) \<longleftrightarrow>
     l \<in> set succ \<and> (\<forall>a inp out. DataPhase a inp out \<in> set ps \<longrightarrow> l \<in> set inp \<longrightarrow> l \<in> set out)"
proof (induction ps arbitrary: succ)
  case Nil
  show ?case by simp
next
  case (Cons p ps)
  show ?case
  proof (cases p)
    case (DataPhase a inp out)
    with Cons.IH[of "remaining succ inp out"] show ?thesis
      by (auto simp: remaining_def arrayDiff_def)
  next
    case (FilePhase a inp out)
    with Cons.IH[of succ] show ?thesis by simp
  next
    case (FullTextPhase a inp out)
    with Cons.IH[of succ] show ?thesis by simp
  qed
qed

lemma wellFormed_file_input:
  "wellFormed succ previous (pre @ FilePhase att inp out # post) \<Longrightarrow>
     (pre = [] \<and> (\<exists>dinp. previous = Some (DataPhase att dinp inp)))
     \<or> (\<exists>dinp pre'. pre = pre' @ [DataPhase att dinp inp])"
proof (induction pre arbitrary: succ previous)
  case Nil
  then show ?case by simp
next
  case (Cons p pre)
  from Cons.prems obtain succ1 where "wellFormed succ1 (Some p) (pre @ FilePhase att inp out # post)"
    by (cases p) auto
  from Cons.IH[OF this] show ?case
  proof
    assume "pre = [] \<and> (\<exists>dinp. Some p = Some (DataPhase att dinp inp))"
    then obtain dinp where "pre = []" "p = DataPhase att dinp inp" by auto
    then have "p # pre = [] @ [DataPhase att dinp inp]" by simp
    then show ?thesis by blast
  next
    assume "\<exists>dinp pre'. pre = pre' @ [DataPhase att dinp inp]"
    then obtain dinp pre' where "pre = pre' @ [DataPhase att dinp inp]" by blast
    then have "p # pre = (p # pre') @ [DataPhase att dinp inp]" by simp
    then show ?thesis by blast
  qed
qed

lemma wellFormed_fullText_input:
  "wellFormed succ previous (pre @ FullTextPhase att inp out # post) \<Longrightarrow>
     inp = successfulAfter succ pre"
proof (induction pre arbitrary: succ previous)
  case Nil
  then show ?case by simp
next
  case (Cons p pre)
  show ?case
  proof (cases p)
    case (DataPhase a i out0)
    with Cons.prems have "wellFormed (remaining succ i out0) (Some p) (pre @ FullTextPhase att inp out # post)"
      by simp
    from Cons.IH[OF this] DataPhase show ?thesis by simp
  next
    case (FilePhase a i out0)
    with Cons.prems have "wellFormed succ (Some p) (pre @ FullTextPhase att inp out # post)"
      by simp
    from Cons.IH[OF this] FilePhase show ?thesis by simp
  next
    case (FullTextPhase a i out0)
    with Cons.prems have "wellFormed succ (Some p) (pre @ FullTextPhase att inp out # post)"
      by auto
    from Cons.IH[OF this] FullTextPhase show ?thesis by simp
  qed
qed

subsection \<open>The engines of a phase\<close>

lemma noFatal_simps:
  "noFatal s [] = True"
  "noFatal s (ev # evs) = (\<not> fatalRejection (heap s) ev \<and> noFatal s evs)"
  "noFatal s (xs @ ys) = (noFatal s xs \<and> noFatal s ys)"
  by (auto simp: noFatal_def)

lemma sameThrown_refl: "sameThrown s s"
  by (simp add: sameThrown_def)

lemma sameThrown_trans: "sameThrown a b \<Longrightarrow> sameThrown b c \<Longrightarrow> sameThrown a c"
  by (simp add: sameThrown_def)

lemma noFatal_cong: "sameThrown a b \<Longrightarrow> noFatal a evs = noFatal b evs"
  unfolding noFatal_def sameThrown_def
  using fatalRejection_cong[of "heap a" "heap b"] by simp

lemma fullTextResync_thrown:
  "sameThrown a b \<Longrightarrow> fullTextResync a evs = fullTextResync b evs"
  by (induction evs rule: fullTextRejected.induct)
     (simp_all add: fullTextResync_def isPreconditionFailed_def sameThrown_def)

lemma phaseEngines_cong:
  assumes "sameThrown a b"
  shows "phaseEngines w a p evs = phaseEngines w b p evs"
  using noFatal_cong[OF assms, of evs] fullTextResync_thrown[OF assms, of evs]
  by (cases p) simp_all

lemma dataSyncLoop_events:
  "dataSyncLoop w (engineOptionsOf options fs) libs acc s = (r, s') \<Longrightarrow>
   \<exists>new. engineLog s' = engineLog s @ new
     \<and> (\<forall>ev \<in> set new. eventEngine ev = DataEngine)
     \<and> map eventLibrary new = take (length new) libs
     \<and> (case r of
           Inr out \<Rightarrow> out = acc @ dataCompleted new \<and> (noFatal s new \<longrightarrow> length new = length libs)
         | Inl e \<Rightarrow> cls (heap s' e) = UserCancelledException False)
     \<and> sameThrown s s'"
proof (induction libs arbitrary: acc s)
  case Nil
  then show ?case by (auto simp: sameThrown_refl noFatal_simps)
next
  case (Cons lib rest)
  let ?ev = "DataRun lib (dataEngine w (tick s) lib)"
  let ?s1 = "s\<lparr>tick := Suc (tick s), engineLog := engineLog s @ [?ev]\<rparr>"
  have st1: "sameThrown s ?s1" by (simp add: sameThrown_def)
  have nf1: "\<And>evs. noFatal ?s1 evs = noFatal s evs" by (simp add: noFatal_def)
  show ?case
  proof (cases "dataEngine w (tick s) lib")
    case (Resolved u)
    with Cons.prems have "dataSyncLoop w (engineOptionsOf options fs) rest (acc @ [lib]) ?s1 = (r, s')"
      by simp
    from Cons.IH[OF this] obtain new where
      n: "engineLog s' = engineLog ?s1 @ new"
         "\<forall>ev \<in> set new. eventEngine ev = DataEngine"
         "map eventLibrary new = take (length new) rest"
         "case r of
           Inr out \<Rightarrow> out = (acc @ [lib]) @ dataCompleted new
                       \<and> (noFatal ?s1 new \<longrightarrow> length new = length rest)
         | Inl e \<Rightarrow> cls (heap s' e) = UserCancelledException False"
         "sameThrown ?s1 s'"
      by blast
    have nfe: "\<not> fatalRejection (heap s) ?ev" using Resolved by (simp add: fatalRejection_def)
    show ?thesis
      apply (rule exI[of _ "?ev # new"])
      apply (intro conjI)
      subgoal using n(1) by simp
      subgoal using n(2) by simp
      subgoal using n(3) by simp
      subgoal using n(4) Resolved nfe unfolding nf1
        by (cases r) (simp_all add: noFatal_simps)
      subgoal using sameThrown_trans[OF st1 n(5)] .
      done
  next
    case (Rejected k)
    show ?thesis
    proof (cases "\<exists>adv. cls (heap s (Thrown k)) = UserCancelledException adv")
      case True
      then obtain adv where adv: "cls (heap s (Thrown k)) = UserCancelledException adv" by blast
      show ?thesis
      proof (cases adv)
        case True
        with Cons.prems Rejected adv
        have "dataSyncLoop w (engineOptionsOf options fs) rest acc ?s1 = (r, s')" by simp
        from Cons.IH[OF this] obtain new where
          n: "engineLog s' = engineLog ?s1 @ new"
             "\<forall>ev \<in> set new. eventEngine ev = DataEngine"
             "map eventLibrary new = take (length new) rest"
             "case r of
               Inr out \<Rightarrow> out = acc @ dataCompleted new
                           \<and> (noFatal ?s1 new \<longrightarrow> length new = length rest)
             | Inl e \<Rightarrow> cls (heap s' e) = UserCancelledException False"
             "sameThrown ?s1 s'"
          by blast
        show ?thesis
          apply (rule exI[of _ "?ev # new"])
          apply (intro conjI)
          subgoal using n(1) by simp
          subgoal using n(2) by simp
          subgoal using n(3) by simp
          subgoal using n(4) Rejected unfolding nf1
            by (cases r) (simp_all add: noFatal_simps)
          subgoal using sameThrown_trans[OF st1 n(5)] .
          done
      next
        case False
        with Cons.prems Rejected adv have res: "r = Inl (Thrown k)" "s' = ?s1" by simp_all
        show ?thesis
          apply (rule exI[of _ "[?ev]"])
          using res adv False st1 by simp
      qed
    next
      case False
      obtain b s2 where ef: "engineFailed w (engineOptionsOf options fs) (Thrown k) ?s1 = (b, s2)"
        by (cases "engineFailed w (engineOptionsOf options fs) (Thrown k) ?s1")
      from False Cons.prems Rejected ef
      have step: "(if b then (Inr acc, s2) else dataSyncLoop w (engineOptionsOf options fs) rest acc s2) = (r, s')"
        by (cases "cls (heap s (Thrown k))") (auto split: bool.splits)
      note fr = engineFailed_frame[OF ef]
      have st2: "sameThrown s s2"
        using fr(8,9) by (simp add: sameThrown_def)
      have fat: "fatalRejection (heap s) ?ev = b"
        using Rejected fr(10) by (simp add: fatalRejection_def)
      show ?thesis
      proof (cases b)
        case True
        with step have res: "r = Inr acc" "s' = s2" by simp_all
        show ?thesis
          apply (rule exI[of _ "[?ev]"])
          using res fr(1) Rejected st2 fat True by (simp add: noFatal_simps)
      next
        case nb: False
        with step have "dataSyncLoop w (engineOptionsOf options fs) rest acc s2 = (r, s')" by simp
        from Cons.IH[OF this] obtain new where
          n: "engineLog s' = engineLog s2 @ new"
             "\<forall>ev \<in> set new. eventEngine ev = DataEngine"
             "map eventLibrary new = take (length new) rest"
             "case r of
               Inr out \<Rightarrow> out = acc @ dataCompleted new
                           \<and> (noFatal s2 new \<longrightarrow> length new = length rest)
             | Inl e \<Rightarrow> cls (heap s' e) = UserCancelledException False"
             "sameThrown s2 s'"
          by blast
        note nf2 = noFatal_cong[OF st2, of new]
        show ?thesis
          apply (rule exI[of _ "?ev # new"])
          apply (intro conjI)
          subgoal using n(1) fr(1) by simp
          subgoal using n(2) by simp
          subgoal using n(3) by simp
          subgoal using n(4) Rejected unfolding nf2[symmetric]
            by (cases r) (simp_all add: noFatal_simps)
          subgoal using sameThrown_trans[OF st2 n(5)] .
          done
      qed
    qed
  qed
qed

lemma doDataSync_events:
  assumes "doDataSync w (engineOptionsOf options fs) libs s = (r, s')"
  shows "\<exists>new. engineLog s' = engineLog s @ new
     \<and> (\<forall>ev \<in> set new. eventEngine ev = DataEngine)
     \<and> (case r of
           Inr out \<Rightarrow> phaseEngines w s (DataPhase a libs out) new
         | Inl e \<Rightarrow> cls (heap s' e) = UserCancelledException False)
     \<and> sameThrown s s'"
proof -
  obtain r0 s0 where loop: "dataSyncLoop w (engineOptionsOf options fs) libs [] s = (r0, s0)"
    by (cases "dataSyncLoop w (engineOptionsOf options fs) libs [] s")
  from dataSyncLoop_events[OF loop] obtain new where
    n: "engineLog s0 = engineLog s @ new"
       "\<forall>ev \<in> set new. eventEngine ev = DataEngine"
       "map eventLibrary new = take (length new) libs"
       "case r0 of
           Inr out \<Rightarrow> out = [] @ dataCompleted new \<and> (noFatal s new \<longrightarrow> length new = length libs)
         | Inl e \<Rightarrow> cls (heap s0 e) = UserCancelledException False"
       "sameThrown s s0"
    by blast
  show ?thesis
  proof (cases r0)
    case (Inl e)
    with assms loop have "r = Inl e" "s' = s0" by (simp_all add: doDataSync_def)
    with n Inl show ?thesis by auto
  next
    case (Inr out)
    with assms loop have r: "r = Inr out"
      and s': "s' = (if libs = [] \<or> out \<noteq> []
           then s0\<lparr>lastSyncTimeUpdates := Suc (lastSyncTimeUpdates s0)\<rparr> else s0)"
      by (simp_all add: doDataSync_def)
    have e': "engineLog s' = engineLog s @ new" using s' n(1) by simp
    have st: "sameThrown s s'" using s' n(5) by (simp add: sameThrown_def)
    from n(4) Inr have o: "out = dataCompleted new" "noFatal s new \<longrightarrow> length new = length libs"
      by simp_all
    have full: "noFatal s new \<longrightarrow> map eventLibrary new = libs"
      using o(2) n(3) by auto
    have "phaseEngines w s (DataPhase a libs out) new"
      using n(2,3) o(1) full by simp
    with r e' st n(2) show ?thesis by auto
  qed
qed

lemma fileRuns_kind:
  "fileRuns h libs runs \<Longrightarrow> \<forall>ev \<in> set (concat runs). eventEngine ev = StorageEngine"
proof (induction h libs runs rule: fileRuns.induct)
  case (1 h runs)
  then show ?case by simp
next
  case (2 h lib libs)
  then show ?case by simp
next
  case (3 h lib libs evs runs)
  from "3.prems" have l: "libraryRuns lib evs" by simp
  then have k: "\<forall>ev \<in> set evs. eventEngine ev = StorageEngine" by (simp add: libraryRuns_def)
  show ?case
  proof (cases "fatalRejection h (last evs)")
    case True
    with "3.prems" have "runs = []" by simp
    with k show ?thesis by simp
  next
    case False
    with "3.prems" have "fileRuns h libs runs" by simp
    from "3.IH"[OF False this] k show ?thesis by auto
  qed
qed

lemma storageRejected_mem:
  "e \<in> set (storageRejected evs) \<Longrightarrow> \<exists>ev \<in> set evs. eventError ev = Some e"
  by (induction evs rule: storageRejected.induct) auto

lemma fileSyncLoop_sameThrown:
  assumes "fileSyncLoop w (engineOptionsOf options fs) libs acc s = (resync, s')"
  shows "sameThrown s s'"
  unfolding sameThrown_def
proof (intro allI)
  fix k
  show "cls (heap s' (Thrown k)) = cls (heap s (Thrown k))
        \<and> fatal (heap s' (Thrown k)) = fatal (heap s (Thrown k))"
    using fileSyncLoop_keeps[OF assms, THEN conjunct2, THEN conjunct2, THEN spec, THEN mp,
        of "Thrown k"]
    by simp
qed

lemma doFileSync_events:
  assumes "doFileSync w (engineOptionsOf options fs) libs s = (resync, s')"
  shows "\<exists>new. engineLog s' = engineLog s @ new
     \<and> phaseEngines w s (FilePhase a libs resync) new
     \<and> sameThrown s s'"
proof -
  let ?s0 = "s\<lparr>lastSyncStatus := Some ''sync.status.syncingFiles''\<rparr>"
  from assms have loop: "fileSyncLoop w (engineOptionsOf options fs) libs [] ?s0 = (resync, s')"
    by (simp add: doFileSync_def)
  have start: "engineLog ?s0 = engineLog s" "heap ?s0 = heap s" "callerStopped ?s0 = callerStopped s"
    by simp_all
  from fileSyncLoop_runs[OF loop, unfolded start] obtain runs where
    r: "engineLog s' = engineLog s @ concat runs" "fileRuns (heap s) libs runs"
    by blast
  from fileSyncLoop_trace[OF loop, unfolded start] obtain new where
    p: "engineLog s' = engineLog s @ new"
       "resync = storageResync new"
       "(\<forall>e \<in> set (storageRejected new). \<not> fatal (heap s e)) \<longrightarrow> set libs \<subseteq> eventLibrary ` set new"
       "eventLibrary ` set new \<subseteq> set libs"
    by blast
  have cr: "new = concat runs" using p(1) r(1) by simp
  have kind: "\<forall>ev \<in> set new. eventEngine ev = StorageEngine"
    unfolding cr using fileRuns_kind[OF r(2)] .
  have nf: "noFatal s new \<Longrightarrow> \<forall>e \<in> set (storageRejected new). \<not> fatal (heap s e)"
  proof
    fix e assume n: "noFatal s new" and m: "e \<in> set (storageRejected new)"
    from storageRejected_mem[OF m] obtain ev where ev: "ev \<in> set new" "eventError ev = Some e"
      by blast
    from n ev(1) have "\<not> fatalRejection (heap s) ev" by (simp add: noFatal_def)
    with ev(2) show "\<not> fatal (heap s e)" by (simp add: fatalRejection_def)
  qed
  have full: "noFatal s new \<longrightarrow> eventLibrary ` set new = set libs"
    using nf p(3,4) by blast
  have st: "sameThrown s s'"
    using fileSyncLoop_sameThrown[OF loop] by (simp add: sameThrown_def)
  have "phaseEngines w s (FilePhase a libs resync) new"
    using kind p(2,4) full by simp
  with p(1) st show ?thesis by blast
qed

lemma fullTextRejected_mem:
  "(lib, e) \<in> set (fullTextRejected evs) \<Longrightarrow> \<exists>ev \<in> set evs. eventError ev = Some e"
  by (induction evs rule: fullTextRejected.induct) auto

lemma fullTextHandled_mem:
  "e \<in> set (fullTextHandled s evs) \<Longrightarrow> \<exists>ev \<in> set evs. eventError ev = Some e"
  using fullTextRejected_mem by (fastforce simp: fullTextHandled_def)

lemma fullTextSyncLoop_kind:
  "fullTextSyncLoop w (engineOptionsOf options fs) libs acc s = (resync, s') \<Longrightarrow>
   \<exists>new. engineLog s' = engineLog s @ new \<and> (\<forall>ev \<in> set new. eventEngine ev = FullTextEngine)"
proof (induction libs arbitrary: acc s)
  case Nil
  then show ?case by simp
next
  case (Cons lib rest)
  let ?ev = "FullTextRun lib (fullTextEngine w (tick s) lib)"
  let ?s1 = "s\<lparr>tick := Suc (tick s), engineLog := engineLog s @ [?ev]\<rparr>"
  have one: "\<And>acc' t. fullTextSyncLoop w (engineOptionsOf options fs) rest acc' t = (resync, s')
      \<Longrightarrow> engineLog t = engineLog s @ [?ev]
      \<Longrightarrow> \<exists>new. engineLog s' = engineLog s @ new \<and> (\<forall>ev \<in> set new. eventEngine ev = FullTextEngine)"
  proof -
    fix acc' t
    assume l: "fullTextSyncLoop w (engineOptionsOf options fs) rest acc' t = (resync, s')"
      and e: "engineLog t = engineLog s @ [?ev]"
    from Cons.IH[OF l] obtain new where
      "engineLog s' = engineLog t @ new" "\<forall>ev \<in> set new. eventEngine ev = FullTextEngine"
      by blast
    with e have "engineLog s' = engineLog s @ (?ev # new)"
      "\<forall>ev \<in> set (?ev # new). eventEngine ev = FullTextEngine"
      by simp_all
    then show "\<exists>new. engineLog s' = engineLog s @ new \<and> (\<forall>ev \<in> set new. eventEngine ev = FullTextEngine)"
      by blast
  qed
  show ?case
  proof (cases "fullTextEngine w (tick s) lib")
    case (Resolved u)
    with Cons.prems have "fullTextSyncLoop w (engineOptionsOf options fs) rest acc ?s1 = (resync, s')"
      by simp
    from one[OF this] show ?thesis by simp
  next
    case (Rejected n)
    show ?thesis
    proof (cases "isPreconditionFailed (heap s (Thrown n))")
      case True
      with Cons.prems Rejected
      have "fullTextSyncLoop w (engineOptionsOf options fs) rest (acc @ [lib]) ?s1 = (resync, s')"
        by simp
      from one[OF this] show ?thesis by simp
    next
      case False
      obtain b s2 where ef: "engineFailed w (engineOptionsOf options fs) (Thrown n) ?s1 = (b, s2)"
        by (cases "engineFailed w (engineOptionsOf options fs) (Thrown n) ?s1")
      note fr = engineFailed_frame(1)[OF ef]
      from False Cons.prems Rejected ef
      have step: "(if b then (acc, s2) else fullTextSyncLoop w (engineOptionsOf options fs) rest acc s2)
                  = (resync, s')"
        by (auto split: bool.splits)
      show ?thesis
      proof (cases b)
        case True
        with step have "s' = s2" by simp
        with fr have "engineLog s' = engineLog s @ [?ev]" by simp
        then show ?thesis by (intro exI[of _ "[?ev]"]) simp
      next
        case nb: False
        with step have "fullTextSyncLoop w (engineOptionsOf options fs) rest acc s2 = (resync, s')"
          by simp
        from one[OF this] fr show ?thesis by simp
      qed
    qed
  qed
qed

lemma doFullTextSync_events:
  assumes "doFullTextSync w (engineOptionsOf options fs) libs s = (resync, s')"
  shows "\<exists>new. engineLog s' = engineLog s @ new
     \<and> phaseEngines w s (FullTextPhase a libs resync) new
     \<and> sameThrown s s'"
proof (cases "fulltextEnabled w")
  case False
  with assms have "resync = []" "s' = s" by (simp_all add: doFullTextSync_def)
  with False show ?thesis by (simp add: sameThrown_refl)
next
  case True
  let ?s0 = "s\<lparr>lastSyncStatus := Some ''sync.status.syncingFullText''\<rparr>"
  from True assms have loop: "fullTextSyncLoop w (engineOptionsOf options fs) libs [] ?s0 = (resync, s')"
    by (simp add: doFullTextSync_def)
  have h0: "\<And>evs. fullTextHandled ?s0 evs = fullTextHandled s evs"
    "\<And>evs. fullTextResync ?s0 evs = fullTextResync s evs"
    by (simp_all add: fullTextResync_def fullTextHandled_def)
  have start: "engineLog ?s0 = engineLog s" "heap ?s0 = heap s" by simp_all
  from fullTextSyncLoop_trace[OF loop, unfolded h0 start] obtain new where
    t: "engineLog s' = engineLog s @ new"
       "resync = [] @ fullTextResync s new"
       "map eventLibrary new = take (length new) libs"
       "(\<forall>e \<in> set (fullTextHandled s new). \<not> fatal (heap s e)) \<longrightarrow> length new = length libs"
       "\<forall>x. cls (heap s' x) = cls (heap s x) \<and> fatal (heap s' x) = fatal (heap s x)"
    by blast
  from fullTextSyncLoop_kind[OF loop, unfolded start] t(1)
  have kind: "\<forall>ev \<in> set new. eventEngine ev = FullTextEngine" by auto
  have nf: "noFatal s new \<Longrightarrow> \<forall>e \<in> set (fullTextHandled s new). \<not> fatal (heap s e)"
  proof
    fix e assume n: "noFatal s new" and m: "e \<in> set (fullTextHandled s new)"
    from fullTextHandled_mem[OF m] obtain ev where ev: "ev \<in> set new" "eventError ev = Some e"
      by blast
    from n ev(1) have "\<not> fatalRejection (heap s) ev" by (simp add: noFatal_def)
    with ev(2) show "\<not> fatal (heap s e)" by (simp add: fatalRejection_def)
  qed
  have full: "noFatal s new \<longrightarrow> map eventLibrary new = libs"
    using nf t(3,4) by auto
  have st: "sameThrown s s'" using t(5) by (simp add: sameThrown_def)
  have "phaseEngines w s (FullTextPhase a libs resync) new"
    using True kind t(2,3) full by simp
  with t(1) st show ?thesis by blast
qed

lemma logPhase_frame:
  "engineLog (logPhase p s) = engineLog s"
  "heap (logPhase p s) = heap s"
  "phaseLog (logPhase p s) = phaseLog s @ [p]"
  by (simp_all add: logPhase_def)

lemma sameThrown_logPhase: "sameThrown s t \<Longrightarrow> sameThrown s (logPhase p t)"
  by (simp add: sameThrown_def logPhase_def)

lemma syncPass_events:
  assumes "syncPass w (engineOptionsOf options fs) a libs succ s = (r, succ1, s')"
  shows "\<exists>phases runs rest.
       phaseLog s' = phaseLog s @ phases
     \<and> engineLog s' = engineLog s @ concat runs @ rest
     \<and> list_all2 (phaseEngines w s) phases runs
     \<and> (\<forall>ev \<in> set rest. eventEngine ev = DataEngine)
     \<and> ((\<exists>e. r = PassThrew e \<and> cls (heap s' e) = UserCancelledException False) \<or> rest = [])
     \<and> sameThrown s s'"
proof -
  obtain dres s1 where d: "doDataSync w (engineOptionsOf options fs) libs s = (dres, s1)"
    by (cases "doDataSync w (engineOptionsOf options fs) libs s")
  have p1: "phaseLog s1 = phaseLog s"
    using doDataSync_phaseLog[of w options fs libs s] d by simp
  from doDataSync_events[OF d, of a] obtain evsD where
    dE: "engineLog s1 = engineLog s @ evsD"
        "\<forall>ev \<in> set evsD. eventEngine ev = DataEngine"
        "case dres of
           Inr out \<Rightarrow> phaseEngines w s (DataPhase a libs out) evsD
         | Inl e \<Rightarrow> cls (heap s1 e) = UserCancelledException False"
        "sameThrown s s1"
    by blast
  show ?thesis
  proof (cases dres)
    case (Inl e)
    with assms d have res: "r = PassThrew e" "s' = s1" by (simp_all add: syncPass_def)
    from dE(3)[unfolded Inl] have c: "cls (heap s1 e) = UserCancelledException False"
      by (simp only: sum.case)
    show ?thesis
      apply (rule exI[of _ "[]"])
      apply (rule exI[of _ "[]"])
      apply (rule exI[of _ evsD])
      using res p1 dE(1,2,4) c by simp
  next
    case (Inr nextLibs)
    let ?succ1 = "remaining succ libs nextLibs"
    let ?pd = "DataPhase a libs nextLibs"
    let ?s2 = "logPhase ?pd s1"
    from dE(3)[unfolded Inr] have peD: "phaseEngines w s ?pd evsD" by (simp only: sum.case)
    have st2: "sameThrown s ?s2" using dE(4) by (rule sameThrown_logPhase)
    obtain again s3 where f: "doFileSync w (engineOptionsOf options fs) nextLibs ?s2 = (again, s3)"
      by (cases "doFileSync w (engineOptionsOf options fs) nextLibs ?s2")
    have p3: "phaseLog s3 = phaseLog s @ [?pd]"
      using doFileSync_phaseLog[of w options fs nextLibs ?s2] f p1 by (simp add: logPhase_def)
    let ?pf = "FilePhase a nextLibs again"
    from doFileSync_events[OF f, of a] obtain evsF where
      fE: "engineLog s3 = engineLog ?s2 @ evsF"
          "phaseEngines w ?s2 ?pf evsF"
          "sameThrown ?s2 s3"
      by blast
    have peF: "phaseEngines w s ?pf evsF"
      using fE(2) phaseEngines_cong[OF st2, of w ?pf evsF] by (simp del: phaseEngines.simps)
    have e3: "engineLog s3 = engineLog s @ evsD @ evsF"
      using fE(1) dE(1) by (simp add: logPhase_frame)
    have st3: "sameThrown s s3" using sameThrown_trans[OF st2 fE(3)] .
    let ?s4 = "logPhase ?pf s3"
    have st4: "sameThrown s ?s4" using st3 by (rule sameThrown_logPhase)
    show ?thesis
    proof (cases "again = []")
      case False
      with assms d Inr f have res: "r = PassContinue again" "s' = ?s4"
        by (simp_all add: syncPass_def Let_def remaining_def)
      show ?thesis
        apply (rule exI[of _ "[?pd, ?pf]"])
        apply (rule exI[of _ "[evsD, evsF]"])
        apply (rule exI[of _ "[]"])
        apply (intro conjI)
        subgoal using res p3 by (simp add: logPhase_frame)
        subgoal using res e3 by (simp add: logPhase_frame)
        subgoal using peD peF by (simp del: phaseEngines.simps)
        subgoal by simp
        subgoal by simp
        subgoal using res st4 by simp
        done
    next
      case True
      obtain ft s5 where t: "doFullTextSync w (engineOptionsOf options fs) ?succ1 ?s4 = (ft, s5)"
        by (cases "doFullTextSync w (engineOptionsOf options fs) ?succ1 ?s4")
      have p5: "phaseLog s5 = phaseLog s @ [?pd, ?pf]"
        using doFullTextSync_phaseLog[of w options fs ?succ1 ?s4] t p3 by (simp add: logPhase_def)
      let ?pt = "FullTextPhase a ?succ1 ft"
      from doFullTextSync_events[OF t, of a] obtain evsT where
        tE: "engineLog s5 = engineLog ?s4 @ evsT"
            "phaseEngines w ?s4 ?pt evsT"
            "sameThrown ?s4 s5"
        by blast
      have peT: "phaseEngines w s ?pt evsT"
        using tE(2) phaseEngines_cong[OF st4, of w ?pt evsT] by (simp del: phaseEngines.simps)
      have e5: "engineLog s5 = engineLog s @ evsD @ evsF @ evsT"
        using tE(1) e3 by (simp add: logPhase_frame)
      have st5: "sameThrown s s5" using sameThrown_trans[OF st4 tE(3)] .
      from assms d Inr f True t
      have res: "(\<forall>e. r \<noteq> PassThrew e)" "s' = logPhase ?pt s5"
        by (auto simp: syncPass_def Let_def remaining_def split: if_splits)
      show ?thesis
        apply (rule exI[of _ "[?pd, ?pf, ?pt]"])
        apply (rule exI[of _ "[evsD, evsF, evsT]"])
        apply (rule exI[of _ "[]"])
        apply (intro conjI)
        subgoal using res(2) p5 by (simp add: logPhase_frame)
        subgoal using res(2) e5 by (simp add: logPhase_frame)
        subgoal using peD peF peT by (simp del: phaseEngines.simps)
        subgoal by simp
        subgoal by simp
        subgoal using res(2) sameThrown_logPhase[OF st5] by simp
        done
    qed
  qed
qed

lemma retryLoop_events:
  "eo = engineOptionsOf options fs \<Longrightarrow>
   retryLoop w eo a libs succ s = ((thr, lo, ao), s') \<Longrightarrow>
   \<exists>phases runs rest.
       phaseLog s' = phaseLog s @ phases
     \<and> engineLog s' = engineLog s @ concat runs @ rest
     \<and> list_all2 (phaseEngines w s) phases runs
     \<and> (\<forall>ev \<in> set rest. eventEngine ev = DataEngine)
     \<and> (rest \<noteq> [] \<longrightarrow> (\<exists>e. thr = Some e \<and> cls (heap s' e) = UserCancelledException False))
     \<and> sameThrown s s'"
proof (induction w eo a libs succ s arbitrary: thr lo ao s' rule: retryLoop.induct)
  case (1 w eo a libs succ s)
  note eo = "1.prems"(1)
  note run = "1.prems"(2)
  show ?case
  proof (cases "libs = []")
    case True
    with run have "s' = s" by simp
    then show ?thesis
      apply -
      apply (rule exI[of _ "[]"])
      apply (rule exI[of _ "[]"])
      apply (rule exI[of _ "[]"])
      by (simp add: sameThrown_refl)
  next
    case ne: False
    show ?thesis
    proof (cases "3 < a")
      case True
      with ne run have
        "s' = snd (alloc (blank_err\<lparr>message := ''Too many sync attempts -- stopping''\<rparr>) s)"
        by (simp add: alloc_def)
      then show ?thesis
        apply -
        apply (rule exI[of _ "[]"])
        apply (rule exI[of _ "[]"])
        apply (rule exI[of _ "[]"])
        by (simp add: alloc_def sameThrown_def)
    next
      case le: False
      obtain r succ1 s1 where p: "syncPass w eo a libs succ s = (r, succ1, s1)"
        by (cases "syncPass w eo a libs succ s") auto
      from syncPass_events[OF p[unfolded eo]] obtain phases runs rest where
        pe: "phaseLog s1 = phaseLog s @ phases"
            "engineLog s1 = engineLog s @ concat runs @ rest"
            "list_all2 (phaseEngines w s) phases runs"
            "\<forall>ev \<in> set rest. eventEngine ev = DataEngine"
            "(\<exists>e. r = PassThrew e \<and> cls (heap s1 e) = UserCancelledException False) \<or> rest = []"
            "sameThrown s s1"
        by blast
      show ?thesis
      proof (cases r)
        case (PassThrew e)
        with ne le run p have res: "thr = Some e" "s' = s1" by simp_all
        from pe(5) PassThrew have c: "rest \<noteq> [] \<longrightarrow> cls (heap s1 e) = UserCancelledException False"
          by auto
        show ?thesis
          apply (rule exI[of _ phases])
          apply (rule exI[of _ runs])
          apply (rule exI[of _ rest])
          using res pe(1,2,3,4,6) c by simp
      next
        case PassBreak
        with ne le run p have res: "s' = s1" by simp
        from pe(5) PassBreak have "rest = []" by simp
        then show ?thesis
          apply -
          apply (rule exI[of _ phases])
          apply (rule exI[of _ runs])
          apply (rule exI[of _ "[]"])
          using res pe(1,2,3,6) by simp
      next
        case (PassContinue libs1)
        with ne le run p have rec: "retryLoop w eo (a + 1) libs1 succ1 s1 = ((thr, lo, ao), s')"
          by simp
        from pe(5) PassContinue have r0: "rest = []" by simp
        from "1.IH"[OF ne le p[symmetric] PassContinue refl eo rec]
        obtain phases' runs' rest' where
          n: "phaseLog s' = phaseLog s1 @ phases'"
             "engineLog s' = engineLog s1 @ concat runs' @ rest'"
             "list_all2 (phaseEngines w s1) phases' runs'"
             "\<forall>ev \<in> set rest'. eventEngine ev = DataEngine"
             "rest' \<noteq> [] \<longrightarrow> (\<exists>e. thr = Some e \<and> cls (heap s' e) = UserCancelledException False)"
             "sameThrown s1 s'"
          by blast
        have same: "phaseEngines w s1 = phaseEngines w s"
          using phaseEngines_cong[OF pe(6), of w] by (intro ext) simp
        have all: "list_all2 (phaseEngines w s) (phases @ phases') (runs @ runs')"
          using pe(3) n(3) unfolding same by (rule list_all2_appendI)
        show ?thesis
          apply (rule exI[of _ "phases @ phases'"])
          apply (rule exI[of _ "runs @ runs'"])
          apply (rule exI[of _ rest'])
          apply (intro conjI)
          subgoal using n(1) pe(1) by simp
          subgoal using n(2) pe(2) r0 by simp
          subgoal by (rule all)
          subgoal by (rule n(4))
          subgoal by (rule n(5))
          subgoal using sameThrown_trans[OF pe(6) n(6)] .
          done
      qed
    qed
  qed
qed

subsection \<open>The retry loop\<close>

text \<open>
  Claim C3, as the code has it. The engines the retry loop starts fall into one stretch
  per phase it runs, in order, each phase starting engines of its own kind for libraries
  of the list it was passed (for all of them unless a fatal error ends the phase) and
  returning what these engines gave; only a data phase left by a cancellation is followed
  by no other phase. A file phase always comes right after the data phase of the same
  attempt and is passed exactly the list that data phase returned. A full-text phase is
  passed \<open>successfulLibraries\<close> as it is then, whatever the file phases returned: the
  initial set without every library that some data phase so far was passed and did not
  return. That is every library whose data engine did not complete in such a phase: one
  whose engine failed, but also one whose engine was cancelled with
  \<open>advanceToNextLibrary\<close>, and one whose engine was never started because a fatal error
  ended the phase before its turn.
\<close>

theorem retryLoop_phase_inputs:
  assumes "retryLoop w (engineOptionsOf options fs) a libs succ s
             = ((thrown, libsLeft, attempt), s')"
  shows "(\<exists>runs rest.
            newEvents s s' = concat runs @ rest
          \<and> list_all2 (phaseEngines w s) (newPhases s s') runs
          \<and> (\<forall>ev \<in> set rest. eventEngine ev = DataEngine)
          \<and> (rest \<noteq> [] \<longrightarrow>
                (\<exists>e. thrown = Some e \<and> cls (heap s' e) = UserCancelledException False)))
     \<and> (\<forall>pre att inp out post.
            newPhases s s' = pre @ FilePhase att inp out # post \<longrightarrow>
              (\<exists>dataInput pre'. pre = pre' @ [DataPhase att dataInput inp]))
     \<and> (\<forall>pre att inp out post.
            newPhases s s' = pre @ FullTextPhase att inp out # post \<longrightarrow>
              inp = successfulAfter succ pre
              \<and> (\<forall>l. l \<in> set inp \<longleftrightarrow>
                    l \<in> set succ
                    \<and> (\<forall>a dataInput dataOutput.
                          DataPhase a dataInput dataOutput \<in> set pre \<longrightarrow>
                          l \<in> set dataInput \<longrightarrow> l \<in> set dataOutput)))"
proof -
  from retryLoop_log[OF refl assms] obtain new where
    n: "phaseLog s' = phaseLog s @ new" "wellFormed succ None new"
    by blast
  have ne: "newPhases s s' = new" using n(1) by (simp add: newPhases_def)
  from retryLoop_events[OF refl assms] obtain phases runs rest where
    e: "phaseLog s' = phaseLog s @ phases"
       "engineLog s' = engineLog s @ concat runs @ rest"
       "list_all2 (phaseEngines w s) phases runs"
       "\<forall>ev \<in> set rest. eventEngine ev = DataEngine"
       "rest \<noteq> [] \<longrightarrow> (\<exists>e. thrown = Some e \<and> cls (heap s' e) = UserCancelledException False)"
    by blast
  have ph: "phases = new" using e(1) n(1) by simp
  have ev: "newEvents s s' = concat runs @ rest" using e(2) by (simp add: newEvents_def)
  have tie: "\<exists>runs rest.
            newEvents s s' = concat runs @ rest
          \<and> list_all2 (phaseEngines w s) new runs
          \<and> (\<forall>ev \<in> set rest. eventEngine ev = DataEngine)
          \<and> (rest \<noteq> [] \<longrightarrow>
                (\<exists>e. thrown = Some e \<and> cls (heap s' e) = UserCancelledException False))"
    using ev e(3,4,5) unfolding ph by blast
  show ?thesis
    unfolding ne
  proof (intro conjI allI impI)
    show "\<exists>runs rest.
            newEvents s s' = concat runs @ rest
          \<and> list_all2 (phaseEngines w s) new runs
          \<and> (\<forall>ev \<in> set rest. eventEngine ev = DataEngine)
          \<and> (rest \<noteq> [] \<longrightarrow>
                (\<exists>e. thrown = Some e \<and> cls (heap s' e) = UserCancelledException False))"
      by (rule tie)
  next
    fix pre att inp out post
    assume "new = pre @ FilePhase att inp out # post"
    with n(2) have "wellFormed succ None (pre @ FilePhase att inp out # post)" by simp
    from wellFormed_file_input[OF this]
    show "\<exists>dataInput pre'. pre = pre' @ [DataPhase att dataInput inp]" by simp
  next
    fix pre att inp out post
    assume "new = pre @ FullTextPhase att inp out # post"
    with n(2) have "wellFormed succ None (pre @ FullTextPhase att inp out # post)" by simp
    from wellFormed_fullText_input[OF this]
    show i: "inp = successfulAfter succ pre" .
    fix l
    show "l \<in> set inp \<longleftrightarrow>
                    l \<in> set succ
                    \<and> (\<forall>a dataInput dataOutput.
                          DataPhase a dataInput dataOutput \<in> set pre \<longrightarrow>
                          l \<in> set dataInput \<longrightarrow> l \<in> set dataOutput)"
      unfolding i by (rule successfulAfter_mem)
  qed
qed

text \<open>
  Claim C2. The loop starts with \<open>attempt = 1\<close>. It ends with \<open>attempt\<close> at most 4; every
  phase it runs is run with \<open>attempt\<close> between 1 and 3; it ends with \<open>attempt\<close> above 3
  exactly when it is left by the new error "Too many sync attempts -- stopping", with
  libraries still to sync. Whenever a pass starts with \<open>attempt\<close> above 3 and libraries to
  sync, that error is thrown at once: no phase is run and no engine is started. So once
  three passes in a row have asked for a resync the fourth check ends the session, however
  many more resyncs the engines would ask for.
\<close>

theorem retryLoop_attempt_budget:
  assumes "retryLoop w (engineOptionsOf options fs) 1 libs succ s = ((thrown, libsLeft, attempt), s')"
  shows "1 \<le> attempt \<and> attempt \<le> 4
     \<and> (\<forall>p \<in> set (newPhases s s'). 1 \<le> phaseAttempt p \<and> phaseAttempt p \<le> 3)
     \<and> (3 < attempt \<longleftrightarrow> tooManyAttempts thrown s')
     \<and> (3 < attempt \<longrightarrow> libsLeft \<noteq> [])
     \<and> (\<forall>a l successful t. 3 < a \<and> l \<noteq> [] \<longrightarrow>
           fst (retryLoop w (engineOptionsOf options fs) a l successful t)
             = (Some (Created (nextRef t)), l, a)
           \<and> tooManyAttempts (Some (Created (nextRef t)))
                (snd (retryLoop w (engineOptionsOf options fs) a l successful t))
           \<and> phaseLog (snd (retryLoop w (engineOptionsOf options fs) a l successful t)) = phaseLog t
           \<and> engineLog (snd (retryLoop w (engineOptionsOf options fs) a l successful t)) = engineLog t)"
proof -
  from retryLoop_log[OF refl assms] obtain new where
    n: "phaseLog s' = phaseLog s @ new"
       "\<forall>p \<in> set new. 1 \<le> phaseAttempt p \<and> phaseAttempt p \<le> 3 \<and> phaseAttempt p \<le> attempt"
       "1 \<le> attempt" "attempt \<le> 4"
       "3 < attempt \<longrightarrow> tooManyAttempts thrown s' \<and> libsLeft \<noteq> []"
       "tooManyAttempts thrown s' \<longrightarrow> 3 < attempt"
    by auto
  have ne: "newPhases s s' = new" using n(1) by (simp add: newPhases_def)
  have abort: "\<forall>a l successful t. 3 < a \<and> l \<noteq> [] \<longrightarrow>
           fst (retryLoop w (engineOptionsOf options fs) a l successful t)
             = (Some (Created (nextRef t)), l, a)
           \<and> tooManyAttempts (Some (Created (nextRef t)))
                (snd (retryLoop w (engineOptionsOf options fs) a l successful t))
           \<and> phaseLog (snd (retryLoop w (engineOptionsOf options fs) a l successful t)) = phaseLog t
           \<and> engineLog (snd (retryLoop w (engineOptionsOf options fs) a l successful t)) = engineLog t"
    by (simp add: alloc_def tooManyAttempts_def)
  show ?thesis
    unfolding ne using n(2-6) abort by blast
qed

lemmas run_defs = syncPass_def doDataSync_def doFileSync_def doFullTextSync_def logPhase_def
  quiet_world_def runningState_def init_runner_def alloc_def Let_def getStorageController_def
  blank_err_def engineFailed_def engineOptionsOf_def engineOnError_def plainOptions_def
  checkError_unawaited_def checkError_def addError_def parseError_def stopOnError_def
  arrayDiff_def isPreconditionFailed_def numeral_3_eq_3

lemma resyncRun:
  "fst (retryLoop resyncWorld (engineOptionsOf plainOptions runningState) 1 [1] [1] runningState)
     = (Some (Created 0), [1], 4)"
  "phaseLog (snd (retryLoop resyncWorld (engineOptionsOf plainOptions runningState) 1 [1] [1]
       runningState))
     = [DataPhase 1 [1] [1], FilePhase 1 [1] [1], DataPhase 2 [1] [1], FilePhase 2 [1] [1],
        DataPhase 3 [1] [1], FilePhase 3 [1] [1]]"
  "message (heap (snd (retryLoop resyncWorld (engineOptionsOf plainOptions runningState) 1 [1] [1]
       runningState)) (Created 0)) = ''Too many sync attempts -- stopping''"
  by (simp_all add: retryLoop.simps resyncWorld_def run_defs)

lemma resyncLoop:
  assumes "storageControllers s ''zfs'' = None"
  shows "retryLoop resyncWorld (engineOptionsOf options fs) (Suc 0) [1] [1] s
   = ((Some (Created (nextRef s)), [1], 4),
      s\<lparr>heap := (heap s)(Created (nextRef s) :=
                   blank_err\<lparr>message := ''Too many sync attempts -- stopping''\<rparr>),
        nextRef := Suc (nextRef s),
        lastSyncStatus := Some ''sync.status.syncingFiles'',
        storageControllers := (storageControllers s)(''zfs'' \<mapsto> nextController s),
        nextController := Suc (nextController s),
        lastSyncTimeUpdates := Suc (Suc (Suc (lastSyncTimeUpdates s))),
        tick := Suc (Suc (Suc (Suc (Suc (Suc (tick s)))))),
        engineLog := engineLog s @
                     [DataRun 1 (Resolved ()),
                      StorageRun 1 (Resolved \<lparr>syncRequired = True, fileSyncRequired = False\<rparr>),
                      DataRun 1 (Resolved ()),
                      StorageRun 1 (Resolved \<lparr>syncRequired = True, fileSyncRequired = False\<rparr>),
                      DataRun 1 (Resolved ()),
                      StorageRun 1 (Resolved \<lparr>syncRequired = True, fileSyncRequired = False\<rparr>)],
        phaseLog := phaseLog s @
                    [DataPhase 1 [1] [1], FilePhase 1 [1] [1], DataPhase 2 [1] [1],
                     FilePhase 2 [1] [1], DataPhase 3 [1] [1], FilePhase 3 [1] [1]]\<rparr>)"
  using assms
  by (simp add: retryLoop.simps resyncWorld_def syncPass_def doDataSync_def doFileSync_def
      logPhase_def quiet_world_def alloc_def Let_def getStorageController_def arrayDiff_def
      numeral_3_eq_3)

lemma resyncWorld_fields:
  "apiKey resyncWorld = Some ''key''"
  "getKeyInfo resyncWorld n = Resolved (Some \<lparr>jsonUserID = Some 1, jsonUsername = Some ''user'',
        jsonAccess = Some \<lparr>userLibraryAccess = True, groupAccess = None\<rparr>\<rparr>)"
  "currentUserID resyncWorld = Some 1"
  "checkUser resyncWorld n = True"
  by (simp_all add: resyncWorld_def quiet_world_def)

lemma resyncLibraries:
  assumes "localGroups s = []"
  shows "checkLibraries resyncWorld
     \<lparr>userID = 1, username = ''user'',
      access = \<lparr>userLibraryAccess = True, groupAccess = None\<rparr>\<rparr> [1] s
   = (Inr [1], s)"
  using assms
  by (simp add: checkLibraries_def checkUserAccess_def checkGroupAccess_def isEmpty_def
      arrayDiff_def)

lemma resyncTry:
  "syncTry resyncWorld explicitOptions (init_runner\<lparr>errors := [], syncInProgress := True\<rparr>)
   = (TryThrew (Created 0),
      explicitOptions\<lparr>optFirstInSession := True, libraries := Some [1]\<rparr>, Some [1],
      init_runner\<lparr>
        heap := (heap init_runner)(Created 0 :=
                   blank_err\<lparr>message := ''Too many sync attempts -- stopping''\<rparr>),
        nextRef := 1,
        syncInProgress := True,
        firstInSession := False,
        lastSyncStatus := Some ''sync.status.syncingFiles'',
        storageControllers := [''zfs'' \<mapsto> 0],
        nextController := 1,
        lastSyncTimeUpdates := 3,
        icons := [(Some ''animate'', [])],
        tick := 8,
        engineLog := [DataRun 1 (Resolved ()),
                      StorageRun 1 (Resolved \<lparr>syncRequired = True, fileSyncRequired = False\<rparr>),
                      DataRun 1 (Resolved ()),
                      StorageRun 1 (Resolved \<lparr>syncRequired = True, fileSyncRequired = False\<rparr>),
                      DataRun 1 (Resolved ()),
                      StorageRun 1 (Resolved \<lparr>syncRequired = True, fileSyncRequired = False\<rparr>)],
        phaseLog := [DataPhase 1 [1] [1], FilePhase 1 [1] [1], DataPhase 2 [1] [1],
                     FilePhase 2 [1] [1], DataPhase 3 [1] [1], FilePhase 3 [1] [1]]\<rparr>)"
  by (simp add: syncTry_def Let_def resyncWorld_fields explicitOptions_def plainOptions_def
      init_runner_def updateIcons_def checkAccess_def checkEmptyLibrary_def
      resyncLibraries resyncLoop del: retryLoop.simps)

lemma resyncCaught:
  "sync resyncWorld explicitOptions init_runner
   = Some (SyncUndefined,
      init_runner\<lparr>
        heap := (heap init_runner)(Created 0 :=
                   blank_err\<lparr>message := ''Too many sync attempts -- stopping'',
                     added := True, parsed := True, errorType := Some ''error''\<rparr>),
        nextRef := 1,
        errors := [],
        syncInProgress := False,
        firstInSession := False,
        lastSyncStatus := None,
        storageControllers := [''zfs'' \<mapsto> 0],
        nextController := 1,
        lastSyncTimeUpdates := 3,
        logged := [Created 0],
        classified := [Created 0],
        icons := [(Some ''animate'', []), (Some ''error'', [Created 0])],
        tick := 8,
        engineLog := [DataRun 1 (Resolved ()),
                      StorageRun 1 (Resolved \<lparr>syncRequired = True, fileSyncRequired = False\<rparr>),
                      DataRun 1 (Resolved ()),
                      StorageRun 1 (Resolved \<lparr>syncRequired = True, fileSyncRequired = False\<rparr>),
                      DataRun 1 (Resolved ()),
                      StorageRun 1 (Resolved \<lparr>syncRequired = True, fileSyncRequired = False\<rparr>)],
        phaseLog := [DataPhase 1 [1] [1], FilePhase 1 [1] [1], DataPhase 2 [1] [1],
                     FilePhase 2 [1] [1], DataPhase 3 [1] [1], FilePhase 3 [1] [1]],
        finished := [[1]]\<rparr>)"
proof -
  have start: "init_runner\<lparr>errors := []\<rparr> = init_runner" by (simp add: init_runner_def)
  have idle: "\<not> syncInProgress init_runner" by (simp add: init_runner_def)
  show ?thesis
    apply (subst sync.simps)
    apply (simp add: Let_def idle resyncTry[unfolded start] start del: retryLoop.simps)
    apply (simp add: syncCatch_def endSync_def checkError_def updateIcons_def addError_def
        parseError_def isUserCancelled_def explicitOptions_def plainOptions_def init_runner_def
        blank_err_def getPrimaryErrorType_def lookupType_def errorTypes_def Let_def
        del: retryLoop.simps)
    done
qed

theorem retryLoop_attempt_budget_witness:
  "fst (retryLoop resyncWorld (engineOptionsOf plainOptions runningState) 1 [1] [1] runningState)
     = (Some (Created 0), [1], 4)
   \<and> tooManyAttempts (Some (Created 0))
        (snd (retryLoop resyncWorld (engineOptionsOf plainOptions runningState) 1 [1] [1]
           runningState))
   \<and> newPhases runningState
        (snd (retryLoop resyncWorld (engineOptionsOf plainOptions runningState) 1 [1] [1]
           runningState))
     = [DataPhase 1 [1] [1], FilePhase 1 [1] [1], DataPhase 2 [1] [1], FilePhase 2 [1] [1],
        DataPhase 3 [1] [1], FilePhase 3 [1] [1]]
   \<and> map_option fst (sync resyncWorld explicitOptions init_runner) = Some SyncUndefined
   \<and> map_option (icons \<circ> snd) (sync resyncWorld explicitOptions init_runner)
       = Some [(Some ''animate'', []), (Some ''error'', [Created 0])]
   \<and> map_option (syncInProgress \<circ> snd) (sync resyncWorld explicitOptions init_runner)
       = Some False"
proof -
  let ?R = "retryLoop resyncWorld (engineOptionsOf plainOptions runningState) 1 [1] [1] runningState"
  have c: "map_option fst (sync resyncWorld explicitOptions init_runner) = Some SyncUndefined"
    "map_option (icons \<circ> snd) (sync resyncWorld explicitOptions init_runner)
       = Some [(Some ''animate'', []), (Some ''error'', [Created 0])]"
    "map_option (syncInProgress \<circ> snd) (sync resyncWorld explicitOptions init_runner)
       = Some False"
    unfolding resyncCaught by (simp_all add: init_runner_def)
  have run: "?R = ((Some (Created 0), [1], 4), snd ?R)"
    using resyncRun(1) by (cases ?R) simp
  note t = retryLoop_attempt_budget[OF run]
  from t have "3 < (4::nat) \<longleftrightarrow> tooManyAttempts (Some (Created 0)) (snd ?R)" by blast
  then have a: "tooManyAttempts (Some (Created 0)) (snd ?R)" by simp
  have b: "newPhases runningState (snd ?R)
     = [DataPhase 1 [1] [1], FilePhase 1 [1] [1], DataPhase 2 [1] [1], FilePhase 2 [1] [1],
        DataPhase 3 [1] [1], FilePhase 3 [1] [1]]"
    unfolding newPhases_def resyncRun(2) by (simp add: runningState_def init_runner_def)
  from resyncRun(1) a b c show ?thesis by blast
qed

lemma secondPassRun:
  "fst (retryLoop secondPassWorld (engineOptionsOf plainOptions runningState) 1 [1, 2] [1, 2]
       runningState) = (None, [], 2)"
  "phaseLog (snd (retryLoop secondPassWorld (engineOptionsOf plainOptions runningState) 1 [1, 2]
       [1, 2] runningState))
     = [DataPhase 1 [1, 2] [1, 2], FilePhase 1 [1, 2] [2], DataPhase 2 [2] [2],
        FilePhase 2 [2] [], FullTextPhase 2 [1, 2] []]"
  "engineLog (snd (retryLoop secondPassWorld (engineOptionsOf plainOptions runningState) 1 [1, 2]
       [1, 2] runningState))
     = [DataRun 1 (Resolved ()), DataRun 2 (Resolved ()),
        StorageRun 1 (Resolved \<lparr>syncRequired = False, fileSyncRequired = False\<rparr>),
        StorageRun 2 (Resolved \<lparr>syncRequired = True, fileSyncRequired = False\<rparr>),
        DataRun 2 (Resolved ()),
        StorageRun 2 (Resolved \<lparr>syncRequired = False, fileSyncRequired = False\<rparr>),
        FullTextRun 1 (Resolved ()), FullTextRun 2 (Resolved ())]"
  by (simp_all add: retryLoop.simps secondPassWorld_def run_defs)

lemma fatalDataRun:
  "fst (retryLoop fatalDataWorld (engineOptionsOf plainOptions fatalState) 1 [1, 2] [1, 2]
       fatalState) = (None, [], 1)"
  "phaseLog (snd (retryLoop fatalDataWorld (engineOptionsOf plainOptions fatalState) 1 [1, 2]
       [1, 2] fatalState))
     = [DataPhase 1 [1, 2] [], FilePhase 1 [] [], FullTextPhase 1 [] []]"
  "engineLog (snd (retryLoop fatalDataWorld (engineOptionsOf plainOptions fatalState) 1 [1, 2]
       [1, 2] fatalState))
     = [DataRun 1 (Rejected 0)]"
  "callerStopped (snd (retryLoop fatalDataWorld (engineOptionsOf plainOptions fatalState) 1
       [1, 2] [1, 2] fatalState))"
  by (simp_all add: retryLoop.simps fatalDataWorld_def fatalState_def run_defs)

text \<open>
  The claim as worded takes \<open>successfulLibraries\<close> for the libraries that have not failed
  a data sync. With libraries 1 and 2, the data engine of library 1 is rejected with a
  fatal error, which ends the data phase: no engine is ever started for library 2, so
  library 2 has not failed a data sync, and yet the full-text phase is passed the empty
  list.
\<close>

theorem retryLoop_unreached_library_counterexample:
  "fst (retryLoop fatalDataWorld (engineOptionsOf plainOptions fatalState) 1 [1, 2] [1, 2]
       fatalState) = (None, [], 1)
   \<and> newEvents fatalState
        (snd (retryLoop fatalDataWorld (engineOptionsOf plainOptions fatalState) 1 [1, 2] [1, 2]
           fatalState))
       = [DataRun 1 (Rejected 0)]
   \<and> dataRejected (newEvents fatalState
        (snd (retryLoop fatalDataWorld (engineOptionsOf plainOptions fatalState) 1 [1, 2] [1, 2]
           fatalState)))
       = [1]
   \<and> newPhases fatalState
        (snd (retryLoop fatalDataWorld (engineOptionsOf plainOptions fatalState) 1 [1, 2] [1, 2]
           fatalState))
       = [DataPhase 1 [1, 2] [], FilePhase 1 [] [], FullTextPhase 1 [] []]"
  unfolding newEvents_def newPhases_def fatalDataRun
  by (simp add: fatalState_def init_runner_def)

theorem retryLoop_phase_inputs_witness:
  "newPhases runningState
      (snd (retryLoop secondPassWorld (engineOptionsOf plainOptions runningState) 1 [1, 2] [1, 2]
         runningState))
     = [DataPhase 1 [1, 2] [1, 2], FilePhase 1 [1, 2] [2], DataPhase 2 [2] [2],
        FilePhase 2 [2] []] @ FullTextPhase 2 [1, 2] [] # []
   \<and> [1, 2] = successfulAfter [1, 2]
        [DataPhase 1 [1, 2] [1, 2], FilePhase 1 [1, 2] [2], DataPhase 2 [2] [2],
         FilePhase 2 [2] []]
   \<and> newEvents runningState
      (snd (retryLoop secondPassWorld (engineOptionsOf plainOptions runningState) 1 [1, 2] [1, 2]
         runningState))
     = concat [[DataRun 1 (Resolved ()), DataRun 2 (Resolved ())],
               [StorageRun 1 (Resolved \<lparr>syncRequired = False, fileSyncRequired = False\<rparr>),
                StorageRun 2 (Resolved \<lparr>syncRequired = True, fileSyncRequired = False\<rparr>)],
               [DataRun 2 (Resolved ())],
               [StorageRun 2 (Resolved \<lparr>syncRequired = False, fileSyncRequired = False\<rparr>)],
               [FullTextRun 1 (Resolved ()), FullTextRun 2 (Resolved ())]] @ []
   \<and> list_all2 (phaseEngines secondPassWorld runningState)
        [DataPhase 1 [1, 2] [1, 2], FilePhase 1 [1, 2] [2], DataPhase 2 [2] [2],
         FilePhase 2 [2] [], FullTextPhase 2 [1, 2] []]
        [[DataRun 1 (Resolved ()), DataRun 2 (Resolved ())],
         [StorageRun 1 (Resolved \<lparr>syncRequired = False, fileSyncRequired = False\<rparr>),
          StorageRun 2 (Resolved \<lparr>syncRequired = True, fileSyncRequired = False\<rparr>)],
         [DataRun 2 (Resolved ())],
         [StorageRun 2 (Resolved \<lparr>syncRequired = False, fileSyncRequired = False\<rparr>)],
         [FullTextRun 1 (Resolved ()), FullTextRun 2 (Resolved ())]]"
proof -
  let ?R = "retryLoop secondPassWorld (engineOptionsOf plainOptions runningState) 1 [1, 2] [1, 2]
         runningState"
  have run: "?R = ((None, [], 2), snd ?R)"
    using secondPassRun(1) by (cases ?R) simp
  note t = retryLoop_phase_inputs[OF run]
  have n: "newPhases runningState (snd ?R)
     = [DataPhase 1 [1, 2] [1, 2], FilePhase 1 [1, 2] [2], DataPhase 2 [2] [2],
        FilePhase 2 [2] []] @ FullTextPhase 2 [1, 2] [] # []"
    unfolding newPhases_def secondPassRun(2) by (simp add: runningState_def init_runner_def)
  from t n have a: "[1, 2] = successfulAfter [1, 2]
        [DataPhase 1 [1, 2] [1, 2], FilePhase 1 [1, 2] [2], DataPhase 2 [2] [2],
         FilePhase 2 [2] []]"
    by blast
  have e: "newEvents runningState (snd ?R)
     = concat [[DataRun 1 (Resolved ()), DataRun 2 (Resolved ())],
               [StorageRun 1 (Resolved \<lparr>syncRequired = False, fileSyncRequired = False\<rparr>),
                StorageRun 2 (Resolved \<lparr>syncRequired = True, fileSyncRequired = False\<rparr>)],
               [DataRun 2 (Resolved ())],
               [StorageRun 2 (Resolved \<lparr>syncRequired = False, fileSyncRequired = False\<rparr>)],
               [FullTextRun 1 (Resolved ()), FullTextRun 2 (Resolved ())]] @ []"
    unfolding newEvents_def secondPassRun(3) by (simp add: runningState_def init_runner_def)
  have en: "fulltextEnabled secondPassWorld" by (simp add: secondPassWorld_def quiet_world_def)
  have p: "list_all2 (phaseEngines secondPassWorld runningState)
        [DataPhase 1 [1, 2] [1, 2], FilePhase 1 [1, 2] [2], DataPhase 2 [2] [2],
         FilePhase 2 [2] [], FullTextPhase 2 [1, 2] []]
        [[DataRun 1 (Resolved ()), DataRun 2 (Resolved ())],
         [StorageRun 1 (Resolved \<lparr>syncRequired = False, fileSyncRequired = False\<rparr>),
          StorageRun 2 (Resolved \<lparr>syncRequired = True, fileSyncRequired = False\<rparr>)],
         [DataRun 2 (Resolved ())],
         [StorageRun 2 (Resolved \<lparr>syncRequired = False, fileSyncRequired = False\<rparr>)],
         [FullTextRun 1 (Resolved ()), FullTextRun 2 (Resolved ())]]"
    by (simp add: en noFatal_def fatalRejection_def fullTextResync_simps)
  from n a e p show ?thesis by blast
qed

subsection \<open>A call while a session is in progress\<close>

lemma getPrimaryErrorType_syncInProgressError:
  "getPrimaryErrorType [syncInProgressError] = None"
  by (simp add: getPrimaryErrorType_def syncInProgressError_def blank_err_def)

lemma sync_rejected:
  assumes "syncInProgress s"
  shows "sync w options s =
     Some (SyncFalse,
           s\<lparr>heap := (heap s)(Created (nextRef s) := syncInProgressError),
             nextRef := Suc (nextRef s),
             errors := [],
             icons := icons s @ [(None, [Created (nextRef s)])],
             lastSyncStatus := None\<rparr>)"
  using assms
  by (subst sync.simps)
     (simp add: Let_def alloc_def updateIcons_def getPrimaryErrorType_syncInProgressError)

text \<open>
  Claim C1, as the code has it. Called while a session is in progress, \<open>sync\<close> returns
  \<open>false\<close>; the flag stays set, and the session's state is as it was but for three things:
  the error queue has been emptied (\<open>_errors = []\<close> comes before the check), the status
  message has been cleared by \<open>updateIcons\<close>, and the icons have been updated with a new
  "sync in progress" error. No engine, dialog or phase is run.
\<close>

theorem sync_in_progress_rejected:
  assumes "syncInProgress s"
  shows "\<exists>s'. sync w options s = Some (SyncFalse, s')
     \<and> syncInProgress s' \<and> errors s' = [] \<and> lastSyncStatus s' = None
     \<and> icons s' = icons s @ [(None, [Created (nextRef s)])]
     \<and> firstInSession s' = firstInSession s
     \<and> storageControllers s' = storageControllers s \<and> nextController s' = nextController s
     \<and> callerStopped s' = callerStopped s \<and> lastSyncTimeUpdates s' = lastSyncTimeUpdates s
     \<and> logged s' = logged s \<and> classified s' = classified s \<and> sunk s' = sunk s
     \<and> tick s' = tick s \<and> engineLog s' = engineLog s \<and> phaseLog s' = phaseLog s
     \<and> localGroups s' = localGroups s \<and> finished s' = finished s
     \<and> (\<forall>r. r \<noteq> Created (nextRef s) \<longrightarrow> heap s' r = heap s r)"
  unfolding sync_rejected[OF assms] using assms by simp

text \<open>
  The claim as worded leaves the error queue alone. In a session in progress with one
  error queued and a status message, the rejected call returns \<open>false\<close> and leaves the
  queue empty and the status message cleared.
\<close>

theorem sync_in_progress_clears_errors_counterexample:
  "errors busyState = [Thrown 0]
   \<and> lastSyncStatus busyState = Some ''sync.status.syncingFiles''
   \<and> map_option fst (sync quiet_world plainOptions busyState) = Some SyncFalse
   \<and> map_option (errors \<circ> snd) (sync quiet_world plainOptions busyState) = Some []
   \<and> map_option (lastSyncStatus \<circ> snd) (sync quiet_world plainOptions busyState) = Some None"
proof -
  have b: "syncInProgress busyState" by (simp add: busyState_def)
  show ?thesis
    unfolding sync_rejected[OF b] by (simp add: busyState_def init_runner_def)
qed

theorem sync_in_progress_rejected_witness:
  "syncInProgress busyState
   \<and> (\<exists>s'. sync quiet_world plainOptions busyState = Some (SyncFalse, s')
        \<and> syncInProgress s' \<and> errors s' = [] \<and> tick s' = tick busyState)"
proof -
  have b: "syncInProgress busyState" by (simp add: busyState_def)
  from sync_in_progress_rejected[OF b, of quiet_world plainOptions] b show ?thesis by blast
qed

end
